theory Spec2Isabelle
  imports Complex_Main "HOL-Library.Monad_Syntax" "HOL-Library.Product_Lexorder"
begin

section \<open>JavaScript values, strings and numbers\<close>

text \<open>
  The analyzers read computed-style strings and DOM attributes. A string is the list of
  its UTF-16 code units, and the model covers the texts whose code units are below 256
  (ISO 8859-1): a \<open>char\<close> is one code unit. A number is an IEEE 754 double: \<open>NaN\<close>, an
  infinity, or \<open>Num x\<close> with \<open>x\<close> the real value of the double; zero has no sign here,
  which no operation below can observe.
\<close>

datatype js_value = JNull | JBool bool | JString string

fun js_truthy :: "js_value \<Rightarrow> bool" where
  "js_truthy JNull = False"
| "js_truthy (JBool b) = b"
| "js_truthy (JString s) = (s \<noteq> [])"

definition js_not :: "js_value \<Rightarrow> js_value" where
  "js_not v = JBool (\<not> js_truthy v)"

fun js_strict_eq :: "js_value \<Rightarrow> js_value \<Rightarrow> bool" where
  "js_strict_eq JNull JNull = True"
| "js_strict_eq (JBool a) (JBool b) = (a = b)"
| "js_strict_eq (JString a) (JString b) = (a = b)"
| "js_strict_eq _ _ = False"

subsection \<open>Characters and strings\<close>

definition is_digit :: "char \<Rightarrow> bool" where
  "is_digit c = (48 \<le> (of_char c :: nat) \<and> (of_char c :: nat) \<le> 57)"

text \<open>White space and line terminators among the code units below 256.\<close>

definition is_space :: "char \<Rightarrow> bool" where
  "is_space c = ((of_char c :: nat) \<in> {9, 10, 11, 12, 13, 32, 160})"

definition is_hex_digit :: "char \<Rightarrow> bool" where
  "is_hex_digit c = (is_digit c \<or> (97 \<le> (of_char c :: nat) \<and> (of_char c :: nat) \<le> 102)
      \<or> (65 \<le> (of_char c :: nat) \<and> (of_char c :: nat) \<le> 70))"

definition digit_val :: "char \<Rightarrow> nat" where
  "digit_val c = (of_char c :: nat) - 48"

definition hex_digit_val :: "char \<Rightarrow> nat" where
  "hex_digit_val c = (if is_digit c then (of_char c :: nat) - 48
                      else if 97 \<le> (of_char c :: nat) then (of_char c :: nat) - 87
                      else (of_char c :: nat) - 55)"

definition dec_value :: "string \<Rightarrow> nat" where
  "dec_value ds = foldl (\<lambda>acc c. 10 * acc + digit_val c) 0 ds"

definition hex_value :: "string \<Rightarrow> nat" where
  "hex_value ds = foldl (\<lambda>acc c. 16 * acc + hex_digit_val c) 0 ds"

text \<open>
  \<open>String.prototype.toLowerCase\<close> on code units below 256: the capitals \<open>A\<close> to \<open>Z\<close>,
  \<open>U+00C0\<close> to \<open>U+00D6\<close> and \<open>U+00D8\<close> to \<open>U+00DE\<close> map to the letter 32 places up;
  every other code unit is kept.
\<close>

definition upper_letters :: string where
  "upper_letters =
     ''ABCDEFGHIJKLMNOPQRSTUVWXYZ'' @
      [CHR 0xC0, CHR 0xC1, CHR 0xC2, CHR 0xC3, CHR 0xC4, CHR 0xC5, CHR 0xC6, CHR 0xC7,
       CHR 0xC8, CHR 0xC9, CHR 0xCA, CHR 0xCB, CHR 0xCC, CHR 0xCD, CHR 0xCE, CHR 0xCF,
       CHR 0xD0, CHR 0xD1, CHR 0xD2, CHR 0xD3, CHR 0xD4, CHR 0xD5, CHR 0xD6, CHR 0xD8,
       CHR 0xD9, CHR 0xDA, CHR 0xDB, CHR 0xDC, CHR 0xDD, CHR 0xDE]"

definition lower_letters :: string where
  "lower_letters =
     ''abcdefghijklmnopqrstuvwxyz'' @
      [CHR 0xE0, CHR 0xE1, CHR 0xE2, CHR 0xE3, CHR 0xE4, CHR 0xE5, CHR 0xE6, CHR 0xE7,
       CHR 0xE8, CHR 0xE9, CHR 0xEA, CHR 0xEB, CHR 0xEC, CHR 0xED, CHR 0xEE, CHR 0xEF,
       CHR 0xF0, CHR 0xF1, CHR 0xF2, CHR 0xF3, CHR 0xF4, CHR 0xF5, CHR 0xF6, CHR 0xF8,
       CHR 0xF9, CHR 0xFA, CHR 0xFB, CHR 0xFC, CHR 0xFD, CHR 0xFE]"

definition lower_char :: "char \<Rightarrow> char" where
  "lower_char c = (case map_of (zip upper_letters lower_letters) c of Some d \<Rightarrow> d | None \<Rightarrow> c)"

definition toLowerCase :: "string \<Rightarrow> string" where
  "toLowerCase s = map lower_char s"

text \<open>\<open>String.prototype.trim\<close>.\<close>

definition trim :: "string \<Rightarrow> string" where
  "trim s = rev (dropWhile is_space (rev (dropWhile is_space s)))"

text \<open>\<open>s.split(' ')\<close>: the pieces between single spaces; the empty string gives one empty piece.\<close>

fun split_space :: "string \<Rightarrow> string list" where
  "split_space [] = [[]]"
| "split_space (c # cs) =
     (if c = CHR '' '' then [] # split_space cs
      else (case split_space cs of p # ps \<Rightarrow> (c # p) # ps | [] \<Rightarrow> [[c]]))"

subsection \<open>Doubles\<close>

datatype number = NaN | PosInf | NegInf | Num real

text \<open>
  Rounding of a real to the nearest double, ties to the even significand: the unit in
  the last place is \<open>2\<close> to the power of the binade less 52, the binade being clamped at
  \<open>-1022\<close> for the subnormal range; a result of magnitude \<open>2 ^ 1024\<close> is an infinity.
\<close>

definition round_half_even :: "real \<Rightarrow> int" where
  "round_half_even y =
     (let f = \<lfloor>y\<rfloor>; d = y - real_of_int f
      in if d < 1 / 2 then f else if d > 1 / 2 then f + 1 else if even f then f else f + 1)"

definition binade :: "real \<Rightarrow> int" where
  "binade x = max \<lfloor>log 2 \<bar>x\<bar>\<rfloor> (- 1022)"

definition fl :: "real \<Rightarrow> number" where
  "fl x =
     (if x = 0 then Num 0
      else (let u = 2 powr real_of_int (binade x - 52);
                y = real_of_int (round_half_even (x / u)) * u
            in if \<bar>y\<bar> \<ge> 2 ^ 1024 then (if x > 0 then PosInf else NegInf) else Num y))"

text \<open>The arithmetic on the special values, before any rounding.\<close>

fun ex_neg :: "number \<Rightarrow> number" where
  "ex_neg NaN = NaN"
| "ex_neg PosInf = NegInf"
| "ex_neg NegInf = PosInf"
| "ex_neg (Num x) = Num (- x)"

fun ex_add :: "number \<Rightarrow> number \<Rightarrow> number" where
  "ex_add NaN _ = NaN"
| "ex_add _ NaN = NaN"
| "ex_add PosInf NegInf = NaN"
| "ex_add NegInf PosInf = NaN"
| "ex_add PosInf _ = PosInf"
| "ex_add _ PosInf = PosInf"
| "ex_add NegInf _ = NegInf"
| "ex_add _ NegInf = NegInf"
| "ex_add (Num x) (Num y) = Num (x + y)"

definition ex_sub :: "number \<Rightarrow> number \<Rightarrow> number" where
  "ex_sub a b = ex_add a (ex_neg b)"

text \<open>The sign of a number that is not \<open>NaN\<close>: \<open>1\<close>, \<open>0\<close> or \<open>-1\<close>.\<close>

fun num_sign :: "number \<Rightarrow> int" where
  "num_sign NaN = 0"
| "num_sign PosInf = 1"
| "num_sign NegInf = - 1"
| "num_sign (Num x) = (if x > 0 then 1 else if x < 0 then - 1 else 0)"

fun ex_mul :: "number \<Rightarrow> number \<Rightarrow> number" where
  "ex_mul NaN _ = NaN"
| "ex_mul _ NaN = NaN"
| "ex_mul (Num x) (Num y) = Num (x * y)"
| "ex_mul a b =
     (if num_sign a * num_sign b > 0 then PosInf
      else if num_sign a * num_sign b < 0 then NegInf else NaN)"

text \<open>
  Division. A finite number over zero is an infinity of the dividend's sign (the zero
  divisors that occur are not negative), zero over zero is \<open>NaN\<close>.
\<close>

fun ex_div :: "number \<Rightarrow> number \<Rightarrow> number" where
  "ex_div NaN _ = NaN"
| "ex_div _ NaN = NaN"
| "ex_div (Num x) (Num y) =
     (if y \<noteq> 0 then Num (x / y)
      else if x > 0 then PosInf else if x < 0 then NegInf else NaN)"
| "ex_div (Num x) _ = Num 0"
| "ex_div a (Num y) =
     (if num_sign a * (if y < 0 then - 1 else 1) > 0 then PosInf else NegInf)"
| "ex_div _ _ = NaN"

fun num_abs :: "number \<Rightarrow> number" where
  "num_abs NaN = NaN"
| "num_abs PosInf = PosInf"
| "num_abs NegInf = PosInf"
| "num_abs (Num x) = Num \<bar>x\<bar>"

text \<open>\<open>Math.max\<close> and \<open>Math.min\<close> of two numbers.\<close>

fun num_max :: "number \<Rightarrow> number \<Rightarrow> number" where
  "num_max NaN _ = NaN"
| "num_max _ NaN = NaN"
| "num_max PosInf _ = PosInf"
| "num_max _ PosInf = PosInf"
| "num_max NegInf b = b"
| "num_max a NegInf = a"
| "num_max (Num x) (Num y) = Num (max x y)"

fun num_min :: "number \<Rightarrow> number \<Rightarrow> number" where
  "num_min NaN _ = NaN"
| "num_min _ NaN = NaN"
| "num_min NegInf _ = NegInf"
| "num_min _ NegInf = NegInf"
| "num_min PosInf b = b"
| "num_min a PosInf = a"
| "num_min (Num x) (Num y) = Num (min x y)"

text \<open>Comparisons with a finite constant; every comparison with \<open>NaN\<close> is false.\<close>

fun num_ge :: "number \<Rightarrow> real \<Rightarrow> bool" where
  "num_ge (Num v) y = (v \<ge> y)"
| "num_ge PosInf y = True"
| "num_ge _ y = False"

fun num_gt :: "number \<Rightarrow> real \<Rightarrow> bool" where
  "num_gt (Num v) y = (v > y)"
| "num_gt PosInf y = True"
| "num_gt _ y = False"

fun num_lt :: "number \<Rightarrow> real \<Rightarrow> bool" where
  "num_lt (Num v) y = (v < y)"
| "num_lt NegInf y = True"
| "num_lt _ y = False"

text \<open>
  \<open>a % b\<close> for a finite non-zero \<open>b\<close>: the remainder of the division truncated towards
  zero, which is exact; the remainder of an infinity or of \<open>NaN\<close> is \<open>NaN\<close>.
\<close>

definition js_rem :: "real \<Rightarrow> real \<Rightarrow> real" where
  "js_rem a b = a - b * real_of_int (if a / b \<ge> 0 then \<lfloor>a / b\<rfloor> else \<lceil>a / b\<rceil>)"

fun num_rem :: "number \<Rightarrow> real \<Rightarrow> number" where
  "num_rem (Num x) b = Num (js_rem x b)"
| "num_rem _ b = NaN"

text \<open>The operators of the language: the exact result, rounded.\<close>

fun num_round :: "number \<Rightarrow> number" where
  "num_round (Num x) = fl x"
| "num_round a = a"

definition num_add :: "number \<Rightarrow> number \<Rightarrow> number" where
  "num_add a b = num_round (ex_add a b)"

definition num_sub :: "number \<Rightarrow> number \<Rightarrow> number" where
  "num_sub a b = num_round (ex_sub a b)"

definition num_mul :: "number \<Rightarrow> number \<Rightarrow> number" where
  "num_mul a b = num_round (ex_mul a b)"

definition num_div :: "number \<Rightarrow> number \<Rightarrow> number" where
  "num_div a b = num_round (ex_div a b)"

text \<open>
  A double that is integral, as \<open>parseInt\<close> and \<open>Math.round\<close> return it: \<open>IInt n\<close> is the
  double of value \<open>n\<close>.
\<close>

datatype jsint = INaN | IPosInf | INegInf | IInt int

fun num_of_jsint :: "jsint \<Rightarrow> number" where
  "num_of_jsint INaN = NaN"
| "num_of_jsint IPosInf = PosInf"
| "num_of_jsint INegInf = NegInf"
| "num_of_jsint (IInt n) = Num (real_of_int n)"

fun jsint_finite :: "jsint \<Rightarrow> bool" where
  "jsint_finite (IInt n) = True"
| "jsint_finite _ = False"

fun jsint_neg :: "jsint \<Rightarrow> jsint" where
  "jsint_neg INaN = INaN"
| "jsint_neg IPosInf = INegInf"
| "jsint_neg INegInf = IPosInf"
| "jsint_neg (IInt n) = IInt (- n)"

text \<open>\<open>Math.round\<close>: the nearest integer, halves upwards; exact on a double.\<close>

fun js_round :: "number \<Rightarrow> jsint" where
  "js_round NaN = INaN"
| "js_round PosInf = IPosInf"
| "js_round NegInf = INegInf"
| "js_round (Num x) = IInt \<lfloor>x + 1 / 2\<rfloor>"

text \<open>The double nearest to a natural number (a natural number rounds to an integral double).\<close>

definition double_of_nat :: "nat \<Rightarrow> jsint" where
  "double_of_nat n = (case fl (real n) of Num y \<Rightarrow> IInt \<lfloor>y\<rfloor> | PosInf \<Rightarrow> IPosInf
                      | NegInf \<Rightarrow> INegInf | NaN \<Rightarrow> INaN)"

text \<open>
  \<open>parseInt(s)\<close> without a radix: leading white space, an optional sign, then a
  hexadecimal literal after \<open>0x\<close> or a run of decimal digits; the value is rounded to a
  double. No digit: \<open>NaN\<close>.
\<close>

definition parseInt :: "string \<Rightarrow> jsint" where
  "parseInt s =
     (let t = dropWhile is_space s;
          neg = (case t of c # _ \<Rightarrow> c = CHR ''-'' | [] \<Rightarrow> False);
          u = (case t of c # r \<Rightarrow> if c = CHR ''-'' \<or> c = CHR ''+'' then r else t | [] \<Rightarrow> t);
          v = (if take 2 u = ''0x'' \<or> take 2 u = ''0X''
               then (let ds = takeWhile is_hex_digit (drop 2 u)
                     in if ds = [] then INaN else double_of_nat (hex_value ds))
               else (let ds = takeWhile is_digit u
                     in if ds = [] then INaN else double_of_nat (dec_value ds)))
      in if neg then jsint_neg v else v)"

text \<open>
  \<open>parseFloat(s)\<close>: leading white space, an optional sign, then \<open>Infinity\<close> or the
  longest decimal literal: digits with an optional fraction, or a fraction alone, and an
  exponent part if digits follow the \<open>e\<close> and its sign. The value is rounded to a double.
  No literal: \<open>NaN\<close>.
\<close>

definition exponent_part :: "string \<Rightarrow> int" where
  "exponent_part r =
     (case r of
        c # r1 \<Rightarrow>
          if c = CHR ''e'' \<or> c = CHR ''E''
          then (let eneg = (case r1 of d # _ \<Rightarrow> d = CHR ''-'' | [] \<Rightarrow> False);
                    r2 = (case r1 of d # r' \<Rightarrow> if d = CHR ''-'' \<or> d = CHR ''+'' then r' else r1
                          | [] \<Rightarrow> r1);
                    ed = takeWhile is_digit r2
                in if eneg then - int (dec_value ed) else int (dec_value ed))
          else 0
      | [] \<Rightarrow> 0)"

definition parseFloat :: "string \<Rightarrow> number" where
  "parseFloat s =
     (let t = dropWhile is_space s;
          neg = (case t of c # _ \<Rightarrow> c = CHR ''-'' | [] \<Rightarrow> False);
          u = (case t of c # r \<Rightarrow> if c = CHR ''-'' \<or> c = CHR ''+'' then r else t | [] \<Rightarrow> t);
          ip = takeWhile is_digit u;
          r = dropWhile is_digit u;
          dot = (case r of c # _ \<Rightarrow> c = CHR ''.'' | [] \<Rightarrow> False);
          fp = (if dot then takeWhile is_digit (tl r) else []);
          rest = (if dot then dropWhile is_digit (tl r) else r);
          v = (if ip = [] \<and> fp = []
               then (if take 8 u = ''Infinity'' then PosInf else NaN)
               else fl ((real (dec_value ip) + real (dec_value fp) / 10 ^ length fp)
                        * 10 powr real_of_int (exponent_part rest)))
      in if neg then ex_neg v else v)"

section \<open>The colour patterns\<close>

text \<open>
  \<open>color.match(re)\<close> without the \<open>g\<close> flag returns the leftmost match. Both patterns
  are deterministic: each greedy run (\<open>\d+\<close>, \<open>\s*\<close>, \<open>a?\<close>, \<open>%?\<close>) is followed by a
  character outside the run, so the first attempt at a position is the only one.
  \<open>regex_search\<close> tries the pattern at every position from the left.
\<close>

fun regex_search :: "(string \<Rightarrow> 'a option) \<Rightarrow> string \<Rightarrow> 'a option" where
  "regex_search pat [] = pat []"
| "regex_search pat (c # cs) =
     (case pat (c # cs) of Some m \<Rightarrow> Some m | None \<Rightarrow> regex_search pat cs)"

definition expect_str :: "string \<Rightarrow> string \<Rightarrow> string option" where
  "expect_str p s = (if take (length p) s = p then Some (drop (length p) s) else None)"

definition optional_char :: "char \<Rightarrow> string \<Rightarrow> string" where
  "optional_char c s = (case s of d # r \<Rightarrow> if d = c then r else s | [] \<Rightarrow> s)"

definition digits1 :: "string \<Rightarrow> (string \<times> string) option" where
  "digits1 s = (let ds = takeWhile is_digit s
                in if ds = [] then None else Some (ds, dropWhile is_digit s))"

text \<open>\<open>/rgba?\((\d+),\s*(\d+),\s*(\d+)/\<close> at the head of the string; the three groups.\<close>

definition rgba_at :: "string \<Rightarrow> (string \<times> string \<times> string) option" where
  "rgba_at s = do {
     s1 \<leftarrow> expect_str ''rgb'' s;
     s2 \<leftarrow> expect_str ''('' (optional_char CHR ''a'' s1);
     (r, s3) \<leftarrow> digits1 s2;
     s4 \<leftarrow> expect_str '','' s3;
     (g, s5) \<leftarrow> digits1 (dropWhile is_space s4);
     s6 \<leftarrow> expect_str '','' s5;
     (b, s7) \<leftarrow> digits1 (dropWhile is_space s6);
     Some (r, g, b)
   }"

definition rgbaMatch :: "string \<Rightarrow> (string \<times> string \<times> string) option" where
  "rgbaMatch color = regex_search rgba_at color"

text \<open>\<open>/hsla?\((\d+),\s*(\d+)%?,\s*(\d+)%?/\<close> at the head of the string.\<close>

definition hsla_at :: "string \<Rightarrow> (string \<times> string \<times> string) option" where
  "hsla_at s = do {
     s1 \<leftarrow> expect_str ''hsl'' s;
     s2 \<leftarrow> expect_str ''('' (optional_char CHR ''a'' s1);
     (h, s3) \<leftarrow> digits1 s2;
     s4 \<leftarrow> expect_str '','' s3;
     (sa, s5) \<leftarrow> digits1 (dropWhile is_space s4);
     s6 \<leftarrow> expect_str '','' (optional_char CHR ''%'' s5);
     (l, s7) \<leftarrow> digits1 (dropWhile is_space s6);
     Some (h, sa, l)
   }"

definition hslMatch :: "string \<Rightarrow> (string \<times> string \<times> string) option" where
  "hslMatch color = regex_search hsla_at color"

text \<open>\<open>/^#([0-9a-f]{2})([0-9a-f]{2})([0-9a-f]{2})/i\<close>: anchored at the start only.\<close>

definition hexMatch :: "string \<Rightarrow> (string \<times> string \<times> string) option" where
  "hexMatch color =
     (case color of
        h # a # b # c # d # e # f # _ \<Rightarrow>
          if h = CHR ''#'' \<and> list_all is_hex_digit [a, b, c, d, e, f]
          then Some ([a, b], [c, d], [e, f]) else None
      | _ \<Rightarrow> None)"

text \<open>\<open>parseInt(s, 16)\<close> on a pair of hexadecimal digits.\<close>

definition parseInt16 :: "string \<Rightarrow> int" where
  "parseInt16 s = int (hex_value s)"

section \<open>Accessibility audit (\<open>extractAccessibilityAudit\<close>)\<close>

text \<open>
  The page as the audit reads it: the text elements with their bounding box and computed
  style, the images (\<open>img.alt\<close> is a string property, empty when the attribute is absent;
  \<open>getAttribute('role')\<close> is a string or \<open>null\<close>), the form fields, and the heading
  levels in document order. The focus-indicator sample and the ARIA counts push no issue
  and are left out, as are the message texts of the issues.

  For a form field, \<open>label_query\<close> is what
  \<open>document.querySelector(`label[for="${input.id}"]`)\<close> does on the page: it throws a
  syntax error when the id makes the selector text invalid (an id with a double quote or
  a backslash usually does), else it finds a label or finds none. An error thrown inside
  the audit ends it: no audit is returned.
\<close>

record text_element =
  te_width :: real
  te_height :: real
  te_display :: string
  te_visibility :: string
  te_color :: string
  te_backgroundColor :: string
  te_fontSize :: string
  te_fontWeight :: string

record img_element =
  alt :: string
  role_attr :: "string option"

datatype query_result = QueryThrows | LabelFound | LabelAbsent

record input_element =
  input_id :: string
  label_query :: query_result
  aria_label :: "string option"
  aria_labelledby :: "string option"
  placeholder :: string

record issue =
  issue_type :: string
  severity :: string

record contrast_entry =
  foreground :: string
  background :: string
  ratio :: number
  isLargeText :: bool
  passesAA :: bool
  passesAAA :: bool
  wcagLevel :: string

record summary =
  totalIssues :: nat
  errors :: nat
  warnings :: nat
  score :: int
  passesMinimumAA :: bool

record audit_page =
  textElements :: "text_element list"
  images :: "img_element list"
  inputs :: "input_element list"
  headings :: "nat list"

record audit =
  colorContrast :: "contrast_entry list"
  missingAltText :: nat
  missingLabels :: nat
  missingHeadings :: bool
  headingStructure :: "nat list"
  issues :: "issue list"
  audit_summary :: summary

datatype audit_error = SelectorSyntaxError

subsection \<open>Contrast\<close>

text \<open>
  The function mapped over the three channels in \<open>getLuminance\<close>, on finite channels.
  The luminance and the ratio are computed without rounding; \<open>Math.pow\<close> of a positive
  base is \<open>powr\<close>.
\<close>

definition linear_channel :: "real \<Rightarrow> real" where
  "linear_channel c0 = (let c = c0 / 255
                        in if c \<le> 0.03928 then c / 12.92 else ((c + 0.055) / 1.055) powr 2.4)"

definition getLuminance :: "real \<Rightarrow> real \<Rightarrow> real \<Rightarrow> real" where
  "getLuminance r g b =
     0.2126 * linear_channel r + 0.7152 * linear_channel g + 0.0722 * linear_channel b"

definition getContrastRatio :: "real \<Rightarrow> real \<Rightarrow> real" where
  "getContrastRatio l1 l2 =
     (let lighter = max l1 l2; darker = min l1 l2 in (lighter + 0.05) / (darker + 0.05))"

definition parseRgb :: "string \<Rightarrow> (number \<times> number \<times> number) option" where
  "parseRgb color =
     (case rgbaMatch color of
        Some (r, g, b) \<Rightarrow>
          Some (num_of_jsint (parseInt r), num_of_jsint (parseInt g), num_of_jsint (parseInt b))
      | None \<Rightarrow>
          (case hexMatch color of
             Some (r, g, b) \<Rightarrow>
               Some (Num (real_of_int (parseInt16 r)), Num (real_of_int (parseInt16 g)),
                     Num (real_of_int (parseInt16 b)))
           | None \<Rightarrow> None))"

text \<open>
  The same two functions on numbers. An infinite channel stays infinite through the
  channel function (the power of an infinity is an infinity, an infinity over 12.92 too),
  and \<open>NaN\<close> stays \<open>NaN\<close>.
\<close>

fun channel_of :: "number \<Rightarrow> number" where
  "channel_of (Num c) = Num (linear_channel c)"
| "channel_of a = a"

definition luminance_of :: "number \<times> number \<times> number \<Rightarrow> number" where
  "luminance_of c =
     (case c of (r, g, b) \<Rightarrow>
        ex_add (ex_add (ex_mul (Num 0.2126) (channel_of r)) (ex_mul (Num 0.7152) (channel_of g)))
               (ex_mul (Num 0.0722) (channel_of b)))"

definition ratio_of :: "number \<Rightarrow> number \<Rightarrow> number" where
  "ratio_of l1 l2 =
     (let lighter = num_max l1 l2; darker = num_min l1 l2
      in ex_div (ex_add lighter (Num 0.05)) (ex_add darker (Num 0.05)))"

text \<open>\<open>Math.round(x * 100) / 100\<close>.\<close>

fun round2 :: "number \<Rightarrow> number" where
  "round2 (Num v) = Num (real_of_int \<lfloor>v * 100 + 1 / 2\<rfloor> / 100)"
| "round2 a = a"

text \<open>\<open>parseInt(computed.fontWeight) || 400\<close>: \<open>NaN\<close> and zero are falsy.\<close>

definition fontWeight_of :: "string \<Rightarrow> jsint" where
  "fontWeight_of w =
     (case parseInt w of INaN \<Rightarrow> IInt 400 | IInt n \<Rightarrow> if n = 0 then IInt 400 else IInt n
      | IPosInf \<Rightarrow> IPosInf | INegInf \<Rightarrow> INegInf)"

text \<open>
  The body of the contrast loop once the pair has been parsed: the computed ratio (before
  rounding) and the entry pushed onto \<open>colorContrast\<close>. It is \<open>None\<close> when the pair is
  skipped: a colour that does not parse, or the background \<open>rgba(0, 0, 0, 0)\<close>.
\<close>

definition computed_ratio :: "string \<Rightarrow> string \<Rightarrow> number option" where
  "computed_ratio fgColor bgColor =
     (case (parseRgb fgColor, parseRgb bgColor) of
        (Some fg, Some bg) \<Rightarrow>
          if bgColor \<noteq> ''rgba(0, 0, 0, 0)''
          then Some (ratio_of (luminance_of fg) (luminance_of bg)) else None
      | _ \<Rightarrow> None)"

definition contrast_check :: "string \<Rightarrow> string \<Rightarrow> string \<Rightarrow> string \<Rightarrow> contrast_entry option" where
  "contrast_check fgColor bgColor fontSize_s fontWeight_s =
     (case computed_ratio fgColor bgColor of
        None \<Rightarrow> None
      | Some rat \<Rightarrow>
          let fontSize = parseFloat fontSize_s;
              fontWeight = num_of_jsint (fontWeight_of fontWeight_s);
              large = (num_ge fontSize 18 \<or> (num_ge fontSize 14 \<and> num_ge fontWeight 700));
              aaRequired = (if large then 3 else 4.5);
              aaaRequired = (if large then 4.5 else 7);
              pAA = num_ge rat aaRequired;
              pAAA = num_ge rat aaaRequired
          in Some \<lparr>foreground = fgColor, background = bgColor, ratio = round2 rat,
                   isLargeText = large, passesAA = pAA, passesAAA = pAAA,
                   wcagLevel = (if pAAA then ''AAA'' else if pAA then ''AA'' else ''Fail'')\<rparr>)"

text \<open>
  One round of \<open>textElements.forEach\<close>. The state is the set \<open>contrastChecked\<close> (as the
  list of its keys), the entries and the issues pushed so far.
\<close>

definition contrast_step ::
  "text_element \<Rightarrow> string list \<times> contrast_entry list \<times> issue list
     \<Rightarrow> string list \<times> contrast_entry list \<times> issue list" where
  "contrast_step el st =
     (case st of (checked, entries, iss) \<Rightarrow>
        if te_width el = 0 \<or> te_height el = 0 \<or> te_display el = ''none''
           \<or> te_visibility el = ''hidden''
        then st
        else let key = te_color el @ ''|'' @ te_backgroundColor el
             in if key \<in> set checked then st
                else (case contrast_check (te_color el) (te_backgroundColor el)
                             (te_fontSize el) (te_fontWeight el) of
                        None \<Rightarrow> (key # checked, entries, iss)
                      | Some e \<Rightarrow>
                          (key # checked, entries @ [e],
                           if \<not> passesAA e
                           then iss @ [\<lparr>issue_type = ''contrast'', severity = ''error''\<rparr>]
                           else iss)))"

definition contrast_loop :: "text_element list \<Rightarrow> contrast_entry list \<times> issue list" where
  "contrast_loop els = snd (fold contrast_step els ([], [], []))"

subsection \<open>Images, form fields, headings\<close>

definition getAttribute :: "string option \<Rightarrow> js_value" where
  "getAttribute a = (case a of None \<Rightarrow> JNull | Some s \<Rightarrow> JString s)"

text \<open>
  The condition of the image loop, with the precedence of the source:
  \<open>!img.alt && ((!img.getAttribute('role')) === 'presentation')\<close>.
\<close>

definition img_counts_as_missing :: "img_element \<Rightarrow> bool" where
  "img_counts_as_missing img =
     (js_truthy (js_not (JString (alt img)))
      \<and> js_strict_eq (js_not (getAttribute (role_attr img))) (JString ''presentation''))"

definition count_missing_alt :: "img_element list \<Rightarrow> nat" where
  "count_missing_alt imgs = fold (\<lambda>img n. if img_counts_as_missing img then n + 1 else n) imgs 0"

definition image_issues :: "img_element list \<Rightarrow> issue list" where
  "image_issues imgs =
     (if count_missing_alt imgs > 0
      then [\<lparr>issue_type = ''images'', severity = ''error''\<rparr>] else [])"

text \<open>
  One form field: \<open>input.id && document.querySelector(...)\<close> asks the page only when the
  id is not empty, and the query may throw.
\<close>

definition input_missing_label :: "input_element \<Rightarrow> audit_error + bool" where
  "input_missing_label i =
     (if input_id i \<noteq> [] \<and> label_query i = QueryThrows then Inl SelectorSyntaxError
      else (let hasLabel = (input_id i \<noteq> [] \<and> label_query i = LabelFound);
                hasAriaLabel = (js_truthy (getAttribute (aria_label i))
                                \<or> js_truthy (getAttribute (aria_labelledby i)));
                hasPlaceholder = (placeholder i \<noteq> [])
            in Inr (\<not> hasLabel \<and> \<not> hasAriaLabel \<and> \<not> hasPlaceholder)))"

text \<open>\<open>inputs.forEach\<close>, with the count so far; the first throw ends the loop.\<close>

fun count_missing_labels :: "input_element list \<Rightarrow> nat \<Rightarrow> audit_error + nat" where
  "count_missing_labels [] n = Inr n"
| "count_missing_labels (i # rest) n =
     (case input_missing_label i of
        Inl e \<Rightarrow> Inl e
      | Inr missing \<Rightarrow> count_missing_labels rest (if missing then n + 1 else n))"

definition label_issues :: "nat \<Rightarrow> issue list" where
  "label_issues missing =
     (if missing > 0 then [\<lparr>issue_type = ''forms'', severity = ''warning''\<rparr>] else [])"

text \<open>The heading walk: \<open>previousLevel\<close> starts at 0 and a jump of more than one level is flagged.\<close>

fun heading_walk :: "nat \<Rightarrow> nat list \<Rightarrow> issue list" where
  "heading_walk previousLevel [] = []"
| "heading_walk previousLevel (level # hs) =
     (if level > previousLevel + 1 \<and> previousLevel \<noteq> 0
      then [\<lparr>issue_type = ''headings'', severity = ''warning''\<rparr>] else [])
     @ heading_walk level hs"

definition heading_issues :: "nat list \<Rightarrow> issue list" where
  "heading_issues hs =
     heading_walk 0 hs
     @ (if 1 \<notin> set hs then [\<lparr>issue_type = ''headings'', severity = ''warning''\<rparr>] else [])"

subsection \<open>Summary and the whole audit\<close>

definition summarize :: "issue list \<Rightarrow> summary" where
  "summarize iss =
     (let errs = length (filter (\<lambda>i. severity i = ''error'') iss);
          warns = length (filter (\<lambda>i. severity i = ''warning'') iss)
      in \<lparr>totalIssues = length iss, errors = errs, warnings = warns,
          score = max 0 (100 - (int errs * 15) - (int warns * 5)),
          passesMinimumAA = (errs = 0)\<rparr>)"

text \<open>The issues in the order they are pushed, given the count of unlabelled fields.\<close>

definition audit_issues :: "audit_page \<Rightarrow> nat \<Rightarrow> issue list" where
  "audit_issues p missing =
     snd (contrast_loop (textElements p)) @ image_issues (images p) @ label_issues missing
     @ heading_issues (headings p)"

definition extractAccessibilityAudit :: "audit_page \<Rightarrow> audit_error + audit" where
  "extractAccessibilityAudit p =
     (case count_missing_labels (inputs p) 0 of
        Inl e \<Rightarrow> Inl e
      | Inr missing \<Rightarrow>
          Inr \<lparr>colorContrast = take 20 (fst (contrast_loop (textElements p))),
               missingAltText = count_missing_alt (images p),
               missingLabels = missing,
               missingHeadings = (1 \<notin> set (headings p)),
               headingStructure = headings p,
               issues = audit_issues p missing,
               audit_summary = summarize (audit_issues p missing)\<rparr>)"

section \<open>Colour normalisation (\<open>normalizeColor\<close> in \<open>extractColors\<close>)\<close>

text \<open>
  \<open>Number.prototype.toString(16)\<close> on an integral double: lower-case digits, a minus
  sign first; \<open>NaN\<close> and the infinities print by name.
\<close>

definition hex_char :: "nat \<Rightarrow> char" where
  "hex_char d = ''0123456789abcdef'' ! d"

function hex_digits :: "nat \<Rightarrow> string" where
  "hex_digits n = (if n < 16 then [hex_char n] else hex_digits (n div 16) @ [hex_char (n mod 16)])"
  by pat_completeness auto
termination
  by (relation "measure (\<lambda>n. n)") auto

declare hex_digits.simps [simp del]

text \<open>
  A double from \<open>2 ^ 53\<close> upwards has more integer digits than its 53 bits determine.
  The radix conversion of the browser the analyzer drives (Chromium's V8) divides by the
  radix until the value is below \<open>2 ^ 53\<close> and writes a zero for every digit dropped.
\<close>

function v8_hex :: "nat \<Rightarrow> string" where
  "v8_hex n = (if n < 2 ^ 53 then hex_digits n else v8_hex (n div 16) @ ''0'')"
  by pat_completeness auto
termination
  by (relation "measure (\<lambda>n. n)") auto

declare v8_hex.simps [simp del]

fun toString16 :: "jsint \<Rightarrow> string" where
  "toString16 INaN = ''NaN''"
| "toString16 IPosInf = ''Infinity''"
| "toString16 INegInf = ''-Infinity''"
| "toString16 (IInt n) = (if n < 0 then CHR ''-'' # v8_hex (nat (- n)) else v8_hex (nat n))"

text \<open>\<open>s.padStart(2, "0")\<close>.\<close>

definition padStart2 :: "string \<Rightarrow> string" where
  "padStart2 s = replicate (2 - length s) CHR ''0'' @ s"

text \<open>\<open>parseInt(group).toString(16).padStart(2, "0")\<close>.\<close>

definition hex_component :: "string \<Rightarrow> string" where
  "hex_component g = padStart2 (toString16 (parseInt g))"

text \<open>
  The HSL branch, from the three numbers read by \<open>parseInt\<close>: every operation rounds
  its result to a double. \<open>hslChannels\<close> gives the three values of
  \<open>Math.round((n + m) * 255)\<close>.
\<close>

definition hslChannels :: "jsint \<Rightarrow> jsint \<Rightarrow> jsint \<Rightarrow> jsint \<times> jsint \<times> jsint" where
  "hslChannels hi si li =
     (let h = num_of_jsint hi;
          s = num_div (num_of_jsint si) (Num 100);
          l = num_div (num_of_jsint li) (Num 100);
          c = num_mul (num_sub (Num 1) (num_abs (num_sub (num_mul (Num 2) l) (Num 1)))) s;
          x = num_mul c (num_sub (Num 1)
                (num_abs (num_sub (num_rem (num_div h (Num 60)) 2) (Num 1))));
          m = num_sub l (num_div c (Num 2));
          rgb = (if num_lt h 60 then (c, x, Num 0)
                 else if num_lt h 120 then (x, c, Num 0)
                 else if num_lt h 180 then (Num 0, c, x)
                 else if num_lt h 240 then (Num 0, x, c)
                 else if num_lt h 300 then (x, Num 0, c)
                 else (c, Num 0, x));
          channel = (\<lambda>n. js_round (num_mul (num_add n m) (Num 255)))
      in (case rgb of (r, g, b) \<Rightarrow> (channel r, channel g, channel b)))"

definition hslToHex :: "jsint \<Rightarrow> jsint \<Rightarrow> jsint \<Rightarrow> string" where
  "hslToHex h s l =
     (case hslChannels h s l of
        (r, g, b) \<Rightarrow> ''#'' @ padStart2 (toString16 r) @ padStart2 (toString16 g)
                       @ padStart2 (toString16 b))"

text \<open>\<open>normalizeColor\<close>.\<close>

definition normalizeColor :: "string \<Rightarrow> string" where
  "normalizeColor color =
     (case rgbaMatch color of
        Some (r, g, b) \<Rightarrow> ''#'' @ hex_component r @ hex_component g @ hex_component b
      | None \<Rightarrow>
          (case hslMatch color of
             Some (h, s, l) \<Rightarrow> hslToHex (parseInt h) (parseInt s) (parseInt l)
           | None \<Rightarrow> toLowerCase color))"

section \<open>Hover and focus colours merged into the palette (\<open>extractBranding\<close>)\<close>


record palette_entry =
  pe_color :: string
  normalized :: string
  pe_count :: nat
  confidence :: string
  sources :: "string list"


text \<open>The characters of a colour in normalised hexadecimal form.\<close>

definition hex_text_char :: "char \<Rightarrow> bool" where
  "hex_text_char c = (c \<in> set ''#-0123456789abcdef'')"

text \<open>The characters of a printed number: the former, and the letters of \<open>NaN\<close> and \<open>Infinity\<close>.\<close>

definition number_text_char :: "char \<Rightarrow> bool" where
  "number_text_char c = (hex_text_char c \<or> c \<in> set ''NaN'' \<or> c \<in> set ''Infinity'')"

text \<open>The text printed for three values, as both branches of \<open>normalizeColor\<close> build it.\<close>

definition hex3 :: "jsint \<Rightarrow> jsint \<Rightarrow> jsint \<Rightarrow> string" where
  "hex3 r g b = ''#'' @ padStart2 (toString16 r) @ padStart2 (toString16 g)
                  @ padStart2 (toString16 b)"

text \<open>A finite number of magnitude at most \<open>2 ^ k\<close>.\<close>

fun magnitude_le :: "nat \<Rightarrow> number \<Rightarrow> bool" where
  "magnitude_le k (Num y) = (\<bar>y\<bar> \<le> 2 ^ k)"
| "magnitude_le k _ = False"

section \<open>Palette (\<open>extractColors\<close>)\<close>

text \<open>\<open>s.includes(sub)\<close>.\<close>

fun str_includes :: "string \<Rightarrow> string \<Rightarrow> bool" where
  "str_includes [] sub = (sub = [])"
| "str_includes (c # cs) sub = (take (length sub) (c # cs) = sub \<or> str_includes cs sub)"

text \<open>
  An element as the colour walk reads it: the three properties that hide it, the colours
  found in its box shadow, the colour tokens of its eight colour properties
  (\<open>allColors\<close>), the score its context keywords give it and the first word of its
  context (\<open>source\<close>).
\<close>

record color_element =
  ce_display :: string
  ce_visibility :: string
  ce_opacity :: string
  ce_shadowColors :: "string list"
  ce_allColors :: "string list"
  ce_score :: nat
  ce_source :: string

record color_data =
  original :: string
  cd_count :: nat
  cd_score :: nat
  cd_sources :: "string list"

text \<open>\<open>colorMap\<close> is a \<open>Map\<close>: keys in insertion order, a set key keeps its place.\<close>

type_synonym color_map = "(string \<times> color_data) list"

definition map_set :: "'k \<Rightarrow> 'v \<Rightarrow> ('k \<times> 'v) list \<Rightarrow> ('k \<times> 'v) list" where
  "map_set k v m =
     (if k \<in> set (map fst m) then map (\<lambda>kv. if fst kv = k then (k, v) else kv) m
      else m @ [(k, v)])"

definition set_add :: "'a \<Rightarrow> 'a list \<Rightarrow> 'a list" where
  "set_add x xs = (if x \<in> set xs then xs else xs @ [x])"

definition colorMap_get :: "color_map \<Rightarrow> string \<Rightarrow> string \<Rightarrow> color_data" where
  "colorMap_get m nrm color =
     (case map_of m nrm of
        Some d \<Rightarrow> d
      | None \<Rightarrow> \<lparr>original = color, cd_count = 0, cd_score = 0, cd_sources = []\<rparr>)"

definition add_shadow_color :: "string \<Rightarrow> color_map \<Rightarrow> color_map" where
  "add_shadow_color color m =
     (let nrm = normalizeColor color;
          existing = colorMap_get m nrm color
      in map_set nrm (existing\<lparr>cd_count := cd_count existing + 1,
                               cd_score := cd_score existing + 1,
                               cd_sources := set_add ''shadow'' (cd_sources existing)\<rparr>) m)"

definition add_color :: "nat \<Rightarrow> string \<Rightarrow> string \<Rightarrow> color_map \<Rightarrow> color_map" where
  "add_color sc src color m =
     (if color \<noteq> [] \<and> color \<noteq> ''rgba(0, 0, 0, 0)'' \<and> color \<noteq> ''transparent''
      then (let nrm = normalizeColor color;
                existing = colorMap_get m nrm color
            in map_set nrm (existing\<lparr>cd_count := cd_count existing + 1,
                                     cd_score := cd_score existing + sc,
                                     cd_sources :=
                                       (if sc > 1 \<and> src \<noteq> [] \<and> \<not> str_includes src ''__''
                                        then set_add src (cd_sources existing)
                                        else cd_sources existing)\<rparr>) m)
      else m)"

text \<open>One round of \<open>elements.forEach\<close>: a hidden element returns at once.\<close>

definition color_step :: "color_element \<Rightarrow> color_map \<Rightarrow> color_map" where
  "color_step el m =
     (if ce_display el = ''none'' \<or> ce_visibility el = ''hidden'' \<or> ce_opacity el = ''0''
      then m
      else fold (add_color (ce_score el) (ce_source el)) (ce_allColors el)
             (fold add_shadow_color (ce_shadowColors el) m))"

definition build_colorMap :: "color_element list \<Rightarrow> color_map" where
  "build_colorMap elements = fold color_step elements []"

text \<open>
  \<open>Math.max(3, Math.floor(totalElements * 0.01))\<close>, where \<open>totalElements\<close> is the
  length of \<open>document.querySelectorAll("*")\<close>.
\<close>

definition threshold :: "nat \<Rightarrow> int" where
  "threshold totalElements = max 3 \<lfloor>real totalElements * 0.01\<rfloor>"

definition isStructuralColor :: "color_data \<Rightarrow> nat \<Rightarrow> bool" where
  "isStructuralColor d totalElements =
     (let usagePercent = (real (cd_count d) / real totalElements) * 100
      in if original d = ''rgba(0, 0, 0, 0)'' \<or> original d = ''transparent'' then True
         else if usagePercent > 40 \<and> real (cd_score d) < real (cd_count d) * 1.2 then True
         else False)"

definition confidence_of :: "nat \<Rightarrow> string" where
  "confidence_of sc = (if sc > 20 then ''high'' else if sc > 5 then ''medium'' else ''low'')"

text \<open>
  \<open>Array.prototype.sort\<close> with the comparator \<open>b.count - a.count\<close>: a stable sort by
  descending count.
\<close>

definition sort_by_count_desc :: "palette_entry list \<Rightarrow> palette_entry list" where
  "sort_by_count_desc xs = sort_key (\<lambda>e. - int (pe_count e)) xs"

definition palette_of :: "color_map \<Rightarrow> nat \<Rightarrow> palette_entry list" where
  "palette_of colorMap totalElements =
     sort_by_count_desc
       (map (\<lambda>kv. \<lparr>pe_color = original (snd kv), normalized = fst kv,
                     pe_count = cd_count (snd kv), confidence = confidence_of (cd_score (snd kv)),
                     sources = take 3 (cd_sources (snd kv))\<rparr>)
          (filter (\<lambda>kv. \<not> (int (cd_count (snd kv)) < threshold totalElements)
                         \<and> \<not> isStructuralColor (snd kv) totalElements) colorMap))"

subsection \<open>Perceptual deduplication\<close>

text \<open>
  \<open>hexToRgb\<close>: the text must start with \<open>#\<close> and match
  \<open>/^#?([a-f\d]{2})([a-f\d]{2})([a-f\d]{2})$/i\<close>, that is, be \<open>#\<close> and exactly six
  hexadecimal digits.
\<close>

definition hexToRgb :: "string \<Rightarrow> (int \<times> int \<times> int) option" where
  "hexToRgb hex =
     (if take 1 hex \<noteq> ''#'' then None
      else (let t = optional_char CHR ''#'' hex
            in if length t = 6 \<and> list_all is_hex_digit t
               then Some (parseInt16 (take 2 t), parseInt16 (take 2 (drop 2 t)),
                          parseInt16 (drop 4 t))
               else None))"

definition deltaE :: "string \<Rightarrow> string \<Rightarrow> real" where
  "deltaE rgb1 rgb2 =
     (case (hexToRgb rgb1, hexToRgb rgb2) of
        (Some (r1, g1, b1), Some (r2, g2, b2)) \<Rightarrow>
          (let rDiff = r1 - r2; gDiff = g1 - g2; bDiff = b1 - b2
           in sqrt (real_of_int (rDiff * rDiff + gDiff * gDiff + bDiff * bDiff)))
      | _ \<Rightarrow> 999)"

text \<open>
  The inner \<open>for\<close> loop at position \<open>index\<close>, one round for \<open>i\<close>. Entries are named by
  their position in \<open>palette\<close>; the state is \<open>similar\<close> and the set \<open>merged\<close>.
\<close>

definition similar_step ::
  "palette_entry list \<Rightarrow> nat \<Rightarrow> nat \<Rightarrow> nat list \<times> nat set \<Rightarrow> nat list \<times> nat set" where
  "similar_step palette index i st =
     (case st of (similar, merged) \<Rightarrow>
        if i \<in> merged then st
        else if deltaE (normalized (palette ! index)) (normalized (palette ! i)) < 15
             then (similar @ [i], insert i merged)
             else st)"

text \<open>One round of \<open>palette.forEach\<close>: the state is the clusters pushed so far and \<open>merged\<close>.\<close>

definition dedup_step ::
  "palette_entry list \<Rightarrow> nat \<Rightarrow> nat list list \<times> nat set \<Rightarrow> nat list list \<times> nat set" where
  "dedup_step palette index st =
     (case st of (clusters, merged) \<Rightarrow>
        if index \<in> merged then st
        else (case fold (similar_step palette index) [index + 1 ..< length palette]
                     ([index], merged) of
                (similar, merged') \<Rightarrow> (clusters @ [similar], merged')))"

definition dedup_clusters :: "palette_entry list \<Rightarrow> nat list list" where
  "dedup_clusters palette = fst (fold (dedup_step palette) [0 ..< length palette] ([], {}))"

text \<open>
  \<open>similar.sort((a, b) => b.count - a.count)[0]\<close>. A cluster always holds the entry it
  started from, so the sorted list is never empty.
\<close>

definition best_of :: "palette_entry list \<Rightarrow> nat list \<Rightarrow> palette_entry" where
  "best_of palette similar =
     (case sort_by_count_desc (map (\<lambda>i. palette ! i) similar) of
        b # _ \<Rightarrow> b
      | [] \<Rightarrow> palette ! 0)"

definition perceptuallyDeduped :: "palette_entry list \<Rightarrow> palette_entry list" where
  "perceptuallyDeduped palette = map (best_of palette) (dedup_clusters palette)"

definition extractColors_palette :: "color_element list \<Rightarrow> palette_entry list" where
  "extractColors_palette elements =
     perceptuallyDeduped (palette_of (build_colorMap elements) (length elements))"

subsection \<open>CSS variables after the palette\<close>

text \<open>
  One round of the loop over \<open>cssVariables\<close>. \<open>cssVarsByColor\<close> maps a normalised colour
  to its first value and the names of the variables that carry it.
\<close>

definition cssVar_isDuplicate :: "palette_entry list \<Rightarrow> string \<Rightarrow> bool" where
  "cssVar_isDuplicate deduped nrm = list_ex (\<lambda>pc. deltaE nrm (normalized pc) < 15) deduped"

definition cssVar_step ::
  "palette_entry list \<Rightarrow> string \<times> string \<Rightarrow> (string \<times> string \<times> string list) list
     \<Rightarrow> (string \<times> string \<times> string list) list" where
  "cssVar_step deduped pv m =
     (let nrm = normalizeColor (snd pv)
      in if nrm \<in> set (map normalized deduped) then m
         else if cssVar_isDuplicate deduped nrm then m
         else (case map_of m nrm of
                 None \<Rightarrow> m @ [(nrm, snd pv, [fst pv])]
               | Some (v, vars) \<Rightarrow> map_set nrm (v, vars @ [fst pv]) m))"

definition cssVarsByColor ::
  "palette_entry list \<Rightarrow> (string \<times> string) list \<Rightarrow> (string \<times> string \<times> string list) list" where
  "cssVarsByColor deduped cssVariables = fold (cssVar_step deduped) cssVariables []"

text \<open>
  \<open>filteredCssVariables\<close>: one property per entry of \<open>cssVarsByColor\<close>, named by the
  first variable of the entry and holding the first value. \<open>vars[0]\<close> of an empty array
  is \<open>undefined\<close>, which names the property \<open>undefined\<close>.
\<close>

definition first_var :: "string list \<Rightarrow> string" where
  "first_var vars = (case vars of x # _ \<Rightarrow> x | [] \<Rightarrow> ''undefined'')"

definition filtered_step ::
  "string \<times> string \<times> string list \<Rightarrow> (string \<times> string) list \<Rightarrow> (string \<times> string) list" where
  "filtered_step e obj = (case e of (nrm, v, vars) \<Rightarrow> map_set (first_var vars) v obj)"

definition filteredCssVariables ::
  "palette_entry list \<Rightarrow> (string \<times> string) list \<Rightarrow> (string \<times> string) list" where
  "filteredCssVariables deduped cssVariables =
     fold filtered_step (cssVarsByColor deduped cssVariables) []"

text \<open>
  Two notions for the statements about the loop: a normalised colour passes the two tests
  of a round, and the variables of a list that carry a given normalised colour.
\<close>

definition cssVar_passes :: "palette_entry list \<Rightarrow> string \<Rightarrow> bool" where
  "cssVar_passes deduped nrm =
     (nrm \<notin> set (map normalized deduped) \<and> \<not> cssVar_isDuplicate deduped nrm)"

definition same_color :: "string \<Rightarrow> (string \<times> string) list \<Rightarrow> (string \<times> string) list" where
  "same_color nrm cssVariables = filter (\<lambda>pv. normalizeColor (snd pv) = nrm) cssVariables"

text \<open>
  What the loop has built after a list of variables: one entry for each normalised colour
  that passes the tests and is carried by a variable, with the names of its variables in
  order and the value of the first.
\<close>

definition cssVars_inv ::
  "palette_entry list \<Rightarrow> (string \<times> string) list \<Rightarrow> (string \<times> string \<times> string list) list \<Rightarrow> bool" where
  "cssVars_inv deduped L m =
     (distinct (map fst m)
      \<and> (\<forall>e \<in> set m. cssVar_passes deduped (fst e) \<and> same_color (fst e) L \<noteq> []
             \<and> snd (snd e) = map fst (same_color (fst e) L)
             \<and> fst (snd e) = snd (hd (same_color (fst e) L)))
      \<and> (\<forall>q \<in> set L. cssVar_passes deduped (normalizeColor (snd q))
             \<longrightarrow> normalizeColor (snd q) \<in> fst ` set m))"

text \<open>The threshold as the specification words it: over the visible elements only.\<close>

definition visible_element :: "color_element \<Rightarrow> bool" where
  "visible_element el =
     (ce_display el \<noteq> ''none'' \<and> ce_visibility el \<noteq> ''hidden'' \<and> ce_opacity el \<noteq> ''0'')"

definition spec_threshold :: "color_element list \<Rightarrow> int" where
  "spec_threshold elements = max 3 \<lfloor>real (length (filter visible_element elements)) * 0.01\<rfloor>"

section \<open>Spacing scale (\<open>extractSpacing\<close>)\<close>

text \<open>
  An element as the spacing walk reads it: the four computed lengths. \<open>spacings\<close> is a
  \<open>Map\<close> from the parsed value to its count, keys in insertion order.
\<close>

record spacing_element =
  marginTop :: string
  marginBottom :: string
  paddingTop :: string
  paddingBottom :: string

definition count_spacing :: "string \<Rightarrow> (number \<times> nat) list \<Rightarrow> (number \<times> nat) list" where
  "count_spacing prop spacings =
     (let v = parseFloat prop
      in if num_gt v 0
         then map_set v ((case map_of spacings v of Some c \<Rightarrow> c | None \<Rightarrow> 0) + 1) spacings
         else spacings)"

definition spacing_step :: "spacing_element \<Rightarrow> (number \<times> nat) list \<Rightarrow> (number \<times> nat) list" where
  "spacing_step el spacings =
     fold count_spacing [marginTop el, marginBottom el, paddingTop el, paddingBottom el] spacings"

definition collect_spacings :: "spacing_element list \<Rightarrow> (number \<times> nat) list" where
  "collect_spacings elements = fold spacing_step elements []"

text \<open>
  An entry of \<open>commonValues\<close>. Its \<open>px\<close> and \<open>rem\<close> texts print \<open>numericValue\<close>, and
  \<open>parseFloat(v.px)\<close> reads \<open>numericValue\<close> back.
\<close>

record spacing_value =
  sv_count :: nat
  numericValue :: number

record spacing_result =
  scaleType :: string
  commonValues :: "spacing_value list"

text \<open>
  The order of \<open>(a, b) => a.numericValue - b.numericValue\<close> on the keys of the map,
  which are positive numbers or \<open>Infinity\<close>: by value, \<open>Infinity\<close> last.
\<close>

fun sort_rank :: "number \<Rightarrow> nat \<times> real" where
  "sort_rank (Num x) = (0, x)"
| "sort_rank PosInf = (1, 0)"
| "sort_rank NegInf = (0, 0)"
| "sort_rank NaN = (0, 0)"

text \<open>
  Sorted by count, descending, cut to the first 20, then sorted by value (both sorts
  stable).
\<close>

definition common_values :: "(number \<times> nat) list \<Rightarrow> spacing_value list" where
  "common_values spacings =
     sort_key (\<lambda>v. sort_rank (numericValue v))
       (map (\<lambda>e. \<lparr>sv_count = snd e, numericValue = fst e\<rparr>)
          (take 20 (sort_key (\<lambda>e. - int (snd e)) spacings)))"

definition detect_scale :: "spacing_value list \<Rightarrow> string" where
  "detect_scale vals =
     (let is4px = list_ex (\<lambda>v. num_rem (numericValue v) 4 = Num 0) vals;
          is8px = list_ex (\<lambda>v. num_rem (numericValue v) 8 = Num 0) vals
      in if is8px then ''8px'' else if is4px then ''4px'' else ''custom'')"

definition extractSpacing :: "spacing_element list \<Rightarrow> spacing_result" where
  "extractSpacing elements =
     (let vals = common_values (collect_spacings elements)
      in \<lparr>scaleType = detect_scale vals, commonValues = vals\<rparr>)"

text \<open>
  The inference as the specification words it: the scale is 8px when the most frequent
  values are multiples of 8, 4px when they are multiples of 4 but not of 8, custom
  otherwise.
\<close>

definition spec_scaleType :: "spacing_value list \<Rightarrow> string" where
  "spec_scaleType vals =
     (if list_all (\<lambda>v. num_rem (numericValue v) 8 = Num 0) vals then ''8px''
      else if list_all (\<lambda>v. num_rem (numericValue v) 4 = Num 0) vals then ''4px''
      else ''custom'')"

section \<open>Button candidates (\<open>extractButtonStyles\<close>)\<close>

text \<open>
  A candidate as the filter reads it: its bounding box, the computed style, its
  \<open>innerText\<close> (absent on elements that have none), the number of descendants whose
  class contains \<open>material-icons\<close> or \<open>material-symbols\<close>, and the computed background
  of its first child, if it has a child.
\<close>

record button_candidate =
  bc_width :: real
  bc_height :: real
  bc_display :: string
  bc_visibility :: string
  bc_opacity :: string
  bc_transform :: string
  bc_innerText :: "string option"
  bc_materialIcons :: nat
  bc_materialSymbols :: nat
  bc_backgroundColor :: string
  bc_border :: string
  bc_borderWidth :: string
  bc_firstChildBackground :: "string option"
  bc_tagName :: string

text \<open>\<open>btn.innerText?.trim() || ''\<close>.\<close>

definition buttonText :: "button_candidate \<Rightarrow> string" where
  "buttonText btn = (case bc_innerText btn of None \<Rightarrow> [] | Some t \<Rightarrow> trim t)"

text \<open>\<open>buttonText.split(' ').join('')\<close>.\<close>

definition textNoSpaces :: "button_candidate \<Rightarrow> string" where
  "textNoSpaces btn = concat (split_space (buttonText btn))"

definition hasBorder :: "button_candidate \<Rightarrow> bool" where
  "hasBorder btn =
     (bc_borderWidth btn \<noteq> []
      \<and> num_gt (parseFloat (bc_borderWidth btn)) 0
      \<and> bc_border btn \<noteq> ''none'')"

definition hasBackground :: "button_candidate \<Rightarrow> bool" where
  "hasBackground btn =
     (bc_backgroundColor btn \<noteq> [] \<and> bc_backgroundColor btn \<noteq> ''rgba(0, 0, 0, 0)''
      \<and> bc_backgroundColor btn \<noteq> ''transparent'')"

definition childHasBackground :: "button_candidate \<Rightarrow> bool" where
  "childHasBackground btn =
     (if \<not> hasBackground btn
      then (case bc_firstChildBackground btn of
              None \<Rightarrow> False
            | Some childBg \<Rightarrow>
                childBg \<noteq> [] \<and> childBg \<noteq> ''rgba(0, 0, 0, 0)'' \<and> childBg \<noteq> ''transparent'')
      else False)"

text \<open>
  The exclusion tests of \<open>buttons.forEach\<close>, in the order of the source; each test that
  holds returns from the round, so the candidate is dropped. \<open>True\<close>: the candidate
  goes on to be recorded.
\<close>

definition button_retained :: "button_candidate \<Rightarrow> bool" where
  "button_retained btn =
     (let width = bc_width btn; height = bc_height btn;
          txt = buttonText btn; noSpaces = textNoSpaces btn
      in if bc_width btn = 0 \<or> bc_height btn = 0 \<or> bc_display btn = ''none''
            \<or> bc_visibility btn = ''hidden'' then False
         else if bc_opacity btn = ''0'' then False
         else if bc_transform btn = ''matrix(0, 0, 0, 0, 0, 0)'' then False
         else if width < 10 \<or> width > 600 then False
         else if height < 25 \<or> height > 200 then False
         else if height / width > 1.2 then False
         else if width / height > 8 then False
         else if length noSpaces > 0 \<and> length noSpaces < 2 then False
         else if length noSpaces > 32 then False
         else if str_includes txt [CHR 0x0A] \<or> str_includes txt [CHR 0x09] then False
         else if toLowerCase txt = ''ad'' then False
         else if ''skip'' \<in> set (split_space (toLowerCase txt)) then False
         else if ''jump'' \<in> set (split_space (toLowerCase txt)) then False
         else if bc_materialIcons btn > 0 then False
         else if bc_materialSymbols btn > 0 then False
         else if \<not> hasBackground btn \<and> \<not> hasBorder btn \<and> \<not> childHasBackground btn then False
         else True)"

text \<open>\<open>isHighConfidence\<close> needs the role and ARIA attributes; only the native tag is kept here.\<close>

definition isNativeButton :: "button_candidate \<Rightarrow> bool" where
  "isNativeButton btn = (bc_tagName btn = ''BUTTON'')"

section \<open>Properties of the number model\<close>

lemma round_half_even_int: "round_half_even (real_of_int n) = n"
  by (simp add: round_half_even_def)

lemma binade_upper:
  assumes "x \<noteq> 0" "\<bar>x\<bar> < 2 powr real_of_int (m + 1)" "- 1022 \<le> m"
  shows "binade x \<le> m"
proof -
  have "log 2 \<bar>x\<bar> < real_of_int (m + 1)"
    using assms(1,2) by (simp add: log_less_iff)
  then have "\<lfloor>log 2 \<bar>x\<bar>\<rfloor> \<le> m"
    by (simp add: floor_le_iff)
  then show ?thesis using assms(3) by (simp add: binade_def)
qed

lemma binade_lower: "- 1022 \<le> binade x"
  by (simp add: binade_def)

text \<open>A real that has a 53-bit significand at an exponent of the format rounds to itself.\<close>

lemma fl_exact:
  assumes x: "x = real_of_int k * 2 powr real_of_int i"
    and k: "\<bar>k\<bar> < 2 ^ 53" and i: "- 1074 \<le> i" and fin: "\<bar>x\<bar> < 2 ^ 1024"
  shows "fl x = Num x"
proof (cases "x = 0")
  case True
  then show ?thesis by (simp add: fl_def)
next
  case False
  define e where "e = binade x"
  have "\<bar>x\<bar> = real_of_int \<bar>k\<bar> * 2 powr real_of_int i"
    unfolding x by (simp add: abs_mult)
  also have "\<dots> < 2 ^ 53 * 2 powr real_of_int i"
  proof -
    have "real_of_int \<bar>k\<bar> < 2 ^ 53" using k by (metis of_int_less_iff of_int_numeral of_int_power)
    then show ?thesis by simp
  qed
  also have "\<dots> = 2 powr real_of_int (i + 52 + 1)"
  proof -
    have a: "(2::real) ^ 53 = 2 powr 53" by (simp add: powr_numeral [symmetric] del: powr_numeral)
    have "real_of_int (i + 52 + 1) = 53 + real_of_int i" by simp
    then show ?thesis unfolding a by (simp only: powr_add)
  qed
  finally have "\<bar>x\<bar> < 2 powr real_of_int (i + 52 + 1)" .
  then have e_le: "e \<le> i + 52"
    unfolding e_def using False i by (intro binade_upper) simp_all
  define j where "j = nat (i + 52 - e)"
  have ij: "real_of_int i - real_of_int (e - 52) = real j"
    using e_le by (simp add: j_def)
  define u where "u = 2 powr real_of_int (e - 52)"
  have u_pos: "u > 0" by (simp add: u_def)
  have "2 powr real_of_int i / u = 2 powr (real_of_int i - real_of_int (e - 52))"
    unfolding u_def by (simp add: powr_diff)
  also have "\<dots> = 2 ^ j" unfolding ij by (simp add: powr_realpow)
  finally have q0: "2 powr real_of_int i / u = 2 ^ j" .
  have "x / u = real_of_int k * (2 powr real_of_int i / u)" unfolding x by simp
  then have q: "x / u = real_of_int (k * 2 ^ j)"
    unfolding q0 by simp
  have y: "real_of_int (round_half_even (x / u)) * u = x"
    unfolding q round_half_even_int using q u_pos by (simp add: field_simps)
  have "fl x = (if \<bar>real_of_int (round_half_even (x / u)) * u\<bar> \<ge> 2 ^ 1024
      then (if x > 0 then PosInf else NegInf)
      else Num (real_of_int (round_half_even (x / u)) * u))"
    unfolding fl_def Let_def u_def e_def using False by (simp only: if_False)
  also have "\<dots> = Num x"
    unfolding y using fin by (simp only: not_le [symmetric] if_False)
  finally show ?thesis .
qed

lemma fl_int: "\<bar>k\<bar> < 2 ^ 53 \<Longrightarrow> fl (real_of_int k) = Num (real_of_int k)"
proof -
  assume k: "\<bar>k\<bar> < 2 ^ 53"
  have "real_of_int \<bar>k\<bar> < 2 ^ 53" using k by (metis of_int_less_iff of_int_numeral of_int_power)
  then have "\<bar>real_of_int k\<bar> < 2 ^ 1024"
    by (simp add: order_less_trans [where y = "2 ^ 53"])
  then show ?thesis
    using fl_exact [of "real_of_int k" k 0] k by simp
qed

lemma fl_nat: "n < 2 ^ 53 \<Longrightarrow> fl (real n) = Num (real n)"
  using fl_int [of "int n"] by (simp add: nat_less_iff flip: of_nat_power)

lemma fl_numeral: "(numeral k :: nat) < 2 ^ 53 \<Longrightarrow> fl (numeral k) = Num (numeral k)"
  using fl_nat [of "numeral k"] by simp

lemma fl_0: "fl 0 = Num 0"
  by (simp add: fl_def)

lemma fl_1: "fl 1 = Num 1"
  using fl_nat [of 1] by simp



text \<open>A natural number below \<open>2 ^ 53\<close> is read exactly.\<close>

lemma double_of_nat_small: "n < 2 ^ 53 \<Longrightarrow> double_of_nat n = IInt (int n)"
  by (simp add: double_of_nat_def fl_nat)

lemma double_of_numeral:
  "(numeral k :: nat) < 2 ^ 53 \<Longrightarrow> double_of_nat (numeral k) = IInt (numeral k)"
  using double_of_nat_small [of "numeral k"] by simp

lemma double_of_0: "double_of_nat 0 = IInt 0"
  using double_of_nat_small [of 0] by simp

lemma double_of_1: "double_of_nat (Suc 0) = IInt 1"
  using double_of_nat_small [of 1] by simp

lemmas double_small = double_of_numeral double_of_0 double_of_1

lemmas fl_small = fl_numeral fl_0 fl_1

subsection \<open>Magnitudes\<close>

lemma round_half_even_le: "y \<le> real_of_int M \<Longrightarrow> round_half_even y \<le> M"
proof -
  assume a: "y \<le> real_of_int M"
  have f: "\<lfloor>y\<rfloor> \<le> M" using a by (simp add: floor_le_iff)
  show ?thesis
  proof (cases "y = real_of_int \<lfloor>y\<rfloor>")
    case True
    then have "round_half_even y = \<lfloor>y\<rfloor>" by (simp add: round_half_even_def)
    then show ?thesis using f by simp
  next
    case False
    then have "real_of_int \<lfloor>y\<rfloor> < y" by linarith
    then have "real_of_int \<lfloor>y\<rfloor> < real_of_int M" using a by linarith
    then have "\<lfloor>y\<rfloor> + 1 \<le> M" by linarith
    moreover have "round_half_even y \<le> \<lfloor>y\<rfloor> + 1" by (simp add: round_half_even_def Let_def)
    ultimately show ?thesis by linarith
  qed
qed

lemma round_half_even_ge: "real_of_int M \<le> y \<Longrightarrow> M \<le> round_half_even y"
proof -
  assume "real_of_int M \<le> y"
  then have "M \<le> \<lfloor>y\<rfloor>" by (simp add: le_floor_iff)
  moreover have "\<lfloor>y\<rfloor> \<le> round_half_even y" by (simp add: round_half_even_def Let_def)
  ultimately show ?thesis by linarith
qed

lemma binade_le_nat:
  assumes "x \<noteq> 0" "\<bar>x\<bar> \<le> 2 ^ k"
  shows "binade x \<le> int k"
proof -
  have "\<bar>x\<bar> < 2 powr real_of_int (int k + 1)"
  proof -
    have "(2::real) ^ k < 2 ^ (k + 1)" by simp
    also have "\<dots> = 2 powr real (k + 1)"
      by (simp only: powr_realpow [of 2 "k + 1"] zero_less_numeral)
    also have "\<dots> = 2 powr real_of_int (int k + 1)"
    proof -
      have "real (k + 1) = real_of_int (int k + 1)" by simp
      then show ?thesis by (simp only:)
    qed
    finally show ?thesis using assms(2) by linarith
  qed
  then show ?thesis using assms(1) by (intro binade_upper) simp_all
qed

text \<open>Rounding does not leave an interval bounded by a power of two.\<close>

lemma fl_magnitude:
  assumes b: "\<bar>x\<bar> \<le> 2 ^ k" and k: "k \<le> 1023"
  shows "magnitude_le k (fl x)"
proof (cases "x = 0")
  case True
  then show ?thesis by (simp add: fl_def)
next
  case False
  define e where "e = binade x"
  define u where "u = 2 powr real_of_int (e - 52)"
  define j where "j = nat (int k - e + 52)"
  define N where "N = round_half_even (x / u)"
  have e_le: "e \<le> int k" unfolding e_def by (rule binade_le_nat [OF False b])
  have u_pos: "u > 0" by (simp add: u_def)
  have kj: "real k - real_of_int (e - 52) = real j" using e_le by (simp add: j_def)
  have "2 ^ k / u = 2 powr real k / u" by (simp add: powr_realpow)
  also have "\<dots> = 2 powr (real k - real_of_int (e - 52))" unfolding u_def by (simp add: powr_diff)
  also have "\<dots> = 2 ^ j" unfolding kj by (simp add: powr_realpow)
  finally have M: "2 ^ k / u = real_of_int (2 ^ j)" by simp
  have "x \<le> 2 ^ k" using b by linarith
  then have "x / u \<le> 2 ^ k / u" by (rule divide_right_mono) (use u_pos in simp)
  then have up: "N \<le> 2 ^ j" unfolding N_def M by (rule round_half_even_le)
  have "- (2 ^ k / u) \<le> x / u"
  proof -
    have "- (2 ^ k) \<le> x" using b by linarith
    then have "(- (2 ^ k)) / u \<le> x / u"
      by (rule divide_right_mono) (use u_pos in simp)
    then show ?thesis by (simp only: minus_divide_left)
  qed
  then have "real_of_int (- (2 ^ j)) \<le> x / u" unfolding M by simp
  then have lo: "- (2 ^ j) \<le> N" unfolding N_def by (rule round_half_even_ge)
  have "\<bar>real_of_int N\<bar> \<le> real_of_int (2 ^ j)" using up lo by linarith
  then have "\<bar>real_of_int N\<bar> * u \<le> real_of_int (2 ^ j) * u"
    using u_pos by (simp add: mult_right_mono)
  also have "\<dots> = 2 ^ k" using M u_pos by (simp add: field_simps)
  finally have y: "\<bar>real_of_int N * u\<bar> \<le> 2 ^ k" using u_pos by (simp add: abs_mult)
  have "(2::real) ^ k \<le> 2 ^ 1023" using k by (intro power_increasing) simp_all
  also have "\<dots> < 2 ^ 1024" by simp
  finally have fin: "\<not> \<bar>real_of_int N * u\<bar> \<ge> 2 ^ 1024" using y by linarith
  have "fl x = (if \<bar>real_of_int N * u\<bar> \<ge> 2 ^ 1024
      then (if x > 0 then PosInf else NegInf)
      else Num (real_of_int N * u))"
    unfolding fl_def Let_def u_def e_def N_def using False by (simp only: if_False)
  then have "fl x = Num (real_of_int N * u)" using fin by (simp only: if_False)
  then show ?thesis using y by simp
qed


lemma magnitude_le_mono: "magnitude_le j a \<Longrightarrow> j \<le> k \<Longrightarrow> magnitude_le k a"
proof (cases a)
  case (Num y)
  assume "magnitude_le j a" "j \<le> k"
  then have "\<bar>y\<bar> \<le> 2 ^ j" "(2::real) ^ j \<le> 2 ^ k" using Num by simp_all
  then have "\<bar>y\<bar> \<le> 2 ^ k" by linarith
  then show ?thesis using Num by simp
qed simp_all

lemma magnitude_le_abs: "magnitude_le k a \<Longrightarrow> magnitude_le k (num_abs a)"
  by (cases a) simp_all

lemma magnitude_le_add:
  assumes "magnitude_le k a" "magnitude_le k b" "k < 1023"
  shows "magnitude_le (Suc k) (num_add a b)"
proof -
  obtain x y where a: "a = Num x" "\<bar>x\<bar> \<le> 2 ^ k" and b: "b = Num y" "\<bar>y\<bar> \<le> 2 ^ k"
    using assms(1,2) by (cases a; cases b) simp_all
  have "\<bar>x + y\<bar> \<le> 2 ^ Suc k" using a(2) b(2) by simp
  then have "magnitude_le (Suc k) (fl (x + y))" by (rule fl_magnitude) (use assms(3) in simp)
  then show ?thesis by (simp add: num_add_def a b)
qed

lemma magnitude_le_sub:
  assumes "magnitude_le k a" "magnitude_le k b" "k < 1023"
  shows "magnitude_le (Suc k) (num_sub a b)"
proof -
  obtain x y where a: "a = Num x" "\<bar>x\<bar> \<le> 2 ^ k" and b: "b = Num y" "\<bar>y\<bar> \<le> 2 ^ k"
    using assms(1,2) by (cases a; cases b) simp_all
  have "\<bar>x - y\<bar> \<le> 2 ^ Suc k" using a(2) b(2) by simp
  then have "magnitude_le (Suc k) (fl (x - y))" by (rule fl_magnitude) (use assms(3) in simp)
  then show ?thesis by (simp add: num_sub_def ex_sub_def a b)
qed

lemma magnitude_le_mul:
  assumes "magnitude_le j a" "magnitude_le k b" "j + k \<le> 1023"
  shows "magnitude_le (j + k) (num_mul a b)"
proof -
  obtain x y where a: "a = Num x" "\<bar>x\<bar> \<le> 2 ^ j" and b: "b = Num y" "\<bar>y\<bar> \<le> 2 ^ k"
    using assms(1,2) by (cases a; cases b) simp_all
  have "\<bar>x\<bar> * \<bar>y\<bar> \<le> 2 ^ j * 2 ^ k" using a(2) b(2) by (intro mult_mono) simp_all
  then have "\<bar>x * y\<bar> \<le> 2 ^ (j + k)" by (simp add: abs_mult power_add)
  then have "magnitude_le (j + k) (fl (x * y))" by (rule fl_magnitude) (rule assms(3))
  then show ?thesis by (simp add: num_mul_def a b)
qed

lemma magnitude_le_div:
  assumes "magnitude_le k a" "1 \<le> c" "k \<le> 1023"
  shows "magnitude_le k (num_div a (Num c))"
proof -
  obtain x where a: "a = Num x" "\<bar>x\<bar> \<le> 2 ^ k"
    using assms(1) by (cases a) simp_all
  have "\<bar>x\<bar> / c \<le> \<bar>x\<bar> / 1" using assms(2) by (intro divide_left_mono) simp_all
  then have "\<bar>x / c\<bar> \<le> 2 ^ k" using a(2) assms(2) by simp
  then have "magnitude_le k (fl (x / c))" by (rule fl_magnitude) (rule assms(3))
  then show ?thesis using assms(2) by (simp add: num_div_def a)
qed

lemma js_rem_2_bound: "\<bar>js_rem x 2\<bar> \<le> 2"
proof (cases "x / 2 \<ge> 0")
  case True
  define d where "d = x / 2 - real_of_int \<lfloor>x / 2\<rfloor>"
  have "js_rem x 2 = 2 * d" using True by (simp add: js_rem_def d_def)
  moreover have "0 \<le> d" "d < 1" unfolding d_def by linarith+
  ultimately show ?thesis by simp
next
  case False
  define d where "d = x / 2 - real_of_int \<lceil>x / 2\<rceil>"
  have "js_rem x 2 = 2 * d" using False by (simp add: js_rem_def d_def)
  moreover have "d \<le> 0" "- 1 < d" unfolding d_def by linarith+
  ultimately show ?thesis by simp
qed

lemma magnitude_le_rem: "magnitude_le k a \<Longrightarrow> magnitude_le 1 (num_rem a 2)"
  using js_rem_2_bound by (cases a) simp_all

lemma magnitude_le_const:
  "magnitude_le 0 (Num 0)" "magnitude_le 0 (Num 1)" "magnitude_le 1 (Num 2)"
  "magnitude_le 8 (Num 255)"
  by simp_all

lemma js_round_finite: "magnitude_le k a \<Longrightarrow> jsint_finite (js_round a)"
  by (cases a) simp_all


lemmas lower_defs = lower_char_def upper_letters_def lower_letters_def

subsection \<open>Rounding a given number\<close>

lemma binade_eq:
  assumes "2 powr real_of_int e \<le> \<bar>x\<bar>" "\<bar>x\<bar> < 2 powr real_of_int (e + 1)" "- 1022 \<le> e"
  shows "binade x = e"
proof -
  have "0 < \<bar>x\<bar>" using assms(1) by (smt (verit) powr_gt_zero)
  then have "\<lfloor>log 2 \<bar>x\<bar>\<rfloor> = e"
    using assms(1,2) by (simp add: floor_log_eq_powr_iff)
  then show ?thesis using assms(3) by (simp add: binade_def)
qed

text \<open>
  Rounding, given the binade of the number: \<open>p\<close> is the power of two at or below its
  magnitude, \<open>u\<close> the distance between neighbouring doubles there.
\<close>

lemma fl_eval:
  assumes "p = 2 powr real_of_int e" "u = 2 powr real_of_int (e - 52)" "- 1022 \<le> e"
    and "p \<le> \<bar>x\<bar>" "\<bar>x\<bar> < 2 * p"
    and "round_half_even (x / u) = N"
    and "\<bar>real_of_int N * u\<bar> < 2 ^ 1024"
  shows "fl x = Num (real_of_int N * u)"
proof -
  have "2 * p = 2 powr real_of_int (e + 1)"
    unfolding assms(1) by (simp add: powr_add)
  then have b: "binade x = e"
    using assms(1,3,4,5) by (intro binade_eq) simp_all
  have nz: "x \<noteq> 0" using assms(1,4) by (smt (verit) powr_gt_zero)
  have "fl x = (if \<bar>real_of_int N * u\<bar> \<ge> 2 ^ 1024
      then (if x > 0 then PosInf else NegInf)
      else Num (real_of_int N * u))"
    unfolding fl_def Let_def b assms(2) [symmetric] assms(6) using nz by (simp only: if_False)
  then show ?thesis using assms(7) by (simp only: not_le [symmetric] if_False)
qed

lemma fl_overflow:
  assumes "2 ^ 1024 \<le> x"
  shows "fl x = PosInf"
proof -
  define e where "e = binade x"
  define u where "u = 2 powr real_of_int (e - 52)"
  define N where "N = round_half_even (x / u)"
  have x0: "0 < x" using assms by (smt (verit) zero_less_power)
  have "(2::real) powr 1024 \<le> x" using assms by (simp add: powr_numeral del: powr_numeral)
  then have "1024 \<le> log 2 x" using x0 by (simp add: le_log_iff)
  then have l: "1024 \<le> \<lfloor>log 2 x\<rfloor>" by (simp add: le_floor_iff)
  then have e: "e = \<lfloor>log 2 \<bar>x\<bar>\<rfloor>" using x0 by (simp add: e_def binade_def)
  have e1024: "1024 \<le> e" using l e x0 by simp
  have pe: "2 powr real_of_int e \<le> x"
    using x0 floor_log_eq_powr_iff [of x 2 e] e by simp
  have u_pos: "0 < u" by (simp add: u_def)
  have "2 powr real_of_int e / u = 2 powr (real_of_int e - real_of_int (e - 52))"
    unfolding u_def by (simp add: powr_diff)
  also have "\<dots> = 2 powr 52" by simp
  also have "\<dots> = real_of_int (2 ^ 52)" by (simp add: powr_numeral del: powr_numeral)
  finally have q: "2 powr real_of_int e / u = real_of_int (2 ^ 52)" .
  have "2 powr real_of_int e / u \<le> x / u" using pe u_pos by (intro divide_right_mono) simp_all
  then have "real_of_int (2 ^ 52) \<le> x / u" unfolding q .
  then have "2 ^ 52 \<le> N" unfolding N_def by (rule round_half_even_ge)
  then have "real_of_int (2 ^ 52) \<le> real_of_int N" by (simp only: of_int_le_iff)
  then have "real_of_int (2 ^ 52) * u \<le> real_of_int N * u"
    using u_pos by (intro mult_right_mono) simp_all
  moreover have "real_of_int (2 ^ 52) * u = 2 powr real_of_int e"
    using q u_pos by (simp add: field_simps)
  moreover have "(2::real) powr 1024 \<le> 2 powr real_of_int e"
    using e1024 by (intro powr_mono) simp_all
  ultimately have "2 powr 1024 \<le> real_of_int N * u" by linarith
  then have big: "2 ^ 1024 \<le> \<bar>real_of_int N * u\<bar>"
    by (simp add: powr_numeral del: powr_numeral)
  have "fl x = (if \<bar>real_of_int N * u\<bar> \<ge> 2 ^ 1024
      then (if x > 0 then PosInf else NegInf)
      else Num (real_of_int N * u))"
  proof -
    have "x \<noteq> 0" using x0 by simp
    then show ?thesis unfolding fl_def Let_def u_def e_def N_def by (simp only: if_False)
  qed
  then show ?thesis using big x0 by (simp only: if_True)
qed

text \<open>An exponent is read, and capitals outside ASCII are lower-cased.\<close>

lemma parseFloat_exponent: "parseFloat ''1e+06px'' = Num 1000000"
proof -
  have e: "exponent_part ''e+06px'' = 6"
    by (simp add: exponent_part_def is_digit_def dec_value_def digit_val_def)
  have "fl 1000000 = Num 1000000" by (simp add: fl_small)
  then show ?thesis
    by (simp add: parseFloat_def is_digit_def is_space_def dec_value_def digit_val_def e
        powr_numeral)
qed

lemma toLowerCase_latin: "toLowerCase [CHR ''S'', CHR 0xC9, CHR ''!''] = [CHR ''s'', CHR 0xE9, CHR ''!'']"
  by (simp add: toLowerCase_def lower_defs)

section \<open>Properties of the accessibility audit\<close>

lemma js_not_never_string: "\<not> js_strict_eq (js_not v) (JString s)"
  by (simp add: js_not_def)

lemma count_missing_alt_fold:
  "fold (\<lambda>img n. if img_counts_as_missing img then n + 1 else n) imgs k = (k::nat)"
  by (induction imgs arbitrary: k) (simp_all add: img_counts_as_missing_def js_not_never_string)

lemma count_missing_alt_zero: "count_missing_alt imgs = 0"
  by (simp add: count_missing_alt_def count_missing_alt_fold)

lemma count_missing_labels_returns:
  "(\<exists>m. count_missing_labels is n = Inr m)
     \<longleftrightarrow> list_all (\<lambda>i. \<not> (input_id i \<noteq> [] \<and> label_query i = QueryThrows)) is"
  by (induction "is" arbitrary: n) (auto simp add: input_missing_label_def Let_def)

text \<open>
  The audit returns unless a label query throws: the selector is built from the id of a
  form field, and no loop of the audit catches the exception.
\<close>

lemma audit_returns:
  "(\<exists>a. extractAccessibilityAudit p = Inr a)
     \<longleftrightarrow> list_all (\<lambda>i. \<not> (input_id i \<noteq> [] \<and> label_query i = QueryThrows)) (inputs p)"
  unfolding count_missing_labels_returns [of "inputs p" 0, symmetric] extractAccessibilityAudit_def
  by (cases "count_missing_labels (inputs p) 0") simp_all

lemma audit_throws:
  "extractAccessibilityAudit
      \<lparr>textElements = [], images = [],
       inputs = [\<lparr>input_id = [CHR ''a'', CHR 0x22, CHR ''b''], label_query = QueryThrows, aria_label = None,
                   aria_labelledby = None, placeholder = []\<rparr>],
       headings = [1]\<rparr> = Inl SelectorSyntaxError"
  by (simp add: extractAccessibilityAudit_def input_missing_label_def)

lemma audit_fields:
  assumes "extractAccessibilityAudit p = Inr a"
  shows "\<exists>m. count_missing_labels (inputs p) 0 = Inr m
           \<and> missingAltText a = count_missing_alt (images p)
           \<and> issues a = audit_issues p m
           \<and> audit_summary a = summarize (audit_issues p m)"
proof (cases "count_missing_labels (inputs p) 0")
  case (Inl e)
  then show ?thesis using assms by (simp add: extractAccessibilityAudit_def)
next
  case (Inr m)
  then have "a = \<lparr>colorContrast = take 20 (fst (contrast_loop (textElements p))),
               missingAltText = count_missing_alt (images p),
               missingLabels = m,
               missingHeadings = (1 \<notin> set (headings p)),
               headingStructure = headings p,
               issues = audit_issues p m,
               audit_summary = summarize (audit_issues p m)\<rparr>"
    using assms by (simp add: extractAccessibilityAudit_def)
  then show ?thesis using Inr by (simp only: audit.simps) blast
qed

lemma audit_summary_of_issues:
  assumes "extractAccessibilityAudit p = Inr a"
  shows "audit_summary a = summarize (issues a)"
  using audit_fields [OF assms] by auto

lemma summarize_score:
  "score (summarize is) = max 0 (100 - (int (length (filter (\<lambda>i. severity i = ''error'') is)) * 15)
       - (int (length (filter (\<lambda>i. severity i = ''warning'') is)) * 5))"
  unfolding summarize_def Let_def by (simp only: summary.simps)

lemma summarize_errors: "errors (summarize is) = length (filter (\<lambda>i. severity i = ''error'') is)"
  unfolding summarize_def Let_def by (simp only: summary.simps)

lemma summarize_warnings:
  "warnings (summarize is) = length (filter (\<lambda>i. severity i = ''warning'') is)"
  unfolding summarize_def Let_def by (simp only: summary.simps)

lemma summarize_passes:
  "passesMinimumAA (summarize is) = (length (filter (\<lambda>i. severity i = ''error'') is) = 0)"
  unfolding summarize_def Let_def by (simp only: summary.simps)

lemma score_shape:
  "max 0 (100 - (int e * 15) - (int w * 5)) = max 0 (100 - 15 * int e - 5 * int w)"
  by (simp only: mult.commute)

lemma score_bounds:
  "0 \<le> max (0::int) (100 - 15 * int e - 5 * int w) \<and> max (0::int) (100 - 15 * int e - 5 * int w) \<le> 100"
  by linarith

lemma img_page_audit:
  "extractAccessibilityAudit
      \<lparr>textElements = [], images = [\<lparr>alt = [], role_attr = None\<rparr>],
       inputs = [], headings = [1]\<rparr>
   = Inr \<lparr>colorContrast = [], missingAltText = 0, missingLabels = 0, missingHeadings = False,
          headingStructure = [1], issues = [],
          audit_summary = \<lparr>totalIssues = 0, errors = 0, warnings = 0, score = 100,
                            passesMinimumAA = True\<rparr>\<rparr>"
  by (simp add: extractAccessibilityAudit_def count_missing_alt_zero contrast_loop_def
      summarize_def audit_issues_def image_issues_def label_issues_def heading_issues_def)

text \<open>
  C1. The audit should count the images that have no alt text and no presentation role.
  On a page whose only image has neither an \<open>alt\<close> nor a \<open>role\<close> attribute the image
  loop counts nothing: the negated attribute is a boolean and is never strictly equal to the
  string \<open>presentation\<close>. The audit returns, the count stays 0 and no issue is recorded.
\<close>

theorem C1_missing_alt_not_counted:
  "(case extractAccessibilityAudit
      \<lparr>textElements = [], images = [\<lparr>alt = [], role_attr = None\<rparr>],
       inputs = [], headings = [1]\<rparr> of
      Inl e \<Rightarrow> False
    | Inr a \<Rightarrow> missingAltText a = 0 \<and> issues a = [])"
  unfolding img_page_audit by simp

text \<open>
  C5. For every audit run that returns, the summary score is
  \<open>max(0, 100 - 15*errors - 5*warnings)\<close>, where errors and warnings count the issues of
  severity error and warning, and the page passes minimum AA exactly when there is no
  error.
\<close>

theorem C5_score_formula:
  assumes "extractAccessibilityAudit p = Inr a"
  shows "score (audit_summary a)
     = max 0 (100 - 15 * int (length (filter (\<lambda>i. severity i = ''error'') (issues a)))
                  - 5 * int (length (filter (\<lambda>i. severity i = ''warning'') (issues a))))
   \<and> errors (audit_summary a) = length (filter (\<lambda>i. severity i = ''error'') (issues a))
   \<and> warnings (audit_summary a) = length (filter (\<lambda>i. severity i = ''warning'') (issues a))
   \<and> (passesMinimumAA (audit_summary a) \<longleftrightarrow> errors (audit_summary a) = 0)"
  unfolding audit_summary_of_issues [OF assms] summarize_score summarize_errors summarize_warnings
    summarize_passes score_shape
  by blast

lemma form_page_audit:
  "extractAccessibilityAudit
      \<lparr>textElements = [], images = [],
       inputs = [\<lparr>input_id = ''q'', label_query = LabelAbsent, aria_label = None,
                   aria_labelledby = None, placeholder = []\<rparr>],
       headings = [2, 4]\<rparr>
   = Inr \<lparr>colorContrast = [], missingAltText = 0, missingLabels = 1, missingHeadings = True,
          headingStructure = [2, 4],
          issues = [\<lparr>issue_type = ''forms'', severity = ''warning''\<rparr>,
                    \<lparr>issue_type = ''headings'', severity = ''warning''\<rparr>,
                    \<lparr>issue_type = ''headings'', severity = ''warning''\<rparr>],
          audit_summary = \<lparr>totalIssues = 3, errors = 0, warnings = 3, score = 85,
                            passesMinimumAA = True\<rparr>\<rparr>"
  by (simp add: extractAccessibilityAudit_def count_missing_alt_zero contrast_loop_def
      summarize_def audit_issues_def image_issues_def label_issues_def heading_issues_def
      input_missing_label_def getAttribute_def)

theorem C5_score_witness:
  "extractAccessibilityAudit
      \<lparr>textElements = [], images = [],
       inputs = [\<lparr>input_id = ''q'', label_query = LabelAbsent, aria_label = None,
                   aria_labelledby = None, placeholder = []\<rparr>],
       headings = [2, 4]\<rparr>
   = Inr \<lparr>colorContrast = [], missingAltText = 0, missingLabels = 1, missingHeadings = True,
          headingStructure = [2, 4],
          issues = [\<lparr>issue_type = ''forms'', severity = ''warning''\<rparr>,
                    \<lparr>issue_type = ''headings'', severity = ''warning''\<rparr>,
                    \<lparr>issue_type = ''headings'', severity = ''warning''\<rparr>],
          audit_summary = \<lparr>totalIssues = 3, errors = 0, warnings = 3, score = 85,
                            passesMinimumAA = True\<rparr>\<rparr>
   \<and> score \<lparr>totalIssues = 3, errors = 0, warnings = 3, score = 85, passesMinimumAA = True\<rparr>
       = max 0 (100 - 15 * int 0 - 5 * int 3)"
  using C5_score_formula [OF form_page_audit] form_page_audit by simp

section \<open>Contrast scenarios\<close>

lemmas parse_defs = parseRgb_def rgbaMatch_def rgba_at_def expect_str_def
  optional_char_def digits1_def is_digit_def is_space_def parseInt_def dec_value_def digit_val_def double_small

lemma linear_channel_0: "linear_channel 0 = 0"
  by (simp add: linear_channel_def)

lemma linear_channel_255: "linear_channel 255 = 1"
  by (simp add: linear_channel_def)

lemma luminance_black: "getLuminance 0 0 0 = 0"
  by (simp add: getLuminance_def linear_channel_0)

lemma luminance_white: "getLuminance 255 255 255 = 1"
  by (simp add: getLuminance_def linear_channel_255)

lemma ratio_black_white: "getContrastRatio 0 1 = 21"
  by (simp add: getContrastRatio_def)

lemma linear_channel_150_bounds: "0.22 \<le> linear_channel 150 \<and> linear_channel 150 \<le> 1"
proof -
  define x :: real where "x = (150 / 255 + 0.055) / 1.055"
  have x0: "0 \<le> x" and x1: "x \<le> 1" by (simp_all add: x_def)
  have lc: "linear_channel 150 = x powr 2.4"
    by (simp add: linear_channel_def x_def)
  have "x powr 3 \<le> x powr 2.4"
    by (rule powr_mono') (use x0 x1 in simp_all)
  moreover have "x powr 3 = x ^ 3"
    using x0 by (simp add: powr_numeral)
  moreover have "0.22 \<le> x ^ 3"
    by (simp add: x_def power3_eq_cube)
  moreover have "x powr 2.4 \<le> 1"
    by (rule powr_le1) (use x0 x1 in simp_all)
  ultimately show ?thesis using lc by simp
qed

lemma luminance_gray: "0.22 \<le> getLuminance 150 150 150 \<and> getLuminance 150 150 150 \<le> 1"
  using linear_channel_150_bounds by (simp add: getLuminance_def)

lemma ratio_gray_white: "getContrastRatio (getLuminance 150 150 150) 1 < 4"
proof -
  define L where "L = getLuminance 150 150 150"
  have b: "0.22 \<le> L" "L \<le> 1" using luminance_gray by (simp_all add: L_def)
  have "getContrastRatio L 1 = 1.05 / (L + 0.05)"
    using b by (simp add: getContrastRatio_def max_def min_def)
  also have "\<dots> < 4" using b by (simp add: field_simps)
  finally show ?thesis by (simp add: L_def)
qed

lemma parse_black: "parseRgb ''rgb(0,0,0)'' = Some (Num 0, Num 0, Num 0)"
  by (simp add: parse_defs)
lemma parse_white: "parseRgb ''rgb(255,255,255)'' = Some (Num 255, Num 255, Num 255)"
  by (simp add: parse_defs)
lemma parse_gray: "parseRgb ''rgb(150,150,150)'' = Some (Num 150, Num 150, Num 150)"
  by (simp add: parse_defs)
lemma parse_white_sp: "parseRgb ''rgb(255, 255, 255)'' = Some (Num 255, Num 255, Num 255)"
  by (simp add: parse_defs)
lemma parse_gray_sp: "parseRgb ''rgb(150, 150, 150)'' = Some (Num 150, Num 150, Num 150)"
  by (simp add: parse_defs)

lemma luminance_of_Num: "luminance_of (Num r, Num g, Num b) = Num (getLuminance r g b)"
  by (simp add: luminance_of_def getLuminance_def)

lemma ratio_of_Num:
  "min a b + 0.05 \<noteq> 0 \<Longrightarrow> ratio_of (Num a) (Num b) = Num (getContrastRatio a b)"
  by (simp add: ratio_of_def getContrastRatio_def Let_def)

lemma ratio_of_gray:
  "ratio_of (Num (getLuminance 150 150 150)) (Num 1)
     = Num (getContrastRatio (getLuminance 150 150 150) 1)"
  by (rule ratio_of_Num) (use luminance_gray in \<open>simp add: min_def\<close>)

lemma computed_black_white:
  "computed_ratio ''rgb(0,0,0)'' ''rgb(255,255,255)'' = Some (Num 21)"
  by (simp add: computed_ratio_def parse_black parse_white luminance_of_Num ratio_of_Num
      luminance_black luminance_white ratio_black_white)

lemma computed_gray_white:
  "computed_ratio ''rgb(150,150,150)'' ''rgb(255,255,255)''
     = Some (Num (getContrastRatio (getLuminance 150 150 150) 1))"
  by (simp add: computed_ratio_def parse_gray parse_white luminance_of_Num ratio_of_gray
      luminance_white)

lemma computed_gray_white_sp:
  "computed_ratio ''rgb(150, 150, 150)'' ''rgb(255, 255, 255)''
     = Some (Num (getContrastRatio (getLuminance 150 150 150) 1))"
  by (simp add: computed_ratio_def parse_gray_sp parse_white_sp luminance_of_Num ratio_of_gray
      luminance_white)

lemma round2_21: "round2 (Num 21) = Num 21"
  by simp

lemma check_black_white:
  "\<exists>e. contrast_check ''rgb(0,0,0)'' ''rgb(255,255,255)'' fs fw = Some e
       \<and> ratio e = Num 21 \<and> passesAA e \<and> passesAAA e \<and> wcagLevel e = ''AAA''"
  by (simp add: contrast_check_def computed_black_white Let_def round2_21)

lemma font_14_400: "parseFloat ''14px'' = Num 14" "fontWeight_of ''400'' = IInt 400"
  by (simp_all add: parseFloat_def fontWeight_of_def parseInt_def is_digit_def is_space_def
      dec_value_def digit_val_def exponent_part_def fl_small double_small)

lemma check_gray_white:
  "\<exists>e. contrast_check ''rgb(150,150,150)'' ''rgb(255,255,255)'' ''14px'' ''400'' = Some e
       \<and> \<not> isLargeText e \<and> \<not> passesAA e \<and> \<not> passesAAA e \<and> wcagLevel e = ''Fail''"
  using ratio_gray_white
  by (simp add: contrast_check_def computed_gray_white Let_def font_14_400)

lemma check_gray_white_sp:
  "\<exists>e. contrast_check ''rgb(150, 150, 150)'' ''rgb(255, 255, 255)'' ''14px'' ''400'' = Some e
       \<and> \<not> passesAA e"
  using ratio_gray_white
  by (simp add: contrast_check_def computed_gray_white_sp Let_def font_14_400)

lemma loop_gray:
  "snd (contrast_loop [\<lparr>te_width = 120, te_height = 20, te_display = ''block'',
        te_visibility = ''visible'', te_color = ''rgb(150, 150, 150)'',
        te_backgroundColor = ''rgb(255, 255, 255)'', te_fontSize = ''14px'',
        te_fontWeight = ''400''\<rparr>]) = [\<lparr>issue_type = ''contrast'', severity = ''error''\<rparr>]"
proof -
  obtain e where e: "contrast_check ''rgb(150, 150, 150)'' ''rgb(255, 255, 255)'' ''14px'' ''400'' = Some e"
    "\<not> passesAA e" using check_gray_white_sp by blast
  show ?thesis by (simp add: contrast_loop_def contrast_step_def e)
qed

text \<open>
  C4. Black text \<open>rgb(0,0,0)\<close> on white \<open>rgb(255,255,255)\<close> has contrast ratio 21 and
  passes AA and AAA at every font size and weight; gray \<open>rgb(150,150,150)\<close> on white at
  14px and weight 400 is normal text, has a ratio below 4.5 and fails AA, and the loop
  records an error issue for it.
\<close>

theorem C4_contrast_scenarios:
  "computed_ratio ''rgb(0,0,0)'' ''rgb(255,255,255)'' = Some (Num 21)
   \<and> (\<exists>e. contrast_check ''rgb(0,0,0)'' ''rgb(255,255,255)'' fontSize fontWeight = Some e
          \<and> ratio e = Num 21 \<and> passesAA e \<and> passesAAA e \<and> wcagLevel e = ''AAA'')
   \<and> (\<exists>x. computed_ratio ''rgb(150,150,150)'' ''rgb(255,255,255)'' = Some (Num x) \<and> x < 4.5)
   \<and> (\<exists>e. contrast_check ''rgb(150,150,150)'' ''rgb(255,255,255)'' ''14px'' ''400'' = Some e
          \<and> \<not> isLargeText e \<and> \<not> passesAA e \<and> \<not> passesAAA e \<and> wcagLevel e = ''Fail'')
   \<and> snd (contrast_loop [\<lparr>te_width = 120, te_height = 20, te_display = ''block'',
        te_visibility = ''visible'', te_color = ''rgb(150, 150, 150)'',
        te_backgroundColor = ''rgb(255, 255, 255)'', te_fontSize = ''14px'',
        te_fontWeight = ''400''\<rparr>]) = [\<lparr>issue_type = ''contrast'', severity = ''error''\<rparr>]"
proof -
  have "getContrastRatio (getLuminance 150 150 150) 1 < 4.5"
    using ratio_gray_white by simp
  then have g: "\<exists>x. computed_ratio ''rgb(150,150,150)'' ''rgb(255,255,255)'' = Some (Num x) \<and> x < 4.5"
    using computed_gray_white by blast
  show ?thesis
    using computed_black_white check_black_white [of fontSize fontWeight] g check_gray_white loop_gray
    by blast
qed


section \<open>Properties of the colour patterns and of normalisation\<close>

lemma regex_search_Some: "regex_search pat s = Some m \<Longrightarrow> \<exists>n. pat (drop n s) = Some m"
proof (induction s)
  case Nil
  then show ?case by simp
next
  case (Cons c cs)
  show ?case
  proof (cases "pat (c # cs)")
    case None
    with Cons obtain n where "pat (drop n cs) = Some m" by auto
    then have "pat (drop (Suc n) (c # cs)) = Some m" by simp
    then show ?thesis by blast
  next
    case (Some a)
    with Cons.prems have "pat (drop 0 (c # cs)) = Some m" by simp
    then show ?thesis by blast
  qed
qed

lemma regex_search_None: "(\<And>t. pat t = None) \<Longrightarrow> regex_search pat s = None"
  by (induction s) simp_all

lemma regex_search_None_suffix:
  "(\<And>n. pat (drop n s) = None) \<Longrightarrow> regex_search pat s = None"
proof (induction s)
  case Nil
  then show ?case by (metis drop_Nil regex_search.simps(1))
next
  case (Cons c cs)
  have "pat (c # cs) = None" using Cons.prems [of 0] by simp
  moreover have "regex_search pat cs = None"
  proof (rule Cons.IH)
    fix n show "pat (drop n cs) = None" using Cons.prems [of "Suc n"] by simp
  qed
  ultimately show ?case by simp
qed

lemma expect_str_Some: "expect_str p s = Some t \<Longrightarrow> s = p @ t"
  by (metis append_take_drop_id expect_str_def option.distinct(1) option.inject)

lemma optional_char_set: "set (optional_char c s) \<subseteq> set s"
  by (auto simp: optional_char_def split: list.splits if_splits)

lemma digits1_Some: "digits1 s = Some (ds, t) \<Longrightarrow> ds \<noteq> [] \<and> list_all is_digit ds"
  by (auto simp: digits1_def Let_def list_all_iff split: if_splits dest: set_takeWhileD)

lemma rgba_at_paren: "rgba_at s = Some m \<Longrightarrow> CHR ''('' \<in> set s"
proof -
  assume "rgba_at s = Some m"
  then obtain s1 s2 where a: "expect_str ''rgb'' s = Some s1"
    and b: "expect_str ''('' (optional_char CHR ''a'' s1) = Some s2"
    by (auto simp: rgba_at_def bind_eq_Some_conv)
  from b have "CHR ''('' \<in> set (optional_char CHR ''a'' s1)"
    by (auto dest: expect_str_Some)
  then have "CHR ''('' \<in> set s1" using optional_char_set by blast
  then show ?thesis using a by (auto dest: expect_str_Some)
qed

lemma hsla_at_paren: "hsla_at s = Some m \<Longrightarrow> CHR ''('' \<in> set s"
proof -
  assume "hsla_at s = Some m"
  then obtain s1 s2 where a: "expect_str ''hsl'' s = Some s1"
    and b: "expect_str ''('' (optional_char CHR ''a'' s1) = Some s2"
    by (auto simp: hsla_at_def bind_eq_Some_conv)
  from b have "CHR ''('' \<in> set (optional_char CHR ''a'' s1)"
    by (auto dest: expect_str_Some)
  then have "CHR ''('' \<in> set s1" using optional_char_set by blast
  then show ?thesis using a by (auto dest: expect_str_Some)
qed

lemma rgbaMatch_paren: "rgbaMatch s = Some m \<Longrightarrow> CHR ''('' \<in> set s"
  unfolding rgbaMatch_def
  by (metis regex_search_Some rgba_at_paren in_set_dropD)

lemma hslMatch_paren: "hslMatch s = Some m \<Longrightarrow> CHR ''('' \<in> set s"
  unfolding hslMatch_def
  by (metis regex_search_Some hsla_at_paren in_set_dropD)

lemma rgba_at_groups:
  "rgba_at s = Some (r, g, b) \<Longrightarrow>
     (r \<noteq> [] \<and> list_all is_digit r) \<and> (g \<noteq> [] \<and> list_all is_digit g) \<and> (b \<noteq> [] \<and> list_all is_digit b)"
  by (auto simp: rgba_at_def bind_eq_Some_conv dest!: digits1_Some)

lemma hsla_at_groups:
  "hsla_at s = Some (r, g, b) \<Longrightarrow>
     (r \<noteq> [] \<and> list_all is_digit r) \<and> (g \<noteq> [] \<and> list_all is_digit g) \<and> (b \<noteq> [] \<and> list_all is_digit b)"
  by (auto simp: hsla_at_def bind_eq_Some_conv dest!: digits1_Some)

lemma rgbaMatch_groups:
  "rgbaMatch s = Some (r, g, b) \<Longrightarrow>
     (r \<noteq> [] \<and> list_all is_digit r) \<and> (g \<noteq> [] \<and> list_all is_digit g) \<and> (b \<noteq> [] \<and> list_all is_digit b)"
  unfolding rgbaMatch_def using regex_search_Some rgba_at_groups by metis

lemma hslMatch_groups:
  "hslMatch s = Some (r, g, b) \<Longrightarrow>
     (r \<noteq> [] \<and> list_all is_digit r) \<and> (g \<noteq> [] \<and> list_all is_digit g) \<and> (b \<noteq> [] \<and> list_all is_digit b)"
  unfolding hslMatch_def using regex_search_Some hsla_at_groups by metis

lemma digit_not_space: "is_digit c \<Longrightarrow> \<not> is_space c"
  by (auto simp: is_digit_def is_space_def)

lemma digit_not_sign: "is_digit c \<Longrightarrow> c \<noteq> CHR ''-'' \<and> c \<noteq> CHR ''+'' \<and> c \<noteq> CHR ''x'' \<and> c \<noteq> CHR ''X''"
  by (auto simp: is_digit_def)

lemma parseInt_digit_run:
  assumes "ds \<noteq> []" "list_all is_digit ds"
  shows "parseInt ds = double_of_nat (dec_value ds)"
proof -
  obtain c cs where ds: "ds = c # cs" using assms(1) by (cases ds) auto
  have c: "is_digit c" using assms(2) ds by simp
  have t: "dropWhile is_space ds = ds" using c ds digit_not_space by simp
  have tw: "takeWhile is_digit ds = ds" using assms(2) by (simp add: list_all_iff)
  have nox: "take 2 ds \<noteq> ''0x'' \<and> take 2 ds \<noteq> ''0X''"
  proof (cases cs)
    case Nil
    then show ?thesis using ds by simp
  next
    case (Cons d ds')
    then have "is_digit d" using assms(2) ds by simp
    then show ?thesis using ds Cons digit_not_sign by auto
  qed
  have neg: "(case ds of c # _ \<Rightarrow> c = CHR ''-'' | [] \<Rightarrow> False) = False"
    using ds c digit_not_sign by simp
  have u: "(case ds of c # r \<Rightarrow> if c = CHR ''-'' \<or> c = CHR ''+'' then r else ds | [] \<Rightarrow> ds) = ds"
    using ds c digit_not_sign by simp
  show ?thesis
    unfolding parseInt_def t Let_def neg u tw
    using nox assms(1) by simp
qed

subsection \<open>Digit runs\<close>

lemma dec_value_snoc: "dec_value (ds @ [c]) = 10 * dec_value ds + digit_val c"
  by (simp add: dec_value_def)

lemma dec_value_bound: "list_all is_digit ds \<Longrightarrow> dec_value ds < 10 ^ length ds"
proof (induction ds rule: rev_induct)
  case Nil
  then show ?case by (simp add: dec_value_def)
next
  case (snoc c ds)
  then have "dec_value ds < 10 ^ length ds" "digit_val c \<le> 9"
    by (auto simp add: is_digit_def digit_val_def)
  then show ?case unfolding dec_value_snoc by simp
qed

lemma double_of_nat_magnitude:
  assumes "real n \<le> 2 ^ k" "k \<le> 1023"
  shows "jsint_finite (double_of_nat n) \<and> magnitude_le k (num_of_jsint (double_of_nat n))"
proof -
  have "magnitude_le k (fl (real n))" by (rule fl_magnitude) (use assms in simp_all)
  then obtain y where y: "fl (real n) = Num y" "\<bar>y\<bar> \<le> 2 ^ k"
    by (cases "fl (real n)") simp_all
  have "real_of_int \<lfloor>y\<rfloor> \<le> 2 ^ k" using y(2) by linarith
  moreover have "- (2 ^ k) \<le> real_of_int \<lfloor>y\<rfloor>"
  proof -
    have "real_of_int (- (2 ^ k)) \<le> y" using y(2) by simp
    then have "- (2 ^ k) \<le> \<lfloor>y\<rfloor>" by (simp only: le_floor_iff)
    then show ?thesis by (metis of_int_le_iff of_int_minus of_int_numeral of_int_power)
  qed
  ultimately have "\<bar>real_of_int \<lfloor>y\<rfloor>\<bar> \<le> 2 ^ k" by linarith
  then show ?thesis by (simp add: double_of_nat_def y(1))
qed

text \<open>A run of at most 100 digits is read as a finite number, below \<open>2 ^ 333\<close>.\<close>

lemma parseInt_short:
  assumes "ds \<noteq> []" "list_all is_digit ds" "length ds \<le> 100"
  shows "jsint_finite (parseInt ds) \<and> magnitude_le 333 (num_of_jsint (parseInt ds))"
proof -
  have "dec_value ds < 10 ^ length ds" by (rule dec_value_bound [OF assms(2)])
  also have "\<dots> \<le> 10 ^ 100" using assms(3) by (intro power_increasing) simp_all
  also have "\<dots> \<le> 2 ^ 333" by simp
  finally have "dec_value ds \<le> 2 ^ 333" by simp
  then have "real (dec_value ds) \<le> 2 ^ 333"
    by (metis of_nat_le_iff of_nat_numeral of_nat_power)
  then show ?thesis
    unfolding parseInt_digit_run [OF assms(1,2)] by (intro double_of_nat_magnitude) simp_all
qed

text \<open>
  The HSL branch on three finite numbers of magnitude at most \<open>2 ^ 500\<close>: no
  intermediate result overflows and the three channels are finite.
\<close>

lemma hslChannels_finite:
  assumes hi: "magnitude_le K (num_of_jsint hi)" and si: "magnitude_le K (num_of_jsint si)"
    and li: "magnitude_le K (num_of_jsint li)" and K: "K \<le> 500"
  shows "(case hslChannels hi si li of
            (r, g, b) \<Rightarrow> jsint_finite r \<and> jsint_finite g \<and> jsint_finite b)"
proof -
  define h where "h = num_of_jsint hi"
  define s where "s = num_div (num_of_jsint si) (Num 100)"
  define l where "l = num_div (num_of_jsint li) (Num 100)"
  define c where "c = num_mul (num_sub (Num 1) (num_abs (num_sub (num_mul (Num 2) l) (Num 1)))) s"
  define x where "x = num_mul c (num_sub (Num 1)
                (num_abs (num_sub (num_rem (num_div h (Num 60)) 2) (Num 1))))"
  define m where "m = num_sub l (num_div c (Num 2))"
  define channel where "channel = (\<lambda>n. js_round (num_mul (num_add n m) (Num 255)))"
  define B where "B = K + 3 + K + 3"
  have s: "magnitude_le K s" unfolding s_def by (rule magnitude_le_div [OF si]) (use K in simp_all)
  have l: "magnitude_le K l" unfolding l_def by (rule magnitude_le_div [OF li]) (use K in simp_all)
  have "magnitude_le (1 + K) (num_mul (Num 2) l)"
    by (rule magnitude_le_mul [OF magnitude_le_const(3) l]) (use K in simp)
  moreover have "magnitude_le (1 + K) (Num 1)"
    by (rule magnitude_le_mono [OF magnitude_le_const(2)]) simp
  ultimately have "magnitude_le (Suc (1 + K)) (num_sub (num_mul (Num 2) l) (Num 1))"
    by (rule magnitude_le_sub) (use K in simp)
  then have "magnitude_le (Suc (1 + K)) (num_abs (num_sub (num_mul (Num 2) l) (Num 1)))"
    by (rule magnitude_le_abs)
  moreover have "magnitude_le (Suc (1 + K)) (Num 1)"
    by (rule magnitude_le_mono [OF magnitude_le_const(2)]) simp
  ultimately have "magnitude_le (Suc (Suc (1 + K)))
      (num_sub (Num 1) (num_abs (num_sub (num_mul (Num 2) l) (Num 1))))"
    by (intro magnitude_le_sub) (use K in simp_all)
  then have "magnitude_le (Suc (Suc (1 + K)) + K) c"
    unfolding c_def by (rule magnitude_le_mul [OF _ s]) (use K in simp)
  then have c: "magnitude_le (K + 3 + K) c" by (rule magnitude_le_mono) simp
  have "magnitude_le K (num_div h (Num 60))"
    unfolding h_def by (rule magnitude_le_div [OF hi]) (use K in simp_all)
  then have "magnitude_le 1 (num_rem (num_div h (Num 60)) 2)" by (rule magnitude_le_rem)
  moreover have "magnitude_le 1 (Num 1)"
    by (rule magnitude_le_mono [OF magnitude_le_const(2)]) simp
  ultimately have "magnitude_le (Suc 1) (num_sub (num_rem (num_div h (Num 60)) 2) (Num 1))"
    by (rule magnitude_le_sub) simp
  then have "magnitude_le (Suc 1) (num_abs (num_sub (num_rem (num_div h (Num 60)) 2) (Num 1)))"
    by (rule magnitude_le_abs)
  moreover have "magnitude_le (Suc 1) (Num 1)"
    by (rule magnitude_le_mono [OF magnitude_le_const(2)]) simp
  ultimately have "magnitude_le (Suc (Suc 1))
      (num_sub (Num 1) (num_abs (num_sub (num_rem (num_div h (Num 60)) 2) (Num 1))))"
    by (intro magnitude_le_sub) simp_all
  then have "magnitude_le (K + 3 + K + Suc (Suc 1)) x"
    unfolding x_def by (rule magnitude_le_mul [OF c]) (use K in simp)
  then have x: "magnitude_le B x" by (rule magnitude_le_mono) (simp add: B_def)
  have "magnitude_le (K + 3 + K) (num_div c (Num 2))"
    by (rule magnitude_le_div [OF c]) (use K in simp_all)
  moreover have "magnitude_le (K + 3 + K) l"
    by (rule magnitude_le_mono [OF l]) simp
  ultimately have "magnitude_le (Suc (K + 3 + K)) m"
    unfolding m_def by (intro magnitude_le_sub) (use K in simp_all)
  then have m: "magnitude_le B m" by (rule magnitude_le_mono) (simp add: B_def)
  have cB: "magnitude_le B c" by (rule magnitude_le_mono [OF c]) (simp add: B_def)
  have zB: "magnitude_le B (Num 0)" by simp
  have ch: "jsint_finite (channel n)" if "magnitude_le B n" for n
  proof -
    have "magnitude_le (Suc B) (num_add n m)"
      by (rule magnitude_le_add [OF that m]) (use K in \<open>simp add: B_def\<close>)
    then have "magnitude_le (Suc B + 8) (num_mul (num_add n m) (Num 255))"
      by (rule magnitude_le_mul [OF _ magnitude_le_const(4)]) (use K in \<open>simp add: B_def\<close>)
    then show ?thesis unfolding channel_def by (rule js_round_finite)
  qed
  have "hslChannels hi si li =
     (case (if num_lt h 60 then (c, x, Num 0)
                 else if num_lt h 120 then (x, c, Num 0)
                 else if num_lt h 180 then (Num 0, c, x)
                 else if num_lt h 240 then (Num 0, x, c)
                 else if num_lt h 300 then (x, Num 0, c)
                 else (c, Num 0, x)) of (r, g, b) \<Rightarrow> (channel r, channel g, channel b))"
    unfolding hslChannels_def Let_def h_def s_def l_def c_def x_def m_def channel_def ..
  then show ?thesis using ch [OF cB] ch [OF x] ch [OF zB] by simp
qed

subsection \<open>The characters of a normalised colour\<close>

lemma hex_char_in: "d < 16 \<Longrightarrow> hex_text_char (hex_char d)"
proof -
  assume "d < 16"
  then have "''0123456789abcdef'' ! d \<in> set ''0123456789abcdef''"
    by (intro nth_mem) simp
  then show ?thesis unfolding hex_char_def hex_text_char_def by simp
qed

lemma hex_text_char_basic:
  "hex_text_char CHR ''#''" "hex_text_char CHR ''-''" "hex_text_char CHR ''0''"
  "\<not> hex_text_char CHR ''(''"
  by (simp_all add: hex_text_char_def)

lemma hex_text_lower_all: "list_all (\<lambda>d. lower_char d = d) ''#-0123456789abcdef''"
  by (simp add: lower_defs)

lemma lower_small_all: "list_all (\<lambda>d. lower_char d = d) lower_letters"
  by (simp add: lower_defs)

lemma hex_text_char_lower: "hex_text_char c \<Longrightarrow> lower_char c = c"
  using hex_text_lower_all unfolding hex_text_char_def list_all_iff by blast

lemma number_text_basic:
  "hex_text_char c \<Longrightarrow> number_text_char c" "\<not> number_text_char CHR ''(''"
  by (simp_all add: number_text_char_def hex_text_char_def)

lemma hex_text_is_number_text: "list_all hex_text_char s \<Longrightarrow> list_all number_text_char s"
  by (simp add: list_all_iff number_text_basic(1))

lemma hex_digits_text: "list_all hex_text_char (hex_digits n)"
proof (induction n rule: hex_digits.induct)
  case (1 n)
  show ?case
  proof (cases "n < 16")
    case True
    then show ?thesis using hex_char_in [of n] by (subst hex_digits.simps) simp
  next
    case False
    have "hex_text_char (hex_char (n mod 16))" by (rule hex_char_in) simp
    then show ?thesis using False 1 by (subst hex_digits.simps) simp
  qed
qed

lemma v8_hex_text: "list_all hex_text_char (v8_hex n)"
proof (induction n rule: v8_hex.induct)
  case (1 n)
  show ?case
  proof (cases "n < 2 ^ 53")
    case True
    then show ?thesis using hex_digits_text [of n] by (subst v8_hex.simps) simp
  next
    case False
    then show ?thesis using 1 by (subst v8_hex.simps) (simp add: hex_text_char_basic)
  qed
qed

lemma toString16_finite_text: "jsint_finite j \<Longrightarrow> list_all hex_text_char (toString16 j)"
  by (cases j) (simp_all add: v8_hex_text hex_text_char_basic)

lemma toString16_text: "list_all number_text_char (toString16 j)"
proof (cases j)
  case (IInt n)
  then show ?thesis using toString16_finite_text [of j] hex_text_is_number_text by simp
qed (simp_all add: number_text_char_def hex_text_char_basic)

text \<open>A value that is not finite prints with a capital letter.\<close>

lemma toString16_capital:
  "\<not> jsint_finite j \<Longrightarrow> CHR ''I'' \<in> set (toString16 j) \<or> CHR ''N'' \<in> set (toString16 j)"
  by (cases j) simp_all

lemma padStart2_set: "set s \<subseteq> set (padStart2 s)"
  by (simp add: padStart2_def)

lemma padStart2_text: "list_all hex_text_char s \<Longrightarrow> list_all hex_text_char (padStart2 s)"
  by (auto simp: padStart2_def list_all_iff hex_text_char_basic)

lemma padStart2_number_text:
  "list_all number_text_char s \<Longrightarrow> list_all number_text_char (padStart2 s)"
  by (auto simp: padStart2_def list_all_iff number_text_basic hex_text_char_basic)

lemma toHex_finite_text: "jsint_finite j \<Longrightarrow> list_all hex_text_char (padStart2 (toString16 j))"
  by (rule padStart2_text [OF toString16_finite_text])

lemma toHex_text: "list_all number_text_char (padStart2 (toString16 j))"
  by (rule padStart2_number_text [OF toString16_text])

lemma toHex_capital:
  "\<not> jsint_finite j \<Longrightarrow>
     CHR ''I'' \<in> set (padStart2 (toString16 j)) \<or> CHR ''N'' \<in> set (padStart2 (toString16 j))"
  using toString16_capital [of j] padStart2_set [of "toString16 j"] by blast

lemma hex3_text: "list_all number_text_char (hex3 r g b)"
  by (simp add: hex3_def toHex_text number_text_basic(1) hex_text_char_basic)

lemma hex3_finite_text:
  "jsint_finite r \<Longrightarrow> jsint_finite g \<Longrightarrow> jsint_finite b \<Longrightarrow> list_all hex_text_char (hex3 r g b)"
  by (simp add: hex3_def toHex_finite_text hex_text_char_basic)

lemma hex3_capital:
  assumes "\<not> (jsint_finite r \<and> jsint_finite g \<and> jsint_finite b)"
  shows "CHR ''I'' \<in> set (hex3 r g b) \<or> CHR ''N'' \<in> set (hex3 r g b)"
  using assms toHex_capital [of r] toHex_capital [of g] toHex_capital [of b]
  by (auto simp add: hex3_def)

lemma normalizeColor_rgb:
  "rgbaMatch s = Some (r, g, b) \<Longrightarrow> normalizeColor s = hex3 (parseInt r) (parseInt g) (parseInt b)"
  by (simp add: normalizeColor_def hex3_def hex_component_def)

lemma normalizeColor_hsl:
  "rgbaMatch s = None \<Longrightarrow> hslMatch s = Some (h, sa, l) \<Longrightarrow>
     normalizeColor s = (case hslChannels (parseInt h) (parseInt sa) (parseInt l) of
                           (r, g, b) \<Rightarrow> hex3 r g b)"
  by (simp add: normalizeColor_def hslToHex_def hex3_def)

lemma normalizeColor_neither:
  "rgbaMatch s = None \<Longrightarrow> hslMatch s = None \<Longrightarrow> normalizeColor s = toLowerCase s"
  by (simp add: normalizeColor_def)

lemma text_no_paren: "list_all number_text_char s \<Longrightarrow> CHR ''('' \<notin> set s"
  using number_text_basic(2) by (auto simp: list_all_iff)

lemma text_lower: "list_all hex_text_char s \<Longrightarrow> toLowerCase s = s"
  unfolding toLowerCase_def by (induction s) (simp_all add: hex_text_char_lower)

lemma text_no_match:
  assumes "list_all number_text_char s"
  shows "rgbaMatch s = None" "hslMatch s = None"
  using text_no_paren [OF assms] rgbaMatch_paren hslMatch_paren
  by (metis not_Some_eq)+

lemma normalizeColor_number_text:
  "list_all number_text_char s \<Longrightarrow> normalizeColor s = toLowerCase s"
  by (simp add: normalizeColor_def text_no_match)

lemma normalizeColor_text_fix: "list_all hex_text_char s \<Longrightarrow> normalizeColor s = s"
  by (simp add: normalizeColor_number_text hex_text_is_number_text text_lower)

lemma lower_capital: "lower_char CHR ''I'' \<noteq> CHR ''I''" "lower_char CHR ''N'' \<noteq> CHR ''N''"
  by (simp_all add: lower_defs)

lemma capital_lower_changes:
  assumes "CHR ''I'' \<in> set s \<or> CHR ''N'' \<in> set s"
  shows "toLowerCase s \<noteq> s"
proof
  assume "toLowerCase s = s"
  then have "map lower_char s = map (\<lambda>c. c) s" by (simp add: toLowerCase_def)
  then have "\<forall>c \<in> set s. lower_char c = c" by (simp only: map_eq_conv)
  then show False using assms lower_capital by blast
qed

text \<open>
  What a matching colour is normalised to is a fixed point when its three values are
  finite, and is not when one of them prints as \<open>NaN\<close> or \<open>Infinity\<close>: a second pass
  lower-cases the capital.
\<close>

lemma hex3_fix:
  "normalizeColor (hex3 r g b) = hex3 r g b
     \<longleftrightarrow> jsint_finite r \<and> jsint_finite g \<and> jsint_finite b"
proof (cases "jsint_finite r \<and> jsint_finite g \<and> jsint_finite b")
  case True
  then show ?thesis using normalizeColor_text_fix [OF hex3_finite_text] by blast
next
  case False
  have "normalizeColor (hex3 r g b) = toLowerCase (hex3 r g b)"
    by (rule normalizeColor_number_text [OF hex3_text])
  then show ?thesis using False capital_lower_changes [OF hex3_capital [OF False]] by simp
qed

lemma normalizeColor_match_text:
  assumes "rgbaMatch t \<noteq> None \<or> hslMatch t \<noteq> None"
  shows "list_all number_text_char (normalizeColor t)"
proof (cases "rgbaMatch t")
  case (Some m)
  obtain r g b where m: "m = (r, g, b)" by (cases m) auto
  show ?thesis unfolding normalizeColor_rgb [OF Some [unfolded m]] by (rule hex3_text)
next
  case None
  then obtain m where h: "hslMatch t = Some m" using assms by auto
  obtain h' sa l where m: "m = (h', sa, l)" by (cases m) auto
  show ?thesis unfolding normalizeColor_hsl [OF None h [unfolded m]]
    by (simp add: hex3_text split: prod.splits)
qed

lemma lower_char_idem: "lower_char (lower_char c) = lower_char c"
proof (cases "map_of (zip upper_letters lower_letters) c")
  case None
  then show ?thesis by (simp add: lower_char_def)
next
  case (Some d)
  then have "d \<in> set lower_letters"
    by (meson map_of_SomeD set_zip_rightD)
  then have "lower_char d = d" using lower_small_all unfolding list_all_iff by blast
  then show ?thesis using Some by (simp add: lower_char_def)
qed

lemma toLowerCase_idem: "toLowerCase (toLowerCase s) = toLowerCase s"
  by (simp add: toLowerCase_def lower_char_idem)



lemma normalizeColor_match_changes:
  assumes "rgbaMatch t \<noteq> None \<or> hslMatch t \<noteq> None"
  shows "normalizeColor t \<noteq> t"
proof -
  have "CHR ''('' \<in> set t"
    using assms rgbaMatch_paren hslMatch_paren by blast
  then show ?thesis using text_no_paren [OF normalizeColor_match_text [OF assms]] by auto
qed

subsection \<open>Evaluation on an HSL colour\<close>

lemmas match_defs = rgbaMatch_def hslMatch_def rgba_at_def hsla_at_def expect_str_def
  optional_char_def digits1_def is_digit_def is_space_def





lemma v8_hex_0: "v8_hex 0 = ''0''"
  by (simp add: v8_hex.simps hex_digits.simps hex_char_def)






subsection \<open>Idempotence\<close>

lemma normalizeColor_idem_iff:
  "(normalizeColor (normalizeColor s) = normalizeColor s)
     \<longleftrightarrow> (case rgbaMatch s of
            Some (r, g, b) \<Rightarrow>
              jsint_finite (parseInt r) \<and> jsint_finite (parseInt g) \<and> jsint_finite (parseInt b)
          | None \<Rightarrow>
              (case hslMatch s of
                 Some (h, sa, l) \<Rightarrow>
                   (case hslChannels (parseInt h) (parseInt sa) (parseInt l) of
                      (r, g, b) \<Rightarrow> jsint_finite r \<and> jsint_finite g \<and> jsint_finite b)
               | None \<Rightarrow> rgbaMatch (toLowerCase s) = None \<and> hslMatch (toLowerCase s) = None))"
proof (cases "rgbaMatch s")
  case (Some m)
  obtain r g b where m: "m = (r, g, b)" by (cases m) auto
  show ?thesis
    unfolding normalizeColor_rgb [OF Some [unfolded m]] hex3_fix
    by (simp add: Some m)
next
  case None
  show ?thesis
  proof (cases "hslMatch s")
    case (Some m)
    obtain h sa l where m: "m = (h, sa, l)" by (cases m) auto
    obtain r g b where ch: "hslChannels (parseInt h) (parseInt sa) (parseInt l) = (r, g, b)"
      by (cases "hslChannels (parseInt h) (parseInt sa) (parseInt l)") auto
    have n: "normalizeColor s = hex3 r g b"
      unfolding normalizeColor_hsl [OF None Some [unfolded m]] ch by simp
    show ?thesis
      unfolding n hex3_fix by (simp add: None Some m ch)
  next
    case N2: None
    have n: "normalizeColor s = toLowerCase s"
      by (rule normalizeColor_neither [OF None N2])
    show ?thesis
    proof (cases "rgbaMatch (toLowerCase s) = None \<and> hslMatch (toLowerCase s) = None")
      case True
      then have "normalizeColor (toLowerCase s) = toLowerCase (toLowerCase s)"
        using normalizeColor_neither by blast
      then have "normalizeColor (normalizeColor s) = normalizeColor s"
        unfolding n toLowerCase_idem .
      then show ?thesis using True by (simp add: None N2)
    next
      case False
      then have "rgbaMatch (toLowerCase s) \<noteq> None \<or> hslMatch (toLowerCase s) \<noteq> None"
        by auto
      then have "normalizeColor (toLowerCase s) \<noteq> toLowerCase s"
        by (rule normalizeColor_match_changes)
      then have "normalizeColor (normalizeColor s) \<noteq> normalizeColor s"
        unfolding n .
      then show ?thesis using False by (simp add: None N2)
    qed
  qed
qed

lemma hex_digit_is_text: "c \<in> set ''0123456789abcdef'' \<Longrightarrow> hex_text_char c"
  by (simp add: hex_text_char_def)

lemma normalizeColor_hex_fix:
  assumes "list_all (\<lambda>c. c \<in> set ''0123456789abcdef'') t"
  shows "normalizeColor (''#'' @ t) = ''#'' @ t"
proof -
  have "list_all hex_text_char (''#'' @ t)"
    using assms hex_digit_is_text by (auto simp: list_all_iff hex_text_char_basic)
  then show ?thesis by (rule normalizeColor_text_fix)
qed

lemma upper_rgb_once: "normalizeColor ''RGB(1,2,3)'' = ''rgb(1,2,3)''"
  by (simp add: normalizeColor_def match_defs toLowerCase_def lower_defs)

lemma rgb_123_match: "rgbaMatch ''rgb(1,2,3)'' = Some (''1'', ''2'', ''3'')"
  by (simp add: match_defs)

lemma hex_components_123:
  "hex_component ''1'' = ''01''" "hex_component ''2'' = ''02''" "hex_component ''3'' = ''03''"
  by (simp_all add: hex_component_def parseInt_def is_digit_def is_space_def dec_value_def
      digit_val_def double_small v8_hex.simps hex_digits.simps hex_char_def padStart2_def)

lemma upper_rgb_twice: "normalizeColor ''rgb(1,2,3)'' = ''#010203''"
  by (simp add: normalizeColor_def rgb_123_match hex_components_123)

subsection \<open>The inline copy of the hover and focus merge\<close>



lemma normalizeColor_idem_short:
  assumes "(case rgbaMatch s of
              Some (r, g, b) \<Rightarrow> length r \<le> 100 \<and> length g \<le> 100 \<and> length b \<le> 100
            | None \<Rightarrow>
                (case hslMatch s of
                   Some (h, sa, l) \<Rightarrow> length h \<le> 100 \<and> length sa \<le> 100 \<and> length l \<le> 100
                 | None \<Rightarrow> toLowerCase s = s))"
  shows "normalizeColor (normalizeColor s) = normalizeColor s"
proof (cases "rgbaMatch s")
  case (Some m)
  obtain r g b where m: "m = (r, g, b)" by (cases m) auto
  note gr = rgbaMatch_groups [OF Some [unfolded m]]
  have "length r \<le> 100" "length g \<le> 100" "length b \<le> 100"
    using assms by (simp_all add: Some m)
  then have "jsint_finite (parseInt r)" "jsint_finite (parseInt g)" "jsint_finite (parseInt b)"
    using gr parseInt_short by blast+
  then show ?thesis unfolding normalizeColor_idem_iff by (simp add: Some m)
next
  case None
  show ?thesis
  proof (cases "hslMatch s")
    case (Some m)
    obtain h sa l where m: "m = (h, sa, l)" by (cases m) auto
    note gr = hslMatch_groups [OF Some [unfolded m]]
    have "length h \<le> 100" "length sa \<le> 100" "length l \<le> 100"
      using assms by (simp_all add: None Some m)
    then have "magnitude_le 333 (num_of_jsint (parseInt h))"
      "magnitude_le 333 (num_of_jsint (parseInt sa))"
      "magnitude_le 333 (num_of_jsint (parseInt l))"
      using gr parseInt_short by blast+
    then have "(case hslChannels (parseInt h) (parseInt sa) (parseInt l) of
            (r, g, b) \<Rightarrow> jsint_finite r \<and> jsint_finite g \<and> jsint_finite b)"
      by (rule hslChannels_finite) simp
    then show ?thesis unfolding normalizeColor_idem_iff by (simp add: None Some m)
  next
    case N2: None
    have "toLowerCase s = s" using assms by (simp add: None N2)
    then show ?thesis unfolding normalizeColor_idem_iff by (simp add: None N2)
  qed
qed

text \<open>
  C7 (amended). Normalising twice gives the same result as normalising once exactly for
  the colour strings that match the \<open>rgb\<close>/\<open>rgba\<close> pattern as written and whose three
  numbers are read as finite, or match the \<open>hsl\<close>/\<open>hsla\<close> pattern as written and
  whose three channels come out finite, or match neither pattern even after lower-casing.
  In particular it holds when each of the three matched numbers has at most 100 digits,
  and when nothing matches and the string has no capital letter; and a \<open>#\<close> followed by
  lower-case hexadecimal digits is returned unchanged.
\<close>

theorem C7_normalizeColor_idempotent_amended:
  "((normalizeColor (normalizeColor s) = normalizeColor s)
      \<longleftrightarrow> (case rgbaMatch s of
             Some (r, g, b) \<Rightarrow>
               jsint_finite (parseInt r) \<and> jsint_finite (parseInt g) \<and> jsint_finite (parseInt b)
           | None \<Rightarrow>
               (case hslMatch s of
                  Some (h, sa, l) \<Rightarrow>
                    (case hslChannels (parseInt h) (parseInt sa) (parseInt l) of
                       (r, g, b) \<Rightarrow> jsint_finite r \<and> jsint_finite g \<and> jsint_finite b)
                | None \<Rightarrow> rgbaMatch (toLowerCase s) = None \<and> hslMatch (toLowerCase s) = None)))
   \<and> ((case rgbaMatch s of
          Some (r, g, b) \<Rightarrow> length r \<le> 100 \<and> length g \<le> 100 \<and> length b \<le> 100
        | None \<Rightarrow>
            (case hslMatch s of
               Some (h, sa, l) \<Rightarrow> length h \<le> 100 \<and> length sa \<le> 100 \<and> length l \<le> 100
             | None \<Rightarrow> toLowerCase s = s))
        \<longrightarrow> normalizeColor (normalizeColor s) = normalizeColor s)
   \<and> (list_all (\<lambda>c. c \<in> set ''0123456789abcdef'') t
        \<longrightarrow> normalizeColor (''#'' @ t) = ''#'' @ t)"
  using normalizeColor_idem_iff [of s] normalizeColor_idem_short [of s] normalizeColor_hex_fix [of t]
  by blast

text \<open>
  The patterns are case-sensitive and the fall-back lower-cases: \<open>RGB(1,2,3)\<close> becomes
  \<open>rgb(1,2,3)\<close>, which a second pass turns into \<open>#010203\<close>.
\<close>

theorem C7_idempotence_counterexample:
  "normalizeColor (normalizeColor ''RGB(1,2,3)'') \<noteq> normalizeColor ''RGB(1,2,3)''"
  by (simp add: upper_rgb_once upper_rgb_twice)

lemma lower_6366f1: "toLowerCase ''#6366f1'' = ''#6366f1''"
  by (simp add: toLowerCase_def lower_defs)

lemma no_match_6366f1: "rgbaMatch ''#6366f1'' = None" "hslMatch ''#6366f1'' = None"
  by (simp_all add: match_defs)

theorem C7_normalizeColor_idempotent_witness:
  "rgbaMatch ''#6366f1'' = None \<and> hslMatch ''#6366f1'' = None
   \<and> toLowerCase ''#6366f1'' = ''#6366f1''
   \<and> list_all (\<lambda>c. c \<in> set ''0123456789abcdef'') ''6366f1''
   \<and> normalizeColor (normalizeColor ''#6366f1'') = normalizeColor ''#6366f1''
   \<and> normalizeColor ''#6366f1'' = ''#6366f1''"
  using C7_normalizeColor_idempotent_amended [of "''#6366f1''" "''6366f1''"] lower_6366f1
    no_match_6366f1
  by simp





section \<open>Normalisation where the arithmetic of doubles shows\<close>

text \<open>
  The HSL branch on \<open>hsl(0, 100%, 5%)\<close>: the red channel is the double below
  \<open>25.5\<close> and rounds to 25, where exact arithmetic gives \<open>25.5\<close> and 26.
\<close>

lemma hsl5_s: "num_div (Num 100) (Num 100) = Num 1"
  using fl_eval [of "2 ^ 0" "0" "1 / 2 ^ 52" "1" "4503599627370496"]
  by (simp add: num_div_def ex_sub_def powr_int powr_minus_divide round_half_even_def)

lemma hsl5_l: "num_div (Num 5) (Num 100) = Num (3602879701896397 / 72057594037927936)"
  using fl_eval [of "1 / 2 ^ 5" "- 5" "1 / 2 ^ 57" "(1 / 20)" "7205759403792794"]
  by (simp add: num_div_def ex_sub_def powr_int powr_minus_divide round_half_even_def)

lemma hsl5_2l: "num_mul (Num 2) (Num (3602879701896397 / 72057594037927936)) = Num (3602879701896397 / 36028797018963968)"
  using fl_eval [of "1 / 2 ^ 4" "- 4" "1 / 2 ^ 56" "(3602879701896397 / 36028797018963968)" "7205759403792794"]
  by (simp add: num_mul_def ex_sub_def powr_int powr_minus_divide round_half_even_def)

lemma hsl5_2l1: "num_sub (Num (3602879701896397 / 36028797018963968)) (Num 1) = Num (- (8106479329266893 / 9007199254740992))"
  using fl_eval [of "1 / 2 ^ 1" "- 1" "1 / 2 ^ 53" "(- (32425917317067571 / 36028797018963968))" "- 8106479329266893"]
  by (simp add: num_sub_def ex_sub_def powr_int powr_minus_divide round_half_even_def)

lemma hsl5_1a: "num_sub (Num 1) (Num (8106479329266893 / 9007199254740992)) = Num (900719925474099 / 9007199254740992)"
  using fl_eval [of "1 / 2 ^ 4" "- 4" "1 / 2 ^ 56" "(900719925474099 / 9007199254740992)" "7205759403792792"]
  by (simp add: num_sub_def ex_sub_def powr_int powr_minus_divide round_half_even_def)

lemma hsl5_c: "num_mul (Num (900719925474099 / 9007199254740992)) (Num 1) = Num (900719925474099 / 9007199254740992)"
  using fl_eval [of "1 / 2 ^ 4" "- 4" "1 / 2 ^ 56" "(900719925474099 / 9007199254740992)" "7205759403792792"]
  by (simp add: num_mul_def ex_sub_def powr_int powr_minus_divide round_half_even_def)

lemma hsl5_h60: "num_div (Num 0) (Num 60) = Num 0"
  by (simp add: num_div_def ex_sub_def fl_0)

lemma hsl5_r1: "num_sub (Num 0) (Num 1) = Num (- 1)"
  using fl_eval [of "2 ^ 0" "0" "1 / 2 ^ 52" "(- 1)" "- 4503599627370496"]
  by (simp add: num_sub_def ex_sub_def powr_int powr_minus_divide round_half_even_def)

lemma hsl5_r3: "num_sub (Num 1) (Num 1) = Num 0"
  by (simp add: num_sub_def ex_sub_def fl_0)

lemma hsl5_x: "num_mul (Num (900719925474099 / 9007199254740992)) (Num 0) = Num 0"
  by (simp add: num_mul_def ex_sub_def fl_0)

lemma hsl5_c2: "num_div (Num (900719925474099 / 9007199254740992)) (Num 2) = Num (900719925474099 / 18014398509481984)"
  using fl_eval [of "1 / 2 ^ 5" "- 5" "1 / 2 ^ 57" "(900719925474099 / 18014398509481984)" "7205759403792792"]
  by (simp add: num_div_def ex_sub_def powr_int powr_minus_divide round_half_even_def)

lemma hsl5_m: "num_sub (Num (3602879701896397 / 72057594037927936)) (Num (900719925474099 / 18014398509481984)) = Num (1 / 72057594037927936)"
  using fl_eval [of "1 / 2 ^ 56" "- 56" "1 / 2 ^ 108" "(1 / 72057594037927936)" "4503599627370496"]
  by (simp add: num_sub_def ex_sub_def powr_int powr_minus_divide round_half_even_def)

lemma hsl5_add0: "num_add (Num (900719925474099 / 9007199254740992)) (Num (1 / 72057594037927936)) = Num (7205759403792793 / 72057594037927936)"
  using fl_eval [of "1 / 2 ^ 4" "- 4" "1 / 2 ^ 56" "(7205759403792793 / 72057594037927936)" "7205759403792793"]
  by (simp add: num_add_def ex_sub_def powr_int powr_minus_divide round_half_even_def)

lemma hsl5_mul0: "num_mul (Num (7205759403792793 / 72057594037927936)) (Num 255) = Num (7177611906121727 / 281474976710656)"
  using fl_eval [of "2 ^ 4" "4" "1 / 2 ^ 48" "(1837468647967162215 / 72057594037927936)" "7177611906121727"]
  by (simp add: num_mul_def ex_sub_def powr_int powr_minus_divide round_half_even_def)

lemma hsl5_add1: "num_add (Num 0) (Num (1 / 72057594037927936)) = Num (1 / 72057594037927936)"
  using fl_eval [of "1 / 2 ^ 56" "- 56" "1 / 2 ^ 108" "(1 / 72057594037927936)" "4503599627370496"]
  by (simp add: num_add_def ex_sub_def powr_int powr_minus_divide round_half_even_def)

lemma hsl5_mul1: "num_mul (Num (1 / 72057594037927936)) (Num 255) = Num (255 / 72057594037927936)"
  using fl_eval [of "1 / 2 ^ 49" "- 49" "1 / 2 ^ 101" "(255 / 72057594037927936)" "8972014882652160"]
  by (simp add: num_mul_def ex_sub_def powr_int powr_minus_divide round_half_even_def)


lemmas hsl5_steps = hsl5_s hsl5_l hsl5_2l hsl5_2l1 hsl5_1a hsl5_c hsl5_h60 hsl5_r1 hsl5_r3 hsl5_x
  hsl5_c2 hsl5_m hsl5_add0 hsl5_mul0 hsl5_add1 hsl5_mul1

lemma hslChannels_5: "hslChannels (IInt 0) (IInt 100) (IInt 5) = (IInt 25, IInt 0, IInt 0)"
  by (simp add: hslChannels_def js_rem_def hsl5_steps)

lemma v8_hex_25: "v8_hex 25 = ''19''"
  by (simp add: v8_hex.simps hex_digits.simps hex_char_def)

lemma norm_hsl_5: "normalizeColor ''hsl(0, 100%, 5%)'' = ''#190000''"
proof -
  have m: "rgbaMatch ''hsl(0, 100%, 5%)'' = None"
    "hslMatch ''hsl(0, 100%, 5%)'' = Some (''0'', ''100'', ''5'')"
    by (simp_all add: match_defs)
  have p: "parseInt ''0'' = IInt 0" "parseInt ''100'' = IInt 100" "parseInt ''5'' = IInt 5"
    by (simp_all add: parseInt_def is_digit_def is_space_def dec_value_def digit_val_def
        double_small)
  show ?thesis
    by (simp add: normalizeColor_def m p hslToHex_def hslChannels_5 v8_hex_25 v8_hex_0
        padStart2_def)
qed

subsection \<open>Numbers beyond the exact integers\<close>

lemma fl_1e20m1: "fl 99999999999999999999 = Num 100000000000000000000"
  using fl_eval [of "2 ^ 66" 66 "2 ^ 14" 99999999999999999999 6103515625000000]
  by (simp add: powr_int powr_minus_divide round_half_even_def)

lemma dec_value_zeros: "dec_value (ds @ replicate n CHR ''0'') = dec_value ds * 10 ^ n"
proof (induction n)
  case 0
  show ?case by simp
next
  case (Suc n)
  have "dec_value (ds @ replicate (Suc n) CHR ''0'') = dec_value ((ds @ replicate n CHR ''0'') @ ''0'')"
    by (simp add: replicate_append_same)
  also have "\<dots> = 10 * dec_value (ds @ replicate n CHR ''0'')"
    unfolding dec_value_snoc by (simp add: digit_val_def)
  finally show ?case using Suc by simp
qed


lemma double_of_nat_overflow: "2 ^ 1024 \<le> n \<Longrightarrow> double_of_nat n = IPosInf"
proof -
  assume "2 ^ 1024 \<le> n"
  then have "real (2 ^ 1024) \<le> real n" by (simp only: of_nat_le_iff)
  then have "2 ^ 1024 \<le> real n" by simp
  then show ?thesis by (simp add: double_of_nat_def fl_overflow)
qed

text \<open>
  A number of 310 digits is read as \<open>Infinity\<close>, which prints with a capital letter: a
  string without capitals whose second normalisation differs from the first.
\<close>

lemma parseInt_310_digits: "parseInt (CHR ''1'' # replicate 309 CHR ''0'') = IPosInf"
proof -
  have d: "list_all is_digit (CHR ''1'' # replicate 309 CHR ''0'')"
    by (simp add: is_digit_def list_all_iff)
  have "dec_value (''1'' @ replicate 309 CHR ''0'') = dec_value ''1'' * 10 ^ 309"
    by (rule dec_value_zeros)
  then have v: "dec_value (CHR ''1'' # replicate 309 CHR ''0'') = 10 ^ 309"
    by (simp add: dec_value_def digit_val_def)
  have "(2::nat) ^ 1024 \<le> 10 ^ 309" by simp
  then show ?thesis
    unfolding parseInt_digit_run [OF _ d, simplified] v by (rule double_of_nat_overflow)
qed

lemma takeWhile_replicate: "P c \<Longrightarrow> takeWhile P (replicate n c @ ys) = replicate n c @ takeWhile P ys"
  by (induction n) simp_all

lemma dropWhile_replicate: "P c \<Longrightarrow> dropWhile P (replicate n c @ ys) = dropWhile P ys"
  by (induction n) simp_all

lemma rgb_310_digits_match:
  "rgbaMatch (''rgb(1'' @ replicate 309 CHR ''0'' @ '',0,0)'')
     = Some (CHR ''1'' # replicate 309 CHR ''0'', ''0'', ''0'')"
proof -
  have z: "is_digit CHR ''0''" "is_digit CHR ''1''" by (simp_all add: is_digit_def)
  have c: "takeWhile is_digit '',0,0)'' = []" "dropWhile is_digit '',0,0)'' = '',0,0)''"
    by (simp_all add: is_digit_def)
  have t: "takeWhile is_digit (CHR ''1'' # replicate 309 CHR ''0'' @ '',0,0)'')
      = CHR ''1'' # replicate 309 CHR ''0''"
    by (simp only: takeWhile.simps(2) [of is_digit "CHR ''1''"] z if_True
        takeWhile_replicate [of is_digit, OF z(1)] c append_Nil2)
  have d: "dropWhile is_digit (CHR ''1'' # replicate 309 CHR ''0'' @ '',0,0)'') = '',0,0)''"
    by (simp only: dropWhile.simps(2) [of is_digit "CHR ''1''"] z if_True
        dropWhile_replicate [of is_digit, OF z(1)] c)
  have g: "digits1 (CHR ''1'' # replicate 309 CHR ''0'' @ '',0,0)'')
      = Some (CHR ''1'' # replicate 309 CHR ''0'', '',0,0)'')"
    unfolding digits1_def Let_def t d by simp
  have r: "rgba_at (''rgb(1'' @ replicate 309 CHR ''0'' @ '',0,0)'')
      = Some (CHR ''1'' # replicate 309 CHR ''0'', ''0'', ''0'')"
    by (simp add: rgba_at_def expect_str_def optional_char_def g)
       (simp add: digits1_def is_digit_def is_space_def)
  show ?thesis
    unfolding rgbaMatch_def using r by simp
qed

lemma normalizeColor_overflow:
  "normalizeColor (''rgb(1'' @ replicate 309 CHR ''0'' @ '',0,0)'') = ''#Infinity0000''
   \<and> normalizeColor ''#Infinity0000'' = ''#infinity0000''"
proof -
  have p0: "parseInt ''0'' = IInt 0"
    by (simp add: parseInt_def is_digit_def is_space_def dec_value_def digit_val_def double_small)
  have 1: "normalizeColor (''rgb(1'' @ replicate 309 CHR ''0'' @ '',0,0)'') = ''#Infinity0000''"
    unfolding normalizeColor_rgb [OF rgb_310_digits_match] parseInt_310_digits p0
    by (simp add: hex3_def padStart2_def v8_hex_0)
  have 2: "normalizeColor ''#Infinity0000'' = ''#infinity0000''"
    by (simp add: normalizeColor_def match_defs toLowerCase_def lower_defs)
  show ?thesis using 1 2 by blast
qed

text \<open>Twenty nines are read as the double \<open>10 ^ 20\<close>, printed with zeros for the digits below its 53 bits.\<close>

lemma parseInt_20_nines: "parseInt ''99999999999999999999'' = IInt 100000000000000000000"
  by (simp add: parseInt_def is_digit_def is_space_def dec_value_def digit_val_def
      double_of_nat_def fl_1e20m1)

lemma v8_hex_1e20: "v8_hex 100000000000000000000 = ''56bc75e2d63100000''"
  by (simp add: v8_hex.simps hex_digits.simps hex_char_def)

lemma normalizeColor_20_nines:
  "normalizeColor ''rgb(99999999999999999999,0,0)'' = ''#56bc75e2d631000000000''"
proof -
  have m: "rgbaMatch ''rgb(99999999999999999999,0,0)'' = Some (''99999999999999999999'', ''0'', ''0'')"
    by (simp add: match_defs)
  have p0: "parseInt ''0'' = IInt 0"
    by (simp add: parseInt_def is_digit_def is_space_def dec_value_def digit_val_def double_small)
  show ?thesis
    unfolding normalizeColor_rgb [OF m] parseInt_20_nines p0
    by (simp add: hex3_def padStart2_def v8_hex_0 v8_hex_1e20)
qed

section \<open>Properties of the palette\<close>

subsection \<open>Distance and threshold\<close>

lemma deltaE_unparseable: "hexToRgb a = None \<or> hexToRgb b = None \<Longrightarrow> deltaE a b = 999"
  by (auto simp: deltaE_def split: option.splits)

lemma sqrt_lt_15: "sqrt (real_of_int n) < 15 \<longleftrightarrow> n < 225"
proof -
  have "sqrt (real_of_int n) < sqrt 225 \<longleftrightarrow> real_of_int n < 225"
    by (rule real_sqrt_less_iff)
  moreover have "sqrt 225 = 15" using real_sqrt_abs2 [of 15] by simp
  ultimately show ?thesis by simp
qed

lemma deltaE_parsed:
  "hexToRgb a = Some (r1, g1, b1) \<Longrightarrow> hexToRgb b = Some (r2, g2, b2) \<Longrightarrow>
   deltaE a b < 15 \<longleftrightarrow>
     (r1 - r2) * (r1 - r2) + (g1 - g2) * (g1 - g2) + (b1 - b2) * (b1 - b2) < 225"
  unfolding deltaE_def Let_def by (simp only: prod.case option.case sqrt_lt_15)

lemma deltaE_unparsed_not_close: "hexToRgb a = None \<or> hexToRgb b = None \<Longrightarrow> \<not> deltaE a b < 15"
  using deltaE_unparseable by fastforce

lemma threshold_div: "threshold n = max 3 (int (n div 100))"
proof -
  have "\<lfloor>real n * 0.01\<rfloor> = \<lfloor>real n / real 100\<rfloor>" by simp
  also have "\<dots> = int (n div 100)" by (simp only: floor_divide_of_nat_eq)
  finally show ?thesis by (simp add: threshold_def)
qed

lemma threshold_mono: "m \<le> n \<Longrightarrow> threshold m \<le> threshold n"
  unfolding threshold_div by (simp add: div_le_mono max.coboundedI2)

subsection \<open>The deduplication loops\<close>

lemma similar_fold:
  "\<exists>xs. fold (similar_step p idx) js (sim, mg) = (sim @ xs, mg \<union> set xs)
        \<and> set xs \<subseteq> set js
        \<and> (\<forall>x\<in>set xs. deltaE (normalized (p ! idx)) (normalized (p ! x)) < 15)"
proof (induction js arbitrary: sim mg)
  case Nil
  show ?case by simp
next
  case (Cons j js)
  show ?case
  proof (cases "j \<notin> mg \<and> deltaE (normalized (p ! idx)) (normalized (p ! j)) < 15")
    case True
    then have st: "similar_step p idx j (sim, mg) = (sim @ [j], insert j mg)"
      by (simp add: similar_step_def)
    from Cons.IH [of "sim @ [j]" "insert j mg"] obtain xs where
      xs: "fold (similar_step p idx) js (sim @ [j], insert j mg) = ((sim @ [j]) @ xs, insert j mg \<union> set xs)"
          "set xs \<subseteq> set js"
          "\<forall>x\<in>set xs. deltaE (normalized (p ! idx)) (normalized (p ! x)) < 15"
      by blast
    have "fold (similar_step p idx) (j # js) (sim, mg) = (sim @ (j # xs), mg \<union> set (j # xs))"
      using st xs(1) by simp
    moreover have "set (j # xs) \<subseteq> set (j # js)" using xs(2) by auto
    moreover have "\<forall>x\<in>set (j # xs). deltaE (normalized (p ! idx)) (normalized (p ! x)) < 15"
      using xs(3) True by simp
    ultimately show ?thesis by blast
  next
    case False
    then have st: "similar_step p idx j (sim, mg) = (sim, mg)"
      by (auto simp: similar_step_def)
    from Cons.IH [of sim mg] obtain xs where
      xs: "fold (similar_step p idx) js (sim, mg) = (sim @ xs, mg \<union> set xs)"
          "set xs \<subseteq> set js"
          "\<forall>x\<in>set xs. deltaE (normalized (p ! idx)) (normalized (p ! x)) < 15"
      by blast
    have "fold (similar_step p idx) (j # js) (sim, mg) = (sim @ xs, mg \<union> set xs)"
      using st xs(1) by simp
    moreover have "set xs \<subseteq> set (j # js)" using xs(2) by auto
    ultimately show ?thesis using xs(3) by blast
  qed
qed

text \<open>A round of the outer loop pushes at most one cluster, which starts with the index.\<close>

lemma dedup_step_cases:
  "dedup_step p idx (cl, mg) = (cl, mg) \<and> idx \<in> mg
   \<or> (\<exists>xs. dedup_step p idx (cl, mg) = (cl @ [idx # xs], mg \<union> set xs)
          \<and> idx \<notin> mg
          \<and> set xs \<subseteq> {idx + 1 ..< length p}
          \<and> (\<forall>x\<in>set xs. deltaE (normalized (p ! idx)) (normalized (p ! x)) < 15))"
proof (cases "idx \<in> mg")
  case True
  then show ?thesis by (simp add: dedup_step_def)
next
  case False
  from similar_fold [of p idx "[idx + 1 ..< length p]" "[idx]" mg] obtain xs where
    xs: "fold (similar_step p idx) [idx + 1 ..< length p] ([idx], mg) = ([idx] @ xs, mg \<union> set xs)"
        "set xs \<subseteq> set [idx + 1 ..< length p]"
        "\<forall>x\<in>set xs. deltaE (normalized (p ! idx)) (normalized (p ! x)) < 15"
    by blast
  have "dedup_step p idx (cl, mg) = (cl @ [idx # xs], mg \<union> set xs)"
    using False xs(1) by (simp add: dedup_step_def)
  moreover have "set xs \<subseteq> {idx + 1 ..< length p}" using xs(2) by simp
  ultimately show ?thesis using False xs(3) by blast
qed

lemma dedup_fold:
  "\<exists>new mg'. fold (dedup_step p) is (cl, mg) = (cl @ new, mg')
      \<and> length new \<le> length is
      \<and> (\<forall>c\<in>set new. \<exists>idx xs. c = idx # xs \<and> idx \<in> set is
            \<and> set xs \<subseteq> {idx + 1 ..< length p}
            \<and> (\<forall>x\<in>set xs. deltaE (normalized (p ! idx)) (normalized (p ! x)) < 15))
      \<and> (\<forall>x\<in>mg'. x \<in> mg \<or> (\<exists>idx. deltaE (normalized (p ! idx)) (normalized (p ! x)) < 15))"
proof (induction "is" arbitrary: cl mg)
  case Nil
  show ?case by simp
next
  case (Cons i "is")
  from dedup_step_cases [of p i cl mg] show ?case
  proof
    assume a: "dedup_step p i (cl, mg) = (cl, mg) \<and> i \<in> mg"
    from Cons.IH [of cl mg] obtain new mg' where
      n: "fold (dedup_step p) is (cl, mg) = (cl @ new, mg')" "length new \<le> length is"
         "\<forall>c\<in>set new. \<exists>idx xs. c = idx # xs \<and> idx \<in> set is
            \<and> set xs \<subseteq> {idx + 1 ..< length p}
            \<and> (\<forall>x\<in>set xs. deltaE (normalized (p ! idx)) (normalized (p ! x)) < 15)"
         "\<forall>x\<in>mg'. x \<in> mg \<or> (\<exists>idx. deltaE (normalized (p ! idx)) (normalized (p ! x)) < 15)"
      by blast
    have 1: "fold (dedup_step p) (i # is) (cl, mg) = (cl @ new, mg')" using a n(1) by simp
    have 2: "length new \<le> length (i # is)" using n(2) by simp
    have 3: "\<forall>c\<in>set new. \<exists>idx xs. c = idx # xs \<and> idx \<in> set (i # is)
            \<and> set xs \<subseteq> {idx + 1 ..< length p}
            \<and> (\<forall>x\<in>set xs. deltaE (normalized (p ! idx)) (normalized (p ! x)) < 15)"
      using n(3) by (metis list.set_intros(2))
    show ?thesis using 1 2 3 n(4) by blast
  next
    assume "\<exists>xs. dedup_step p i (cl, mg) = (cl @ [i # xs], mg \<union> set xs)
          \<and> i \<notin> mg
          \<and> set xs \<subseteq> {i + 1 ..< length p}
          \<and> (\<forall>x\<in>set xs. deltaE (normalized (p ! i)) (normalized (p ! x)) < 15)"
    then obtain xs where
      a: "dedup_step p i (cl, mg) = (cl @ [i # xs], mg \<union> set xs)" "i \<notin> mg"
         "set xs \<subseteq> {i + 1 ..< length p}"
         "\<forall>x\<in>set xs. deltaE (normalized (p ! i)) (normalized (p ! x)) < 15"
      by blast
    from Cons.IH [of "cl @ [i # xs]" "mg \<union> set xs"] obtain new mg' where
      n: "fold (dedup_step p) is (cl @ [i # xs], mg \<union> set xs) = ((cl @ [i # xs]) @ new, mg')"
         "length new \<le> length is"
         "\<forall>c\<in>set new. \<exists>idx xs. c = idx # xs \<and> idx \<in> set is
            \<and> set xs \<subseteq> {idx + 1 ..< length p}
            \<and> (\<forall>x\<in>set xs. deltaE (normalized (p ! idx)) (normalized (p ! x)) < 15)"
         "\<forall>x\<in>mg'. x \<in> mg \<union> set xs \<or> (\<exists>idx. deltaE (normalized (p ! idx)) (normalized (p ! x)) < 15)"
      by blast
    have 1: "fold (dedup_step p) (i # is) (cl, mg) = (cl @ ((i # xs) # new), mg')"
      using a(1) n(1) by simp
    have 2: "length ((i # xs) # new) \<le> length (i # is)" using n(2) by simp
    have 3: "\<forall>c\<in>set ((i # xs) # new). \<exists>idx xs. c = idx # xs \<and> idx \<in> set (i # is)
            \<and> set xs \<subseteq> {idx + 1 ..< length p}
            \<and> (\<forall>x\<in>set xs. deltaE (normalized (p ! idx)) (normalized (p ! x)) < 15)"
    proof
      fix c assume "c \<in> set ((i # xs) # new)"
      then consider "c = i # xs" | "c \<in> set new" by auto
      then show "\<exists>idx xs. c = idx # xs \<and> idx \<in> set (i # is)
            \<and> set xs \<subseteq> {idx + 1 ..< length p}
            \<and> (\<forall>x\<in>set xs. deltaE (normalized (p ! idx)) (normalized (p ! x)) < 15)"
      proof cases
        case 1
        then show ?thesis using a(3) a(4) by (metis list.set_intros(1))
      next
        case 2
        then show ?thesis using n(3) by (metis list.set_intros(2))
      qed
    qed
    have 4: "\<forall>x\<in>mg'. x \<in> mg \<or> (\<exists>idx. deltaE (normalized (p ! idx)) (normalized (p ! x)) < 15)"
      using n(4) a(4) by blast
    show ?thesis using 1 2 3 4 by blast
  qed
qed

subsection \<open>Size of the result and its first entry\<close>

lemma dedup_clusters_length: "length (dedup_clusters p) \<le> length p"
proof -
  from dedup_fold [of p "[0 ..< length p]" "[]" "{}"] obtain new mg' where
    "fold (dedup_step p) [0 ..< length p] ([], {}) = ([] @ new, mg')"
    "length new \<le> length [0 ..< length p]" by blast
  then show ?thesis by (simp add: dedup_clusters_def)
qed

lemma perceptuallyDeduped_length: "length (perceptuallyDeduped p) \<le> length p"
  by (simp add: perceptuallyDeduped_def dedup_clusters_length)

lemma dedup_clusters_first:
  assumes "p \<noteq> []"
  shows "\<exists>xs rest. dedup_clusters p = (0 # xs) # rest \<and> set xs \<subseteq> {1 ..< length p}"
proof -
  have up: "[0 ..< length p] = 0 # [1 ..< length p]"
    using assms by (simp add: upt_conv_Cons)
  from dedup_step_cases [of p 0 "[]" "{}"] obtain xs where
    xs: "dedup_step p 0 ([], {}) = ([] @ [0 # xs], {} \<union> set xs)"
        "set xs \<subseteq> {0 + 1 ..< length p}"
    by auto
  from dedup_fold [of p "[1 ..< length p]" "[0 # xs]" "set xs"] obtain new mg' where
    n: "fold (dedup_step p) [1 ..< length p] ([0 # xs], set xs) = ([0 # xs] @ new, mg')"
    by blast
  have "dedup_clusters p = (0 # xs) # new"
    unfolding dedup_clusters_def up using xs(1) n by simp
  then show ?thesis using xs(2) by auto
qed

lemma insort_key_min: "(\<forall>z\<in>set zs. f x \<le> f z) \<Longrightarrow> insort_key f x zs = x # zs"
  by (cases zs) simp_all

lemma sort_key_min_first:
  assumes "\<forall>y\<in>set ys. f x \<le> f y"
  shows "sort_key f (x # ys) = x # sort_key f ys"
proof -
  have "sort_key f (x # ys) = insort_key f x (sort_key f ys)" by (simp add: sort_key_def)
  moreover have "\<forall>z\<in>set (sort_key f ys). f x \<le> f z" using assms by simp
  ultimately show ?thesis by (simp add: insort_key_min)
qed

lemma best_of_first:
  assumes "sorted_wrt (\<lambda>a b. pe_count a \<ge> pe_count b) p" "set xs \<subseteq> {1 ..< length p}"
  shows "best_of p (0 # xs) = p ! 0"
proof -
  have "\<forall>y\<in>set (map (\<lambda>i. p ! i) xs). - int (pe_count (p ! 0)) \<le> - int (pe_count y)"
  proof
    fix y assume "y \<in> set (map (\<lambda>i. p ! i) xs)"
    then obtain x where x: "x \<in> set xs" "y = p ! x" by auto
    then have "0 < x" "x < length p" using assms(2) by auto
    then have "pe_count (p ! 0) \<ge> pe_count (p ! x)"
      using assms(1) by (simp add: sorted_wrt_iff_nth_less)
    then show "- int (pe_count (p ! 0)) \<le> - int (pe_count y)" using x(2) by simp
  qed
  then have "sort_key (\<lambda>e. - int (pe_count e)) (p ! 0 # map (\<lambda>i. p ! i) xs)
               = p ! 0 # sort_key (\<lambda>e. - int (pe_count e)) (map (\<lambda>i. p ! i) xs)"
    by (rule sort_key_min_first)
  then show ?thesis by (simp add: best_of_def sort_by_count_desc_def)
qed

lemma perceptuallyDeduped_first:
  assumes "sorted_wrt (\<lambda>a b. pe_count a \<ge> pe_count b) p" "p \<noteq> []"
  shows "hd (perceptuallyDeduped p) = hd p" "perceptuallyDeduped p \<noteq> []"
proof -
  from dedup_clusters_first [OF assms(2)] obtain xs rest where
    c: "dedup_clusters p = (0 # xs) # rest" "set xs \<subseteq> {1 ..< length p}" by blast
  have "perceptuallyDeduped p = p ! 0 # map (best_of p) rest"
    using c best_of_first [OF assms(1) c(2)] by (simp add: perceptuallyDeduped_def)
  then show "hd (perceptuallyDeduped p) = hd p" "perceptuallyDeduped p \<noteq> []"
    using assms(2) by (simp_all add: hd_conv_nth)
qed

lemma palette_of_sorted: "sorted_wrt (\<lambda>a b. pe_count a \<ge> pe_count b) (palette_of m t)"
proof -
  define xs where "xs = palette_of m t"
  have "sorted (map (\<lambda>e. - int (pe_count e)) xs)"
    unfolding xs_def palette_of_def sort_by_count_desc_def by (rule sorted_sort_key)
  then have "sorted_wrt (\<lambda>a b. - int (pe_count a) \<le> - int (pe_count b)) xs"
    by (simp add: sorted_map)
  then show ?thesis unfolding xs_def by simp
qed

text \<open>
  C3. On a palette sorted by count, descending, perceptual deduplication returns a list
  that is no longer than the palette, and the first entry of the palette is in the result
  (it is its first entry).
\<close>

theorem C3_dedup_size_and_top:
  "sorted_wrt (\<lambda>a b. pe_count a \<ge> pe_count b) palette \<Longrightarrow>
     length (perceptuallyDeduped palette) \<le> length palette
     \<and> (palette \<noteq> [] \<longrightarrow> hd palette \<in> set (perceptuallyDeduped palette)
                          \<and> hd (perceptuallyDeduped palette) = hd palette)"
  using perceptuallyDeduped_length perceptuallyDeduped_first
  by (metis list.set_sel(1))

subsection \<open>Entries that do not parse\<close>

lemma unparsed_singleton:
  assumes i: "i < length p" and bad: "hexToRgb (normalized (p ! i)) = None"
  shows "\<exists>new1 new2. dedup_clusters p = new1 @ [[i]] @ new2
           \<and> (\<forall>c\<in>set new1. i \<notin> set c) \<and> (\<forall>c\<in>set new2. i \<notin> set c)"
proof -
  have far: "\<And>idx. \<not> deltaE (normalized (p ! idx)) (normalized (p ! i)) < 15"
    "\<And>x. \<not> deltaE (normalized (p ! i)) (normalized (p ! x)) < 15"
    using bad deltaE_unparsed_not_close by blast+
  have "[0 ..< i + (length p - i)] = [0 ..< i] @ [i ..< i + (length p - i)]"
    by (rule upt_add_eq_append) simp
  moreover have "[i ..< length p] = i # [i + 1 ..< length p]"
    using i by (simp add: upt_conv_Cons)
  ultimately have up: "[0 ..< length p] = [0 ..< i] @ i # [i + 1 ..< length p]"
    using i by simp
  from dedup_fold [of p "[0 ..< i]" "[]" "{}"] obtain new1 mg1 where
    n1: "fold (dedup_step p) [0 ..< i] ([], {}) = ([] @ new1, mg1)"
        "\<forall>c\<in>set new1. \<exists>idx xs. c = idx # xs \<and> idx \<in> set [0 ..< i]
            \<and> set xs \<subseteq> {idx + 1 ..< length p}
            \<and> (\<forall>x\<in>set xs. deltaE (normalized (p ! idx)) (normalized (p ! x)) < 15)"
        "\<forall>x\<in>mg1. x \<in> {} \<or> (\<exists>idx. deltaE (normalized (p ! idx)) (normalized (p ! x)) < 15)"
    by blast
  have m1: "i \<notin> mg1" using n1(3) far(1) by blast
  have c1: "\<forall>c\<in>set new1. i \<notin> set c"
  proof
    fix c assume "c \<in> set new1"
    then obtain idx xs where c: "c = idx # xs" "idx \<in> set [0 ..< i]"
      "\<forall>x\<in>set xs. deltaE (normalized (p ! idx)) (normalized (p ! x)) < 15"
      using n1(2) by blast
    have "idx \<noteq> i" using c(2) by simp
    moreover have "i \<notin> set xs" using c(3) far(1) by blast
    ultimately show "i \<notin> set c" using c(1) by simp
  qed
  from dedup_step_cases [of p i new1 mg1] m1 obtain xs where
    s: "dedup_step p i (new1, mg1) = (new1 @ [i # xs], mg1 \<union> set xs)"
       "\<forall>x\<in>set xs. deltaE (normalized (p ! i)) (normalized (p ! x)) < 15"
    by blast
  have xs: "xs = []"
  proof (cases xs)
    case Nil
    then show ?thesis .
  next
    case (Cons y ys)
    then have "deltaE (normalized (p ! i)) (normalized (p ! y)) < 15" using s(2) by simp
    then show ?thesis using far(2) by simp
  qed
  from dedup_fold [of p "[i + 1 ..< length p]" "new1 @ [[i]]" mg1] obtain new2 mg2 where
    n2: "fold (dedup_step p) [i + 1 ..< length p] (new1 @ [[i]], mg1) = ((new1 @ [[i]]) @ new2, mg2)"
        "\<forall>c\<in>set new2. \<exists>idx xs. c = idx # xs \<and> idx \<in> set [i + 1 ..< length p]
            \<and> set xs \<subseteq> {idx + 1 ..< length p}
            \<and> (\<forall>x\<in>set xs. deltaE (normalized (p ! idx)) (normalized (p ! x)) < 15)"
    by blast
  have c2: "\<forall>c\<in>set new2. i \<notin> set c"
  proof
    fix c assume "c \<in> set new2"
    then obtain idx xs where c: "c = idx # xs" "idx \<in> set [i + 1 ..< length p]"
      "\<forall>x\<in>set xs. deltaE (normalized (p ! idx)) (normalized (p ! x)) < 15"
      using n2(2) by blast
    have "idx \<noteq> i" using c(2) by simp
    moreover have "i \<notin> set xs" using c(3) far(1) by blast
    ultimately show "i \<notin> set c" using c(1) by simp
  qed
  have "dedup_clusters p = new1 @ [[i]] @ new2"
    unfolding dedup_clusters_def up using n1(1) s(1) xs n2(1) by simp
  then show ?thesis using c1 c2 by blast
qed

lemma best_of_singleton: "best_of p [i] = p ! i"
  by (simp add: best_of_def sort_by_count_desc_def)

lemma unparsed_survives:
  assumes "i < length p" "hexToRgb (normalized (p ! i)) = None"
  shows "[i] \<in> set (dedup_clusters p)"
    and "\<forall>c\<in>set (dedup_clusters p). i \<in> set c \<longrightarrow> c = [i]"
    and "p ! i \<in> set (perceptuallyDeduped p)"
proof -
  from unparsed_singleton [OF assms] obtain new1 new2 where
    d: "dedup_clusters p = new1 @ [[i]] @ new2"
       "\<forall>c\<in>set new1. i \<notin> set c" "\<forall>c\<in>set new2. i \<notin> set c" by blast
  show 1: "[i] \<in> set (dedup_clusters p)" using d(1) by simp
  show "\<forall>c\<in>set (dedup_clusters p). i \<in> set c \<longrightarrow> c = [i]"
    using d by auto
  have "best_of p [i] \<in> set (perceptuallyDeduped p)"
    using 1 by (simp add: perceptuallyDeduped_def)
  then show "p ! i \<in> set (perceptuallyDeduped p)" by (simp add: best_of_singleton)
qed

subsection \<open>CSS variables after the palette\<close>

lemma cssVar_not_duplicate: "hexToRgb nrm = None \<Longrightarrow> \<not> cssVar_isDuplicate deduped nrm"
  using deltaE_unparsed_not_close by (auto simp: cssVar_isDuplicate_def list_ex_iff)

lemma map_set_replace_keys: "map fst (map (\<lambda>kv. if fst kv = k then (k, v) else kv) m) = map fst m"
  by (induction m) auto

lemma cssVar_step_fails: "\<not> cssVar_passes deduped (normalizeColor (snd q)) \<Longrightarrow> cssVar_step deduped q m = m"
  by (auto simp add: cssVar_step_def cssVar_passes_def Let_def)

lemma cssVar_step_new:
  "cssVar_passes deduped (normalizeColor (snd q)) \<Longrightarrow> normalizeColor (snd q) \<notin> fst ` set m \<Longrightarrow>
     cssVar_step deduped q m = m @ [(normalizeColor (snd q), snd q, [fst q])]"
proof -
  assume p: "cssVar_passes deduped (normalizeColor (snd q))"
    and n: "normalizeColor (snd q) \<notin> fst ` set m"
  have "map_of m (normalizeColor (snd q)) = None" using n by (simp add: map_of_eq_None_iff)
  then show ?thesis using p by (simp add: cssVar_step_def cssVar_passes_def Let_def)
qed

lemma cssVar_step_old:
  assumes "cssVar_passes deduped (normalizeColor (snd q))" "distinct (map fst m)"
    "(normalizeColor (snd q), v, vars) \<in> set m"
  shows "cssVar_step deduped q m
     = map (\<lambda>kv. if fst kv = normalizeColor (snd q)
                  then (normalizeColor (snd q), v, vars @ [fst q]) else kv) m"
proof -
  have "map_of m (normalizeColor (snd q)) = Some (v, vars)"
    using assms(2,3) by simp
  moreover have "normalizeColor (snd q) \<in> set (map fst m)"
    using assms(3) by force
  ultimately show ?thesis
    using assms(1) by (simp add: cssVar_step_def cssVar_passes_def Let_def map_set_def)
qed

lemma same_color_snoc:
  "same_color n (L @ [q]) = (if normalizeColor (snd q) = n then same_color n L @ [q] else same_color n L)"
  by (simp add: same_color_def)

lemma cssVars_inv_step:
  assumes inv: "cssVars_inv deduped L m"
  shows "cssVars_inv deduped (L @ [q]) (cssVar_step deduped q m)"
proof -
  define n0 where "n0 = normalizeColor (snd q)"
  note I = inv [unfolded cssVars_inv_def]
  have d: "distinct (map fst m)" using I by blast
  have e: "\<And>e. e \<in> set m \<Longrightarrow> cssVar_passes deduped (fst e) \<and> same_color (fst e) L \<noteq> []
             \<and> snd (snd e) = map fst (same_color (fst e) L)
             \<and> fst (snd e) = snd (hd (same_color (fst e) L))" using I by blast
  have k: "\<And>q'. q' \<in> set L \<Longrightarrow> cssVar_passes deduped (normalizeColor (snd q'))
             \<Longrightarrow> normalizeColor (snd q') \<in> fst ` set m" using I by blast
  show ?thesis
  proof (cases "cssVar_passes deduped n0")
    case False
    have s: "cssVar_step deduped q m = m"
      using False cssVar_step_fails unfolding n0_def by blast
    have "same_color (fst e) (L @ [q]) = same_color (fst e) L" if "e \<in> set m" for e
      using e [OF that] False unfolding same_color_snoc n0_def by auto
    then show ?thesis
      unfolding s cssVars_inv_def using d e k False unfolding n0_def by auto
  next
    case True
    show ?thesis
    proof (cases "n0 \<in> fst ` set m")
      case F2: False
      have s: "cssVar_step deduped q m = m @ [(n0, snd q, [fst q])]"
        using cssVar_step_new True F2 unfolding n0_def by blast
      have empty: "same_color n0 L = []"
      proof (rule ccontr)
        assume "same_color n0 L \<noteq> []"
        then obtain q' where "q' \<in> set L" "normalizeColor (snd q') = n0"
          unfolding same_color_def by (metis (mono_tags, lifting) filter_False)
        then show False using k True F2 by blast
      qed
      have old: "same_color (fst e) (L @ [q]) = same_color (fst e) L" if "e \<in> set m" for e
      proof -
        have "fst e \<noteq> n0" using that F2 by force
        then show ?thesis unfolding same_color_snoc n0_def by simp
      qed
      have new: "same_color n0 (L @ [q]) = [q]"
        unfolding same_color_snoc using empty n0_def by simp
      have 1: "distinct (map fst (m @ [(n0, snd q, [fst q])]))"
        using d F2 by simp
      have 2: "\<forall>e \<in> set (m @ [(n0, snd q, [fst q])]).
             cssVar_passes deduped (fst e) \<and> same_color (fst e) (L @ [q]) \<noteq> []
             \<and> snd (snd e) = map fst (same_color (fst e) (L @ [q]))
             \<and> fst (snd e) = snd (hd (same_color (fst e) (L @ [q])))"
        using e old new True by auto
      have 3: "\<forall>q' \<in> set (L @ [q]). cssVar_passes deduped (normalizeColor (snd q'))
             \<longrightarrow> normalizeColor (snd q') \<in> fst ` set (m @ [(n0, snd q, [fst q])])"
        using k n0_def by auto
      show ?thesis unfolding s cssVars_inv_def using 1 2 3 by blast
    next
      case T2: True
      then obtain v vars where mem: "(n0, v, vars) \<in> set m" by force
      define m' where "m' = map (\<lambda>kv. if fst kv = n0 then (n0, v, vars @ [fst q]) else kv) m"
      have s: "cssVar_step deduped q m = m'"
        unfolding m'_def using cssVar_step_old [OF _ d, of deduped q v vars] True mem
        unfolding n0_def by blast
      have keys: "map fst m' = map fst m" unfolding m'_def by (rule map_set_replace_keys)
      have 1: "distinct (map fst m')" using d keys by simp
      have old: "same_color (fst e) (L @ [q]) = same_color (fst e) L" if "fst e \<noteq> n0" for e
        using that unfolding same_color_snoc n0_def by simp
      have new: "same_color n0 (L @ [q]) = same_color n0 L @ [q]"
        unfolding same_color_snoc using n0_def by simp
      have 2: "cssVar_passes deduped (fst e') \<and> same_color (fst e') (L @ [q]) \<noteq> []
             \<and> snd (snd e') = map fst (same_color (fst e') (L @ [q]))
             \<and> fst (snd e') = snd (hd (same_color (fst e') (L @ [q])))" if "e' \<in> set m'" for e'
      proof -
        have "e' \<in> (\<lambda>kv. if fst kv = n0 then (n0, v, vars @ [fst q]) else kv) ` set m"
          using that unfolding m'_def by simp
        then obtain e0 where e0: "e0 \<in> set m"
          "e' = (if fst e0 = n0 then (n0, v, vars @ [fst q]) else e0)"
          by (rule imageE) blast
        show ?thesis
        proof (cases "fst e0 = n0")
          case False
          then show ?thesis using e0 e [OF e0(1)] old [of e0] by simp
        next
          case T3: True
          have "vars = map fst (same_color n0 L)" "v = snd (hd (same_color n0 L))"
            "same_color n0 L \<noteq> []"
            using e [OF mem] by simp_all
          then show ?thesis using e0 T3 True new by simp
        qed
      qed
      have 3: "\<forall>q' \<in> set (L @ [q]). cssVar_passes deduped (normalizeColor (snd q'))
             \<longrightarrow> normalizeColor (snd q') \<in> fst ` set m'"
      proof -
        have "fst ` set m' = fst ` set m" using keys by (metis set_map)
        then show ?thesis using k T2 n0_def by auto
      qed
      show ?thesis unfolding s cssVars_inv_def using 1 2 3 by blast
    qed
  qed
qed

lemma cssVars_inv: "cssVars_inv deduped L (cssVarsByColor deduped L)"
  unfolding cssVarsByColor_def
proof (induction L rule: rev_induct)
  case Nil
  show ?case by (simp add: cssVars_inv_def)
next
  case (snoc q L)
  show ?case using cssVars_inv_step [OF snoc] by simp
qed


lemma fold_filtered:
  assumes "distinct (map fst acc @ map (\<lambda>e. first_var (snd (snd e))) m)"
  shows "fold filtered_step m acc = acc @ map (\<lambda>e. (first_var (snd (snd e)), fst (snd e))) m"
  using assms
proof (induction m arbitrary: acc)
  case Nil
  show ?case by simp
next
  case (Cons e m)
  obtain n v vars where e: "e = (n, v, vars)" by (cases e) auto
  have "first_var vars \<notin> set (map fst acc)" using Cons.prems e by auto
  then have s: "filtered_step e acc = acc @ [(first_var vars, v)]"
    by (simp add: filtered_step_def e map_set_def)
  have "distinct (map fst (acc @ [(first_var vars, v)]) @ map (\<lambda>e. first_var (snd (snd e))) m)"
    using Cons.prems e by auto
  then have "fold filtered_step m (acc @ [(first_var vars, v)])
     = (acc @ [(first_var vars, v)]) @ map (\<lambda>e. (first_var (snd (snd e)), fst (snd e))) m"
    by (rule Cons.IH)
  then show ?case using s by (simp add: e)
qed

lemma hd_filter_mem: "filter P xs \<noteq> [] \<Longrightarrow> hd (filter P xs) \<in> set xs \<and> P (hd (filter P xs))"
  by (metis hd_in_set mem_Collect_eq set_filter)

lemma first_var_map: "xs \<noteq> [] \<Longrightarrow> first_var (map f xs) = f (hd xs)"
  by (cases xs) (simp_all add: first_var_def)

text \<open>
  With distinct variable names, the variables reported are the first ones of each
  normalised colour that passes the tests, each with its own value.
\<close>

lemma filtered_set:
  assumes "distinct (map fst L)"
  shows "set (filteredCssVariables deduped L)
     = (\<lambda>e. hd (same_color (fst e) L)) ` set (cssVarsByColor deduped L)"
proof -
  define m where "m = cssVarsByColor deduped L"
  define rep where "rep = (\<lambda>e :: string \<times> string \<times> string list. hd (same_color (fst e) L))"
  note I = cssVars_inv [of deduped L, unfolded cssVars_inv_def, folded m_def]
  have d: "distinct (map fst m)" using I by blast
  have e: "\<And>e. e \<in> set m \<Longrightarrow> same_color (fst e) L \<noteq> []
             \<and> snd (snd e) = map fst (same_color (fst e) L)
             \<and> fst (snd e) = snd (hd (same_color (fst e) L))" using I by blast
  have r: "(first_var (snd (snd e)), fst (snd e)) = rep e" if "e \<in> set m" for e
    using e [OF that] by (simp add: first_var_map rep_def)
  have rep_in: "rep e \<in> set L \<and> normalizeColor (snd (rep e)) = fst e" if "e \<in> set m" for e
    using e [OF that] hd_filter_mem [of "\<lambda>pv. normalizeColor (snd pv) = fst e" L]
    unfolding rep_def same_color_def by blast
  have inj: "inj_on (\<lambda>e. first_var (snd (snd e))) (set m)"
  proof (rule inj_onI)
    fix e1 e2 assume m12: "e1 \<in> set m" "e2 \<in> set m"
      and eq: "first_var (snd (snd e1)) = first_var (snd (snd e2))"
    have "fst (rep e1) = fst (rep e2)" using eq r [OF m12(1)] r [OF m12(2)] by (metis fst_conv)
    then have "rep e1 = rep e2"
      using rep_in [OF m12(1)] rep_in [OF m12(2)] assms by (meson distinct_map inj_onD)
    then have "fst e1 = fst e2" using rep_in [OF m12(1)] rep_in [OF m12(2)] by metis
    then show "e1 = e2" using d m12 by (meson distinct_map inj_onD)
  qed
  have "distinct m" using d by (simp add: distinct_map)
  then have "distinct (map (\<lambda>e. first_var (snd (snd e))) m)" using inj by (simp add: distinct_map)
  then have "fold filtered_step m [] = [] @ map (\<lambda>e. (first_var (snd (snd e)), fst (snd e))) m"
    by (intro fold_filtered) simp
  then have "filteredCssVariables deduped L = map (\<lambda>e. (first_var (snd (snd e)), fst (snd e))) m"
    by (simp add: filteredCssVariables_def m_def)
  also have "\<dots> = map rep m" using r by (simp cong: map_cong)
  finally show ?thesis by (simp add: rep_def m_def)
qed

lemma same_color_empty:
  "same_color n xs = [] \<longleftrightarrow> n \<notin> set (map (\<lambda>q. normalizeColor (snd q)) xs)"
  by (auto simp add: same_color_def filter_empty_conv)

lemma filtered_member:
  assumes "distinct (map fst (pre @ pv # post))"
  shows "pv \<in> set (filteredCssVariables deduped (pre @ pv # post))
     \<longleftrightarrow> cssVar_passes deduped (normalizeColor (snd pv))
          \<and> normalizeColor (snd pv) \<notin> set (map (\<lambda>q. normalizeColor (snd q)) pre)"
proof -
  define L where "L = pre @ pv # post"
  define m where "m = cssVarsByColor deduped L"
  note I = cssVars_inv [of deduped L, unfolded cssVars_inv_def, folded m_def]
  have e: "\<And>e. e \<in> set m \<Longrightarrow> cssVar_passes deduped (fst e) \<and> same_color (fst e) L \<noteq> []"
    using I by blast
  have k: "\<And>q'. q' \<in> set L \<Longrightarrow> cssVar_passes deduped (normalizeColor (snd q'))
             \<Longrightarrow> normalizeColor (snd q') \<in> fst ` set m" using I by blast
  have split: "same_color n L = same_color n pre @
      (if normalizeColor (snd pv) = n then pv # same_color n post else same_color n post)" for n
    by (simp add: same_color_def L_def)
  have notin: "pv \<notin> set pre" using assms by auto
  have dL: "distinct (map fst L)" using assms by (simp only: L_def)
  have set_eq: "set (filteredCssVariables deduped L) = (\<lambda>e. hd (same_color (fst e) L)) ` set m"
    unfolding m_def by (rule filtered_set [OF dL])
  have "pv \<in> set (filteredCssVariables deduped L)
     \<longleftrightarrow> cssVar_passes deduped (normalizeColor (snd pv))
          \<and> normalizeColor (snd pv) \<notin> set (map (\<lambda>q. normalizeColor (snd q)) pre)"
  proof
    assume "pv \<in> set (filteredCssVariables deduped L)"
    then have "pv \<in> (\<lambda>e. hd (same_color (fst e) L)) ` set m" by (simp only: set_eq)
    then obtain e0 where e0: "e0 \<in> set m" "pv = hd (same_color (fst e0) L)"
      by (rule imageE) blast
    have ne: "same_color (fst e0) L \<noteq> []" and ps: "cssVar_passes deduped (fst e0)"
      using e [OF e0(1)] by blast+
    have "normalizeColor (snd (hd (same_color (fst e0) L))) = fst e0"
      using hd_filter_mem [of "\<lambda>pv. normalizeColor (snd pv) = fst e0" L] ne
      unfolding same_color_def by blast
    then have n: "normalizeColor (snd pv) = fst e0" by (simp only: e0(2))
    have "same_color (fst e0) pre = []"
    proof (rule ccontr)
      assume a: "same_color (fst e0) pre \<noteq> []"
      then have "hd (same_color (fst e0) L) = hd (same_color (fst e0) pre)"
        unfolding split by simp
      moreover have "hd (same_color (fst e0) pre) \<in> set pre"
        using a hd_filter_mem [of "\<lambda>pv. normalizeColor (snd pv) = fst e0" pre]
        unfolding same_color_def by blast
      ultimately have "pv \<in> set pre" by (simp only: e0(2))
      then show False using notin by contradiction
    qed
    then have "fst e0 \<notin> set (map (\<lambda>q. normalizeColor (snd q)) pre)"
      using same_color_empty [of "fst e0" pre] by blast
    then show "cssVar_passes deduped (normalizeColor (snd pv))
          \<and> normalizeColor (snd pv) \<notin> set (map (\<lambda>q. normalizeColor (snd q)) pre)"
      using ps unfolding n by (rule_tac conjI)
  next
    assume a: "cssVar_passes deduped (normalizeColor (snd pv))
          \<and> normalizeColor (snd pv) \<notin> set (map (\<lambda>q. normalizeColor (snd q)) pre)"
    have "pv \<in> set L" by (simp add: L_def)
    then have "normalizeColor (snd pv) \<in> fst ` set m" using k a by blast
    then obtain e0 where e0: "e0 \<in> set m" "normalizeColor (snd pv) = fst e0"
      by (rule imageE) blast
    have "same_color (fst e0) pre = []"
      using a same_color_empty [of "fst e0" pre] unfolding e0(2) by blast
    then have "hd (same_color (fst e0) L) = pv" unfolding split using e0(2) by simp
    then have "pv \<in> (\<lambda>e. hd (same_color (fst e) L)) ` set m" using e0(1) by (metis imageI)
    then show "pv \<in> set (filteredCssVariables deduped L)" by (simp only: set_eq)
  qed
  then show ?thesis by (simp only: L_def)
qed

text \<open>
  C10 (amended). The distance to or from a colour text that is not \<open>#\<close> and six
  hexadecimal digits is 999. A palette entry with such a normalised text is never merged:
  its cluster is the entry alone, no other cluster holds it, and it is in the deduplicated
  palette. A CSS variable with such a normalised value is never dropped by the distance
  test; among variables with distinct names it is reported, under its own name and with
  its own value, exactly when its normalised value is not the normalised colour of a
  palette entry and no earlier variable has the same normalised value.
\<close>

theorem C10_unparsed_amended:
  "(hexToRgb a = None \<or> hexToRgb b = None \<longrightarrow> deltaE a b = 999)
   \<and> (i < length palette \<and> hexToRgb (normalized (palette ! i)) = None \<longrightarrow>
        [i] \<in> set (dedup_clusters palette)
        \<and> (\<forall>c\<in>set (dedup_clusters palette). i \<in> set c \<longrightarrow> c = [i])
        \<and> palette ! i \<in> set (perceptuallyDeduped palette))
   \<and> (hexToRgb (normalizeColor (snd pv)) = None \<and> distinct (map fst (pre @ pv # post)) \<longrightarrow>
        \<not> cssVar_isDuplicate deduped (normalizeColor (snd pv))
        \<and> (pv \<in> set (filteredCssVariables deduped (pre @ pv # post))
             \<longleftrightarrow> normalizeColor (snd pv) \<notin> set (map normalized deduped)
                  \<and> normalizeColor (snd pv) \<notin> set (map (\<lambda>q. normalizeColor (snd q)) pre)))"
  using deltaE_unparseable [of a b] unparsed_survives [of i palette]
    cssVar_not_duplicate [of "normalizeColor (snd pv)" deduped]
    filtered_member [of pre pv post deduped]
  unfolding cssVar_passes_def by blast

subsection \<open>A palette of three entries\<close>

lemmas hex_defs = hexToRgb_def optional_char_def is_hex_digit_def is_digit_def parseInt16_def
  hex_value_def hex_digit_val_def

lemma hex_6366f1: "hexToRgb ''#6366f1'' = Some (99, 102, 241)"
  by (simp add: hex_defs)

lemma hex_6467f2: "hexToRgb ''#6467f2'' = Some (100, 103, 242)"
  by (simp add: hex_defs)

lemma hex_red: "hexToRgb ''red'' = None"
  by (simp add: hex_defs)

lemma hex_short: "hexToRgb ''#fff'' = None"
  by (simp add: hex_defs)

lemma close_example: "deltaE ''#6366f1'' ''#6467f2'' < 15"
  by (simp add: deltaE_parsed [OF hex_6366f1 hex_6467f2])

lemma far_example: "\<not> deltaE ''#6366f1'' ''red'' < 15" "\<not> deltaE ''#6467f2'' ''red'' < 15"
  using hex_red deltaE_unparsed_not_close by blast+

lemma upt_3: "[0 ..< 3] = [0, 1, 2]" "[Suc 0 ..< 3] = [1, 2]" "[2 ..< 3] = [2]" "[3 ..< 3] = []"
  by (simp_all add: upt_rec)

lemma dedup_example:
  "perceptuallyDeduped
     [\<lparr>pe_color = ''rgb(99, 102, 241)'', normalized = ''#6366f1'', pe_count = 10,
        confidence = ''high'', sources = []\<rparr>,
      \<lparr>pe_color = ''rgb(100, 103, 242)'', normalized = ''#6467f2'', pe_count = 5,
        confidence = ''low'', sources = []\<rparr>,
      \<lparr>pe_color = ''red'', normalized = ''red'', pe_count = 3,
        confidence = ''low'', sources = []\<rparr>]
   = [\<lparr>pe_color = ''rgb(99, 102, 241)'', normalized = ''#6366f1'', pe_count = 10,
        confidence = ''high'', sources = []\<rparr>,
      \<lparr>pe_color = ''red'', normalized = ''red'', pe_count = 3,
        confidence = ''low'', sources = []\<rparr>]"
  by (simp add: perceptuallyDeduped_def dedup_clusters_def dedup_step_def similar_step_def
      best_of_def sort_by_count_desc_def upt_3 close_example far_example)

theorem C3_dedup_witness:
  "sorted_wrt (\<lambda>a b. pe_count a \<ge> pe_count b)
     [\<lparr>pe_color = ''rgb(99, 102, 241)'', normalized = ''#6366f1'', pe_count = 10,
        confidence = ''high'', sources = []\<rparr>,
      \<lparr>pe_color = ''rgb(100, 103, 242)'', normalized = ''#6467f2'', pe_count = 5,
        confidence = ''low'', sources = []\<rparr>,
      \<lparr>pe_color = ''red'', normalized = ''red'', pe_count = 3,
        confidence = ''low'', sources = []\<rparr>]
   \<and> length (perceptuallyDeduped
     [\<lparr>pe_color = ''rgb(99, 102, 241)'', normalized = ''#6366f1'', pe_count = 10,
        confidence = ''high'', sources = []\<rparr>,
      \<lparr>pe_color = ''rgb(100, 103, 242)'', normalized = ''#6467f2'', pe_count = 5,
        confidence = ''low'', sources = []\<rparr>,
      \<lparr>pe_color = ''red'', normalized = ''red'', pe_count = 3,
        confidence = ''low'', sources = []\<rparr>]) \<le> 3
   \<and> \<lparr>pe_color = ''rgb(99, 102, 241)'', normalized = ''#6366f1'', pe_count = 10,
        confidence = ''high'', sources = []\<rparr>
       \<in> set (perceptuallyDeduped
     [\<lparr>pe_color = ''rgb(99, 102, 241)'', normalized = ''#6366f1'', pe_count = 10,
        confidence = ''high'', sources = []\<rparr>,
      \<lparr>pe_color = ''rgb(100, 103, 242)'', normalized = ''#6467f2'', pe_count = 5,
        confidence = ''low'', sources = []\<rparr>,
      \<lparr>pe_color = ''red'', normalized = ''red'', pe_count = 3,
        confidence = ''low'', sources = []\<rparr>])"
proof -
  have h: "sorted_wrt (\<lambda>a b. pe_count a \<ge> pe_count b)
     [\<lparr>pe_color = ''rgb(99, 102, 241)'', normalized = ''#6366f1'', pe_count = 10,
        confidence = ''high'', sources = []\<rparr>,
      \<lparr>pe_color = ''rgb(100, 103, 242)'', normalized = ''#6467f2'', pe_count = 5,
        confidence = ''low'', sources = []\<rparr>,
      \<lparr>pe_color = ''red'', normalized = ''red'', pe_count = 3,
        confidence = ''low'', sources = []\<rparr>]"
    by simp
  show ?thesis using h C3_dedup_size_and_top [OF h] by simp
qed

subsection \<open>CSS variables that are not reported\<close>

lemma norm_8px: "normalizeColor ''8px'' = ''8px''"
  by (simp add: normalizeColor_def match_defs toLowerCase_def lower_defs)

lemma norm_srgb: "normalizeColor ''color(srgb 1 0 0)'' = ''color(srgb 1 0 0)''"
  by (simp add: normalizeColor_def match_defs toLowerCase_def lower_defs)

lemma hex_8px: "hexToRgb ''8px'' = None" "hexToRgb ''color(srgb 1 0 0)'' = None"
  by (simp_all add: hex_defs)

lemma gap_pad_vars:
  "cssVarsByColor [] [(''--gap'', ''8px''), (''--pad'', ''8px'')]
     = [(''8px'', ''8px'', [''--gap'', ''--pad''])]"
  by (simp add: cssVarsByColor_def cssVar_step_def Let_def norm_8px cssVar_isDuplicate_def
      map_set_def)

lemma brand_vars:
  "cssVarsByColor
     [\<lparr>pe_color = ''color(srgb 1 0 0)'', normalized = ''color(srgb 1 0 0)'', pe_count = 5,
        confidence = ''medium'', sources = []\<rparr>]
     [(''--brand'', ''color(srgb 1 0 0)'')] = []"
  by (simp add: cssVarsByColor_def cssVar_step_def Let_def norm_srgb)

text \<open>
  Two variables with the value \<open>8px\<close>, which is not a hexadecimal colour: only the first
  is reported. A variable whose value is the normalised colour of a palette entry is not
  reported at all.
\<close>

theorem C10_unparsed_counterexample:
  "hexToRgb (normalizeColor ''8px'') = None
   \<and> filteredCssVariables [] [(''--gap'', ''8px''), (''--pad'', ''8px'')] = [(''--gap'', ''8px'')]
   \<and> hexToRgb (normalizeColor ''color(srgb 1 0 0)'') = None
   \<and> filteredCssVariables
       [\<lparr>pe_color = ''color(srgb 1 0 0)'', normalized = ''color(srgb 1 0 0)'', pe_count = 5,
          confidence = ''medium'', sources = []\<rparr>]
       [(''--brand'', ''color(srgb 1 0 0)'')] = []"
  by (simp add: filteredCssVariables_def gap_pad_vars brand_vars norm_8px norm_srgb hex_8px
      filtered_step_def first_var_def map_set_def)

theorem C10_unparsed_witness:
  "(2::nat) < length
     [\<lparr>pe_color = ''rgb(99, 102, 241)'', normalized = ''#6366f1'', pe_count = 10,
        confidence = ''high'', sources = []\<rparr>,
      \<lparr>pe_color = ''rgb(100, 103, 242)'', normalized = ''#6467f2'', pe_count = 5,
        confidence = ''low'', sources = []\<rparr>,
      \<lparr>pe_color = ''red'', normalized = ''red'', pe_count = 3,
        confidence = ''low'', sources = []\<rparr>]
   \<and> hexToRgb ''red'' = None
   \<and> deltaE ''#6366f1'' ''red'' = 999
   \<and> [2] \<in> set (dedup_clusters
     [\<lparr>pe_color = ''rgb(99, 102, 241)'', normalized = ''#6366f1'', pe_count = 10,
        confidence = ''high'', sources = []\<rparr>,
      \<lparr>pe_color = ''rgb(100, 103, 242)'', normalized = ''#6467f2'', pe_count = 5,
        confidence = ''low'', sources = []\<rparr>,
      \<lparr>pe_color = ''red'', normalized = ''red'', pe_count = 3,
        confidence = ''low'', sources = []\<rparr>])
   \<and> \<lparr>pe_color = ''red'', normalized = ''red'', pe_count = 3,
        confidence = ''low'', sources = []\<rparr>
       \<in> set (perceptuallyDeduped
     [\<lparr>pe_color = ''rgb(99, 102, 241)'', normalized = ''#6366f1'', pe_count = 10,
        confidence = ''high'', sources = []\<rparr>,
      \<lparr>pe_color = ''rgb(100, 103, 242)'', normalized = ''#6467f2'', pe_count = 5,
        confidence = ''low'', sources = []\<rparr>,
      \<lparr>pe_color = ''red'', normalized = ''red'', pe_count = 3,
        confidence = ''low'', sources = []\<rparr>])
   \<and> normalizeColor ''red'' = ''red''
   \<and> \<not> cssVar_isDuplicate
       [\<lparr>pe_color = ''rgb(99, 102, 241)'', normalized = ''#6366f1'', pe_count = 10,
        confidence = ''high'', sources = []\<rparr>] ''red''
   \<and> distinct (map fst [(''--accent'', ''red''), (''--danger'', ''RED'')])
   \<and> (''--accent'', ''red'') \<in> set (filteredCssVariables
       [\<lparr>pe_color = ''rgb(99, 102, 241)'', normalized = ''#6366f1'', pe_count = 10,
        confidence = ''high'', sources = []\<rparr>]
       [(''--accent'', ''red''), (''--danger'', ''RED'')])"
proof -
  have n: "normalizeColor ''red'' = ''red''"
    by (simp add: normalizeColor_def rgbaMatch_def hslMatch_def rgba_at_def hsla_at_def expect_str_def toLowerCase_def lower_defs)
  show ?thesis
    using C10_unparsed_amended [of "''#6366f1''" "''red''" 2
      "[\<lparr>pe_color = ''rgb(99, 102, 241)'', normalized = ''#6366f1'', pe_count = 10,
        confidence = ''high'', sources = []\<rparr>,
      \<lparr>pe_color = ''rgb(100, 103, 242)'', normalized = ''#6467f2'', pe_count = 5,
        confidence = ''low'', sources = []\<rparr>,
      \<lparr>pe_color = ''red'', normalized = ''red'', pe_count = 3,
        confidence = ''low'', sources = []\<rparr>]"
      "(''--accent'', ''red'')" "[]" "[(''--danger'', ''RED'')]"
      "[\<lparr>pe_color = ''rgb(99, 102, 241)'', normalized = ''#6366f1'', pe_count = 10,
        confidence = ''high'', sources = []\<rparr>]"] hex_red n
    by simp
qed

subsection \<open>The threshold on a page with hidden elements\<close>

lemma palette_of_above_threshold:
  "e \<in> set (palette_of m t) \<Longrightarrow> threshold t \<le> int (pe_count e)"
  by (auto simp: palette_of_def sort_by_count_desc_def)

lemma color_step_hidden:
  "ce_display el = ''none'' \<or> ce_visibility el = ''hidden'' \<or> ce_opacity el = ''0''
     \<Longrightarrow> color_step el m = m"
  by (simp add: color_step_def)

lemma fold_hidden: "color_step el m = m \<Longrightarrow> fold color_step (replicate n el) m = m"
  by (induction n) simp_all

lemma norm_dc2626: "normalizeColor ''rgb(220, 38, 38)'' = ''#dc2626''"
proof -
  have m: "rgbaMatch ''rgb(220, 38, 38)'' = Some (''220'', ''38'', ''38'')"
    by (simp add: rgbaMatch_def rgba_at_def expect_str_def optional_char_def digits1_def
        is_digit_def is_space_def)
  have c: "hex_component ''220'' = ''dc''" "hex_component ''38'' = ''26''"
    by (simp_all add: hex_component_def parseInt_def is_digit_def is_space_def dec_value_def
        digit_val_def double_small v8_hex.simps hex_digits.simps hex_char_def padStart2_def)
  show ?thesis by (simp add: normalizeColor_def m c)
qed

lemma red_step_1:
  "color_step \<lparr>ce_display = ''block'', ce_visibility = ''visible'', ce_opacity = ''1'',
       ce_shadowColors = [], ce_allColors = [''rgb(220, 38, 38)''], ce_score = 4,
       ce_source = ''primary''\<rparr> []
   = [(''#dc2626'', \<lparr>original = ''rgb(220, 38, 38)'', cd_count = 1, cd_score = 4,
                      cd_sources = [''primary'']\<rparr>)]"
  by (simp add: color_step_def add_color_def norm_dc2626 colorMap_get_def map_set_def set_add_def)

lemma red_step_2:
  "color_step \<lparr>ce_display = ''block'', ce_visibility = ''visible'', ce_opacity = ''1'',
       ce_shadowColors = [], ce_allColors = [''rgb(220, 38, 38)''], ce_score = 4,
       ce_source = ''primary''\<rparr>
     [(''#dc2626'', \<lparr>original = ''rgb(220, 38, 38)'', cd_count = 1, cd_score = 4,
                      cd_sources = [''primary'']\<rparr>)]
   = [(''#dc2626'', \<lparr>original = ''rgb(220, 38, 38)'', cd_count = 2, cd_score = 8,
                      cd_sources = [''primary'']\<rparr>)]"
  by (simp add: color_step_def add_color_def norm_dc2626 colorMap_get_def map_set_def set_add_def)

lemma red_step_3:
  "color_step \<lparr>ce_display = ''block'', ce_visibility = ''visible'', ce_opacity = ''1'',
       ce_shadowColors = [], ce_allColors = [''rgb(220, 38, 38)''], ce_score = 4,
       ce_source = ''primary''\<rparr>
     [(''#dc2626'', \<lparr>original = ''rgb(220, 38, 38)'', cd_count = 2, cd_score = 8,
                      cd_sources = [''primary'']\<rparr>)]
   = [(''#dc2626'', \<lparr>original = ''rgb(220, 38, 38)'', cd_count = 3, cd_score = 12,
                      cd_sources = [''primary'']\<rparr>)]"
  by (simp add: color_step_def add_color_def norm_dc2626 colorMap_get_def map_set_def set_add_def)

lemma threshold_400: "threshold 400 = 4"
  by (simp add: threshold_def)

lemma hidden_page_colorMap:
  "build_colorMap
     ([\<lparr>ce_display = ''block'', ce_visibility = ''visible'', ce_opacity = ''1'',
        ce_shadowColors = [], ce_allColors = [''rgb(220, 38, 38)''], ce_score = 4,
        ce_source = ''primary''\<rparr>,
       \<lparr>ce_display = ''block'', ce_visibility = ''visible'', ce_opacity = ''1'',
        ce_shadowColors = [], ce_allColors = [''rgb(220, 38, 38)''], ce_score = 4,
        ce_source = ''primary''\<rparr>,
       \<lparr>ce_display = ''block'', ce_visibility = ''visible'', ce_opacity = ''1'',
        ce_shadowColors = [], ce_allColors = [''rgb(220, 38, 38)''], ce_score = 4,
        ce_source = ''primary''\<rparr>]
      @ replicate 397 \<lparr>ce_display = ''none'', ce_visibility = ''visible'', ce_opacity = ''1'',
          ce_shadowColors = [], ce_allColors = [''rgb(220, 38, 38)''], ce_score = 4,
          ce_source = ''primary''\<rparr>)
   = [(''#dc2626'', \<lparr>original = ''rgb(220, 38, 38)'', cd_count = 3, cd_score = 12,
                      cd_sources = [''primary'']\<rparr>)]"
proof -
  have h: "\<And>m. fold color_step
       (replicate 397 \<lparr>ce_display = ''none'', ce_visibility = ''visible'', ce_opacity = ''1'',
          ce_shadowColors = [], ce_allColors = [''rgb(220, 38, 38)''], ce_score = 4,
          ce_source = ''primary''\<rparr>) m = m"
    by (rule fold_hidden) (simp add: color_step_hidden)
  show ?thesis
    unfolding build_colorMap_def fold_append comp_def fold_simps h red_step_1 red_step_2
      red_step_3 by (rule refl)
qed

text \<open>
  C2. The threshold should be \<open>max(3, 1%)\<close> of the visible elements. On a page of 400
  elements of which 397 are \<open>display: none\<close>, the three visible elements carry one red
  with score 4 each. The visible count gives the threshold 3, but \<open>totalElements\<close> is
  the length of the whole element list, the threshold is 4, and the red with its three
  occurrences is dropped: the palette is empty. The threshold is \<open>max(3, N div 100)\<close>
  in the number \<open>N\<close> of all elements and monotone in it (\<open>threshold_div\<close>,
  \<open>threshold_mono\<close>), and no palette entry is below it (\<open>palette_of_above_threshold\<close>).
\<close>

theorem C2_threshold_counts_hidden:
  "(let page =
      [\<lparr>ce_display = ''block'', ce_visibility = ''visible'', ce_opacity = ''1'',
        ce_shadowColors = [], ce_allColors = [''rgb(220, 38, 38)''], ce_score = 4,
        ce_source = ''primary''\<rparr>,
       \<lparr>ce_display = ''block'', ce_visibility = ''visible'', ce_opacity = ''1'',
        ce_shadowColors = [], ce_allColors = [''rgb(220, 38, 38)''], ce_score = 4,
        ce_source = ''primary''\<rparr>,
       \<lparr>ce_display = ''block'', ce_visibility = ''visible'', ce_opacity = ''1'',
        ce_shadowColors = [], ce_allColors = [''rgb(220, 38, 38)''], ce_score = 4,
        ce_source = ''primary''\<rparr>]
      @ replicate 397 \<lparr>ce_display = ''none'', ce_visibility = ''visible'', ce_opacity = ''1'',
          ce_shadowColors = [], ce_allColors = [''rgb(220, 38, 38)''], ce_score = 4,
          ce_source = ''primary''\<rparr>
    in length page = 400
       \<and> length (filter visible_element page) = 3
       \<and> spec_threshold page = 3
       \<and> threshold (length page) = 4
       \<and> build_colorMap page
           = [(''#dc2626'', \<lparr>original = ''rgb(220, 38, 38)'', cd_count = 3, cd_score = 12,
                               cd_sources = [''primary'']\<rparr>)]
       \<and> extractColors_palette page = [])"
proof -
  have p: "palette_of [(''#dc2626'', \<lparr>original = ''rgb(220, 38, 38)'', cd_count = 3, cd_score = 12,
                               cd_sources = [''primary'']\<rparr>)] 400 = []"
    by (simp add: palette_of_def threshold_400 sort_by_count_desc_def)
  have d: "perceptuallyDeduped [] = []"
    by (simp add: perceptuallyDeduped_def dedup_clusters_def)
  show ?thesis
    unfolding Let_def extractColors_palette_def hidden_page_colorMap
    by (simp add: p d threshold_400 spec_threshold_def visible_element_def)
qed

section \<open>Properties of the spacing scale\<close>

lemma detect_scale_8: "detect_scale vals = ''8px'' \<longleftrightarrow> list_ex (\<lambda>v. num_rem (numericValue v) 8 = Num 0) vals"
  by (simp add: detect_scale_def Let_def)

lemma detect_scale_4: "detect_scale vals = ''4px'' \<longleftrightarrow>
   (\<not> list_ex (\<lambda>v. num_rem (numericValue v) 8 = Num 0) vals \<and> list_ex (\<lambda>v. num_rem (numericValue v) 4 = Num 0) vals)"
  by (simp add: detect_scale_def Let_def)

lemma detect_scale_custom: "detect_scale vals = ''custom'' \<longleftrightarrow>
   (\<not> list_ex (\<lambda>v. num_rem (numericValue v) 8 = Num 0) vals \<and> \<not> list_ex (\<lambda>v. num_rem (numericValue v) 4 = Num 0) vals)"
  by (simp add: detect_scale_def Let_def)

lemma extractSpacing_fields:
  "scaleType (extractSpacing els) = detect_scale (commonValues (extractSpacing els))"
  "commonValues (extractSpacing els) = common_values (collect_spacings els)"
  by (simp_all add: extractSpacing_def Let_def)

lemma pf: "parseFloat ''3px'' = Num 3" "parseFloat ''5px'' = Num 5" "parseFloat ''8px'' = Num 8" "parseFloat ''0px'' = Num 0"
  by (simp_all add: parseFloat_def is_digit_def is_space_def dec_value_def digit_val_def
      exponent_part_def fl_small)

text \<open>A remainder of zero means an integer multiple.\<close>

lemma js_rem_multiple:
  assumes "b \<noteq> 0"
  shows "js_rem a b = 0 \<longleftrightarrow> (\<exists>k::int. a = b * real_of_int k)"
proof
  assume "js_rem a b = 0"
  then have "a = b * real_of_int (if a / b \<ge> 0 then \<lfloor>a / b\<rfloor> else \<lceil>a / b\<rceil>)"
    by (simp add: js_rem_def)
  then show "\<exists>k::int. a = b * real_of_int k" by blast
next
  assume "\<exists>k::int. a = b * real_of_int k"
  then obtain k :: int where k: "a = b * real_of_int k" by blast
  then have "a / b = real_of_int k" using assms by simp
  then show "js_rem a b = 0" using k by (simp add: js_rem_def)
qed

lemma num_rem_multiple:
  assumes "b \<noteq> 0"
  shows "num_rem v b = Num 0 \<longleftrightarrow> (\<exists>x. \<exists>k::int. v = Num x \<and> x = b * real_of_int k)"
  using js_rem_multiple [OF assms] by (cases v) auto

lemma collect_example:
  "collect_spacings
     [\<lparr>marginTop = ''0px'', marginBottom = ''0px'', paddingTop = ''0px'', paddingBottom = ''0px''\<rparr>,
      \<lparr>marginTop = ''8px'', marginBottom = ''8px'', paddingTop = ''0px'', paddingBottom = ''0px''\<rparr>,
      \<lparr>marginTop = ''3px'', marginBottom = ''3px'', paddingTop = ''5px'', paddingBottom = ''5px''\<rparr>,
      \<lparr>marginTop = ''3px'', marginBottom = ''3px'', paddingTop = ''5px'', paddingBottom = ''5px''\<rparr>]
   = [(Num 8, 2), (Num 3, 4), (Num 5, 4)]"
  by (simp add: collect_spacings_def spacing_step_def count_spacing_def pf map_set_def)

lemma common_example:
  "common_values [(Num 8, 2), (Num 3, 4), (Num 5, 4)]
     = [\<lparr>sv_count = 4, numericValue = Num 3\<rparr>, \<lparr>sv_count = 4, numericValue = Num 5\<rparr>,
        \<lparr>sv_count = 2, numericValue = Num 8\<rparr>]"
  by (simp add: common_values_def)

lemma rem_examples: "num_rem (Num 3) 8 = Num 3" "num_rem (Num 5) 8 = Num 5"
  "num_rem (Num 8) 8 = Num 0" "num_rem (Num 3) 4 = Num 3" "num_rem (Num 5) 4 = Num 1"
  "num_rem (Num 8) 4 = Num 0"
  by (simp_all add: js_rem_def)

lemma js_rem_examples: "js_rem 3 8 = 3" "js_rem 5 8 = 5" "js_rem 8 8 = 0" "js_rem 3 4 = 3"
  "js_rem 5 4 = 1" "js_rem 8 4 = 0"
  by (simp_all add: js_rem_def)

text \<open>
  A page of four elements: the root without spacing, the body with its margin of 8px, and
  two blocks with margins of 3px and paddings of 5px. The most frequent values are 3 and
  5, neither a multiple of 8 or of 4, and the scale is still reported as 8px, because a
  single multiple of 8 among the values is enough.
\<close>

theorem C9_scale_counterexample:
  "scaleType (extractSpacing
     [\<lparr>marginTop = ''0px'', marginBottom = ''0px'', paddingTop = ''0px'', paddingBottom = ''0px''\<rparr>,
      \<lparr>marginTop = ''8px'', marginBottom = ''8px'', paddingTop = ''0px'', paddingBottom = ''0px''\<rparr>,
      \<lparr>marginTop = ''3px'', marginBottom = ''3px'', paddingTop = ''5px'', paddingBottom = ''5px''\<rparr>,
      \<lparr>marginTop = ''3px'', marginBottom = ''3px'', paddingTop = ''5px'', paddingBottom = ''5px''\<rparr>])
     = ''8px''
   \<and> commonValues (extractSpacing
     [\<lparr>marginTop = ''0px'', marginBottom = ''0px'', paddingTop = ''0px'', paddingBottom = ''0px''\<rparr>,
      \<lparr>marginTop = ''8px'', marginBottom = ''8px'', paddingTop = ''0px'', paddingBottom = ''0px''\<rparr>,
      \<lparr>marginTop = ''3px'', marginBottom = ''3px'', paddingTop = ''5px'', paddingBottom = ''5px''\<rparr>,
      \<lparr>marginTop = ''3px'', marginBottom = ''3px'', paddingTop = ''5px'', paddingBottom = ''5px''\<rparr>])
       = [\<lparr>sv_count = 4, numericValue = Num 3\<rparr>, \<lparr>sv_count = 4, numericValue = Num 5\<rparr>,
          \<lparr>sv_count = 2, numericValue = Num 8\<rparr>]
   \<and> num_rem (Num 3) 8 \<noteq> Num 0 \<and> num_rem (Num 5) 8 \<noteq> Num 0
   \<and> spec_scaleType (commonValues (extractSpacing
     [\<lparr>marginTop = ''0px'', marginBottom = ''0px'', paddingTop = ''0px'', paddingBottom = ''0px''\<rparr>,
      \<lparr>marginTop = ''8px'', marginBottom = ''8px'', paddingTop = ''0px'', paddingBottom = ''0px''\<rparr>,
      \<lparr>marginTop = ''3px'', marginBottom = ''3px'', paddingTop = ''5px'', paddingBottom = ''5px''\<rparr>,
      \<lparr>marginTop = ''3px'', marginBottom = ''3px'', paddingTop = ''5px'', paddingBottom = ''5px''\<rparr>]))
     = ''custom''"
  unfolding extractSpacing_fields collect_example common_example
  by (simp add: detect_scale_def spec_scaleType_def js_rem_examples)

text \<open>
  C9 (amended). The scale is 8px exactly when at least one of the common values (the at
  most 20 most frequent spacing values) is a multiple of 8; it is 4px exactly when none is
  a multiple of 8 and at least one is a multiple of 4; it is custom exactly when none is a
  multiple of 4 or of 8. So values none of which is a multiple of 8 are never classified
  as an 8px scale.
\<close>

theorem C9_scale_amended:
  "(scaleType (extractSpacing els) = ''8px''
      \<longleftrightarrow> list_ex (\<lambda>v. num_rem (numericValue v) 8 = Num 0) (commonValues (extractSpacing els)))
   \<and> (scaleType (extractSpacing els) = ''4px''
      \<longleftrightarrow> \<not> list_ex (\<lambda>v. num_rem (numericValue v) 8 = Num 0) (commonValues (extractSpacing els))
          \<and> list_ex (\<lambda>v. num_rem (numericValue v) 4 = Num 0) (commonValues (extractSpacing els)))
   \<and> (scaleType (extractSpacing els) = ''custom''
      \<longleftrightarrow> \<not> list_ex (\<lambda>v. num_rem (numericValue v) 8 = Num 0) (commonValues (extractSpacing els))
          \<and> \<not> list_ex (\<lambda>v. num_rem (numericValue v) 4 = Num 0) (commonValues (extractSpacing els)))
   \<and> commonValues (extractSpacing els)
        = sort_key (\<lambda>v. sort_rank (numericValue v))
            (map (\<lambda>e. \<lparr>sv_count = snd e, numericValue = fst e\<rparr>)
               (take 20 (sort_key (\<lambda>e. - int (snd e)) (collect_spacings els))))
   \<and> length (commonValues (extractSpacing els)) \<le> 20"
  unfolding extractSpacing_fields detect_scale_8 detect_scale_4 detect_scale_custom
  by (simp add: common_values_def)

section \<open>Properties of the button filter\<close>

lemma trim_sign_up: "trim ''Sign Up'' = ''Sign Up''"
  by (simp add: trim_def is_space_def)

lemma split_sign_up: "split_space ''Sign Up'' = [''Sign'', ''Up'']"
  by simp

lemma lower_sign_up: "toLowerCase ''Sign Up'' = ''sign up''"
  by (simp add: toLowerCase_def lower_defs)

lemma split_lower_sign_up: "split_space ''sign up'' = [''sign'', ''up'']"
  by simp

lemma no_breaks_sign_up: "\<not> str_includes ''Sign Up'' [CHR 0x0A]" "\<not> str_includes ''Sign Up'' [CHR 0x09]"
  by simp_all

lemma trim_skip: "trim ''Skip to content'' = ''Skip to content''"
  by (simp add: trim_def is_space_def)

lemma lower_skip: "toLowerCase ''Skip to content'' = ''skip to content''"
  by (simp add: toLowerCase_def lower_defs)

lemma split_skip: "split_space ''skip to content'' = [''skip'', ''to'', ''content'']"
  by simp

lemma trim_empty: "trim [] = []"
  by (simp add: trim_def)

lemma retained_sign_up:
  assumes "bc_width btn = 300" "bc_height btn = 40"
    "bc_display btn \<noteq> ''none''" "bc_visibility btn \<noteq> ''hidden''" "bc_opacity btn \<noteq> ''0''"
    "bc_transform btn \<noteq> ''matrix(0, 0, 0, 0, 0, 0)''"
    "bc_innerText btn = Some ''Sign Up''"
    "bc_materialIcons btn = 0" "bc_materialSymbols btn = 0"
    "hasBackground btn"
  shows "button_retained btn"
proof -
  have t: "buttonText btn = ''Sign Up''"
    using assms(7) by (simp add: buttonText_def trim_sign_up)
  have n: "textNoSpaces btn = ''SignUp''"
    unfolding textNoSpaces_def t split_sign_up by simp
  show ?thesis
    unfolding button_retained_def Let_def t n lower_sign_up split_lower_sign_up
    using assms no_breaks_sign_up by simp
qed

lemma rejected_wide: "bc_width btn > 600 \<Longrightarrow> \<not> button_retained btn"
  by (simp add: button_retained_def Let_def)

lemma rejected_skip_token:
  "''skip'' \<in> set (split_space (toLowerCase (buttonText btn))) \<Longrightarrow> \<not> button_retained btn"
  by (simp add: button_retained_def Let_def)

lemma rejected_skip_to_content:
  assumes "bc_innerText btn = Some ''Skip to content''"
  shows "\<not> button_retained btn"
proof -
  have "buttonText btn = ''Skip to content''"
    using assms by (simp add: buttonText_def trim_skip)
  then have "''skip'' \<in> set (split_space (toLowerCase (buttonText btn)))"
    by (simp only: lower_skip split_skip) simp
  then show ?thesis by (rule rejected_skip_token)
qed

lemma retained_icon_button:
  assumes "bc_width btn = 40" "bc_height btn = 40"
    "bc_display btn \<noteq> ''none''" "bc_visibility btn \<noteq> ''hidden''" "bc_opacity btn \<noteq> ''0''"
    "bc_transform btn \<noteq> ''matrix(0, 0, 0, 0, 0, 0)''"
    "bc_innerText btn = Some []"
    "bc_materialIcons btn = 0" "bc_materialSymbols btn = 0"
    "hasBorder btn"
  shows "button_retained btn"
proof -
  have t: "buttonText btn = []"
    using assms(7) by (simp add: buttonText_def trim_empty)
  have n: "textNoSpaces btn = []"
    unfolding textNoSpaces_def t by simp
  have l: "toLowerCase [] = []" by (simp add: toLowerCase_def)
  show ?thesis
    unfolding button_retained_def Let_def t n l
    using assms by simp
qed

text \<open>
  C6. A displayed candidate of 300 by 40 pixels with a non-transparent background and the
  text \<open>Sign Up\<close> is retained; every candidate wider than 600 pixels is rejected; every
  candidate whose lower-cased text has the token \<open>skip\<close> between spaces is rejected, so
  \<open>Skip to content\<close> is; and a displayed native button of 40 by 40 pixels with empty
  text, a transparent background and a border of positive width is retained.
\<close>

theorem C6_button_filter:
  "(bc_width btn = 300 \<and> bc_height btn = 40
      \<and> bc_display btn \<noteq> ''none'' \<and> bc_visibility btn \<noteq> ''hidden'' \<and> bc_opacity btn \<noteq> ''0''
      \<and> bc_transform btn \<noteq> ''matrix(0, 0, 0, 0, 0, 0)''
      \<and> bc_innerText btn = Some ''Sign Up''
      \<and> bc_materialIcons btn = 0 \<and> bc_materialSymbols btn = 0
      \<and> hasBackground btn
     \<longrightarrow> button_retained btn)
   \<and> (bc_width btn > 600 \<longrightarrow> \<not> button_retained btn)
   \<and> (''skip'' \<in> set (split_space (toLowerCase (buttonText btn))) \<longrightarrow> \<not> button_retained btn)
   \<and> (bc_innerText btn = Some ''Skip to content'' \<longrightarrow> \<not> button_retained btn)
   \<and> (bc_width btn = 40 \<and> bc_height btn = 40
      \<and> bc_display btn \<noteq> ''none'' \<and> bc_visibility btn \<noteq> ''hidden'' \<and> bc_opacity btn \<noteq> ''0''
      \<and> bc_transform btn \<noteq> ''matrix(0, 0, 0, 0, 0, 0)''
      \<and> bc_tagName btn = ''BUTTON'' \<and> bc_innerText btn = Some []
      \<and> bc_materialIcons btn = 0 \<and> bc_materialSymbols btn = 0
      \<and> bc_backgroundColor btn = ''rgba(0, 0, 0, 0)'' \<and> bc_firstChildBackground btn = None
      \<and> hasBorder btn
     \<longrightarrow> button_retained btn)"
  using retained_sign_up [of btn] rejected_wide [of btn] rejected_skip_token [of btn]
    rejected_skip_to_content [of btn] retained_icon_button [of btn]
  by blast

lemma green_has_background:
  "hasBackground
     \<lparr>bc_width = 300, bc_height = 40, bc_display = ''inline-block'',
        bc_visibility = ''visible'', bc_opacity = ''1'', bc_transform = ''none'',
        bc_innerText = Some ''Sign Up'', bc_materialIcons = 0, bc_materialSymbols = 0,
        bc_backgroundColor = ''rgb(0, 128, 0)'', bc_border = ''0px none rgb(255, 255, 255)'',
        bc_borderWidth = ''0px'', bc_firstChildBackground = None, bc_tagName = ''A''\<rparr>"
  by (simp add: hasBackground_def)

lemma bordered_has_border:
  "hasBorder
     \<lparr>bc_width = 40, bc_height = 40, bc_display = ''inline-block'',
        bc_visibility = ''visible'', bc_opacity = ''1'', bc_transform = ''none'',
        bc_innerText = Some [], bc_materialIcons = 0, bc_materialSymbols = 0,
        bc_backgroundColor = ''rgba(0, 0, 0, 0)'', bc_border = ''1px solid rgb(0, 0, 0)'',
        bc_borderWidth = ''1px'', bc_firstChildBackground = None, bc_tagName = ''BUTTON''\<rparr>"
  by (simp add: hasBorder_def parseFloat_def is_digit_def is_space_def dec_value_def digit_val_def
      exponent_part_def fl_small)

theorem C6_button_filter_witness:
  "hasBackground
     \<lparr>bc_width = 300, bc_height = 40, bc_display = ''inline-block'',
        bc_visibility = ''visible'', bc_opacity = ''1'', bc_transform = ''none'',
        bc_innerText = Some ''Sign Up'', bc_materialIcons = 0, bc_materialSymbols = 0,
        bc_backgroundColor = ''rgb(0, 128, 0)'', bc_border = ''0px none rgb(255, 255, 255)'',
        bc_borderWidth = ''0px'', bc_firstChildBackground = None, bc_tagName = ''A''\<rparr>
   \<and> button_retained
     \<lparr>bc_width = 300, bc_height = 40, bc_display = ''inline-block'',
        bc_visibility = ''visible'', bc_opacity = ''1'', bc_transform = ''none'',
        bc_innerText = Some ''Sign Up'', bc_materialIcons = 0, bc_materialSymbols = 0,
        bc_backgroundColor = ''rgb(0, 128, 0)'', bc_border = ''0px none rgb(255, 255, 255)'',
        bc_borderWidth = ''0px'', bc_firstChildBackground = None, bc_tagName = ''A''\<rparr>
   \<and> \<not> button_retained
     \<lparr>bc_width = 700, bc_height = 40, bc_display = ''inline-block'',
        bc_visibility = ''visible'', bc_opacity = ''1'', bc_transform = ''none'',
        bc_innerText = Some ''Sign Up'', bc_materialIcons = 0, bc_materialSymbols = 0,
        bc_backgroundColor = ''rgb(0, 128, 0)'', bc_border = ''0px none rgb(255, 255, 255)'',
        bc_borderWidth = ''0px'', bc_firstChildBackground = None, bc_tagName = ''A''\<rparr>
   \<and> \<not> button_retained
     \<lparr>bc_width = 300, bc_height = 40, bc_display = ''inline-block'',
        bc_visibility = ''visible'', bc_opacity = ''1'', bc_transform = ''none'',
        bc_innerText = Some ''Skip to content'', bc_materialIcons = 0, bc_materialSymbols = 0,
        bc_backgroundColor = ''rgb(0, 128, 0)'', bc_border = ''0px none rgb(255, 255, 255)'',
        bc_borderWidth = ''0px'', bc_firstChildBackground = None, bc_tagName = ''A''\<rparr>
   \<and> hasBorder
     \<lparr>bc_width = 40, bc_height = 40, bc_display = ''inline-block'',
        bc_visibility = ''visible'', bc_opacity = ''1'', bc_transform = ''none'',
        bc_innerText = Some [], bc_materialIcons = 0, bc_materialSymbols = 0,
        bc_backgroundColor = ''rgba(0, 0, 0, 0)'', bc_border = ''1px solid rgb(0, 0, 0)'',
        bc_borderWidth = ''1px'', bc_firstChildBackground = None, bc_tagName = ''BUTTON''\<rparr>
   \<and> button_retained
     \<lparr>bc_width = 40, bc_height = 40, bc_display = ''inline-block'',
        bc_visibility = ''visible'', bc_opacity = ''1'', bc_transform = ''none'',
        bc_innerText = Some [], bc_materialIcons = 0, bc_materialSymbols = 0,
        bc_backgroundColor = ''rgba(0, 0, 0, 0)'', bc_border = ''1px solid rgb(0, 0, 0)'',
        bc_borderWidth = ''1px'', bc_firstChildBackground = None, bc_tagName = ''BUTTON''\<rparr>"
  using green_has_background bordered_has_border
    C6_button_filter [of "\<lparr>bc_width = 300, bc_height = 40, bc_display = ''inline-block'',
        bc_visibility = ''visible'', bc_opacity = ''1'', bc_transform = ''none'',
        bc_innerText = Some ''Sign Up'', bc_materialIcons = 0, bc_materialSymbols = 0,
        bc_backgroundColor = ''rgb(0, 128, 0)'', bc_border = ''0px none rgb(255, 255, 255)'',
        bc_borderWidth = ''0px'', bc_firstChildBackground = None, bc_tagName = ''A''\<rparr>"]
    C6_button_filter [of "\<lparr>bc_width = 700, bc_height = 40, bc_display = ''inline-block'',
        bc_visibility = ''visible'', bc_opacity = ''1'', bc_transform = ''none'',
        bc_innerText = Some ''Sign Up'', bc_materialIcons = 0, bc_materialSymbols = 0,
        bc_backgroundColor = ''rgb(0, 128, 0)'', bc_border = ''0px none rgb(255, 255, 255)'',
        bc_borderWidth = ''0px'', bc_firstChildBackground = None, bc_tagName = ''A''\<rparr>"]
    C6_button_filter [of "\<lparr>bc_width = 300, bc_height = 40, bc_display = ''inline-block'',
        bc_visibility = ''visible'', bc_opacity = ''1'', bc_transform = ''none'',
        bc_innerText = Some ''Skip to content'', bc_materialIcons = 0, bc_materialSymbols = 0,
        bc_backgroundColor = ''rgb(0, 128, 0)'', bc_border = ''0px none rgb(255, 255, 255)'',
        bc_borderWidth = ''0px'', bc_firstChildBackground = None, bc_tagName = ''A''\<rparr>"]
    C6_button_filter [of "\<lparr>bc_width = 40, bc_height = 40, bc_display = ''inline-block'',
        bc_visibility = ''visible'', bc_opacity = ''1'', bc_transform = ''none'',
        bc_innerText = Some [], bc_materialIcons = 0, bc_materialSymbols = 0,
        bc_backgroundColor = ''rgba(0, 0, 0, 0)'', bc_border = ''1px solid rgb(0, 0, 0)'',
        bc_borderWidth = ''1px'', bc_firstChildBackground = None, bc_tagName = ''BUTTON''\<rparr>"]
  by simp

end
